(* ===== verification/Iol_Prelude.thy ===== *)
theory Iol_Prelude
  imports Main "HOL-Library.Word" "HOL-Library.Monad_Syntax"
begin

text \<open>
  Shared vocabulary of the development: the C integer types as machine words, pointers that may
  be NULL, partial computations (\<open>None\<close> is an execution the C standard gives no meaning to, such
  as an access outside an array, or one that never returns), C arrays with checked accesses,
  \<^verbatim>\<open>memcpy\<close>, \<^verbatim>\<open>strlen\<close>, counted \<^verbatim>\<open>for\<close> loops, and the helpers of
  \<^verbatim>\<open>include/iolinki/utils.h\<close>.  \<open>runs m P\<close> is the total-correctness judgement used throughout:
  the computation \<open>m\<close> has a defined result and that result satisfies \<open>P\<close>.  Its rules are
  equations, so the simplifier computes weakest preconditions.
\<close>

unbundle bit_operations_syntax

named_theorems wf_defs \<open>definitions of the well-formedness invariants\<close>
named_theorems c_defs \<open>definitions of the C-level helper operations\<close>

section \<open>Integer types and pointers\<close>

type_synonym u8 = "8 word"
type_synonym u16 = "16 word"
type_synonym u32 = "32 word"
type_synonym u64 = "64 word"
type_synonym bytes = "u8 list"

text \<open>A C pointer: \<open>NULL\<close>, or a reference to an object whose current value is carried along.\<close>

datatype 'a ptr = NULL | Ref (deref: 'a)

definition with_ptr :: "'r \<Rightarrow> ('a \<Rightarrow> ('r \<times> 'a) option) \<Rightarrow> 'a ptr \<Rightarrow> ('r \<times> 'a ptr) option" where
  "with_ptr dflt f p =
     (case p of NULL \<Rightarrow> Some (dflt, NULL)
      | Ref x \<Rightarrow> map_option (\<lambda>(r, x'). (r, Ref x')) (f x))"

lemma with_ptr_simps [simp]:
  "with_ptr d f NULL = Some (d, NULL)"
  "f x = Some (r, y) \<Longrightarrow> with_ptr d f (Ref x) = Some (r, Ref y)"
  by (simp_all add: with_ptr_def)

section \<open>Partial computations\<close>

definition runs :: "'a option \<Rightarrow> ('a \<Rightarrow> bool) \<Rightarrow> bool" where
  "runs m P \<longleftrightarrow> (\<exists>x. m = Some x \<and> P x)"

lemma runs_Some [simp]: "runs (Some x) P \<longleftrightarrow> P x"
  by (simp add: runs_def)

lemma runs_None [simp]: "\<not> runs None P"
  by (simp add: runs_def)

lemma runs_bind [simp]: "runs (Option.bind m f) P \<longleftrightarrow> runs m (\<lambda>x. runs (f x) P)"
  by (cases m) simp_all

lemma runs_map_option [simp]: "runs (map_option f m) P \<longleftrightarrow> runs m (\<lambda>x. P (f x))"
  by (cases m) simp_all

lemma runs_if [simp]:
  "runs (if b then m1 else m2) P \<longleftrightarrow> (if b then runs m1 P else runs m2 P)"
  by simp

lemma runs_mono: "runs m P \<Longrightarrow> (\<And>x. P x \<Longrightarrow> Q x) \<Longrightarrow> runs m Q"
  by (auto simp: runs_def)

lemma runs_conj: "runs m P \<Longrightarrow> runs m Q \<Longrightarrow> runs m (\<lambda>x. P x \<and> Q x)"
  by (auto simp: runs_def)

lemma runs_bindI: "runs m Q \<Longrightarrow> (\<And>x. Q x \<Longrightarrow> runs (f x) P) \<Longrightarrow> runs (Option.bind m f) P"
  by (auto intro: runs_mono)

lemma runsE:
  assumes "runs m P"
  obtains x where "m = Some x" and "P x"
  using assms by (auto simp: runs_def)

lemma runsI: "m = Some x \<Longrightarrow> P x \<Longrightarrow> runs m P"
  by simp

section \<open>Arrays\<close>

definition arr_get :: "'a list \<Rightarrow> nat \<Rightarrow> 'a option" where
  "arr_get xs i = (if i < length xs then Some (xs ! i) else None)"

definition arr_set :: "'a list \<Rightarrow> nat \<Rightarrow> 'a \<Rightarrow> 'a list option" where
  "arr_set xs i v = (if i < length xs then Some (xs[i := v]) else None)"

text \<open>
  \<^verbatim>\<open>memcpy(dst + d, src + s, n)\<close>: defined when both ranges lie inside their arrays.
\<close>

definition memcpy :: "'a list \<Rightarrow> nat \<Rightarrow> 'a list \<Rightarrow> nat \<Rightarrow> nat \<Rightarrow> 'a list option" where
  "memcpy dst d src s n =
     (if d + n \<le> length dst \<and> s + n \<le> length src
      then Some (take d dst @ take n (drop s src) @ drop (d + n) dst) else None)"

text \<open>\<^verbatim>\<open>strlen\<close> of the string stored in a char array: undefined without a terminating NUL.\<close>

definition strlen :: "bytes \<Rightarrow> nat option" where
  "strlen s = (if 0 \<in> set s then Some (length (takeWhile (\<lambda>c. c \<noteq> 0) s)) else None)"

text \<open>The string a NUL-terminated array holds, and the array of a C string literal.\<close>

definition cstr_of :: "bytes \<Rightarrow> bytes" where
  "cstr_of s = takeWhile (\<lambda>c. c \<noteq> 0) s"

definition c_literal :: "string \<Rightarrow> bytes" where
  "c_literal s = map of_char s @ [0]"

lemma runs_arr_get [simp]: "runs (arr_get xs i) P \<longleftrightarrow> i < length xs \<and> P (xs ! i)"
  by (simp add: arr_get_def)

lemma runs_arr_set [simp]: "runs (arr_set xs i v) P \<longleftrightarrow> i < length xs \<and> P (xs[i := v])"
  by (simp add: arr_set_def)

lemma arr_get_Some [simp]: "i < length xs \<Longrightarrow> arr_get xs i = Some (xs ! i)"
  by (simp add: arr_get_def)

lemma arr_set_Some [simp]: "i < length xs \<Longrightarrow> arr_set xs i v = Some (xs[i := v])"
  by (simp add: arr_set_def)

lemma runs_memcpy [simp]:
  "runs (memcpy dst d src s n) P \<longleftrightarrow>
     d + n \<le> length dst \<and> s + n \<le> length src \<and>
     P (take d dst @ take n (drop s src) @ drop (d + n) dst)"
  by (auto simp: memcpy_def)

lemma memcpy_Some:
  "d + n \<le> length dst \<Longrightarrow> s + n \<le> length src \<Longrightarrow>
     memcpy dst d src s n = Some (take d dst @ take n (drop s src) @ drop (d + n) dst)"
  by (simp add: memcpy_def)

lemma length_memcpy: "memcpy dst d src s n = Some xs \<Longrightarrow> length xs = length dst"
  by (auto simp: memcpy_def split: if_splits)

lemma runs_strlen [simp]:
  "runs (strlen s) P \<longleftrightarrow> 0 \<in> set s \<and> P (length (cstr_of s))"
  by (simp add: strlen_def cstr_of_def)

lemma strlen_Some: "0 \<in> set s \<Longrightarrow> strlen s = Some (length (cstr_of s))"
  by (simp add: strlen_def cstr_of_def)

lemma take_strlen [simp]: "take (length (cstr_of s)) s = cstr_of s"
  by (simp add: cstr_of_def takeWhile_eq_take [symmetric])

lemma length_cstr_of_le: "length (cstr_of s) \<le> length s"
  by (simp add: cstr_of_def length_takeWhile_le)

lemma length_cstr_of_less: "0 \<in> set s \<Longrightarrow> length (cstr_of s) < length s"
  unfolding cstr_of_def
  by (metis (mono_tags, lifting) le_neq_implies_less length_takeWhile_le takeWhile_eq_all_conv
      takeWhile_eq_take take_all_iff order_refl)

lemma cstr_of_append_NUL [simp]: "cstr_of (s @ 0 # r) = cstr_of s"
  by (simp add: cstr_of_def takeWhile_tail)

lemma cstr_of_id: "0 \<notin> set s \<Longrightarrow> cstr_of s = s"
  by (auto simp: cstr_of_def)

lemma cstr_of_Cons_0 [simp]: "cstr_of (0 # r) = []"
  by (simp add: cstr_of_def)

lemma cstr_of_no_NUL: "0 \<notin> set (cstr_of s)"
  unfolding cstr_of_def using set_takeWhileD by fastforce

section \<open>Counted loops\<close>

text \<open>\<^verbatim>\<open>for (i = 0; i < n; i++) body\<close>, with \<open>body i\<close> a partial state transformer.\<close>

primrec for_loop :: "nat \<Rightarrow> (nat \<Rightarrow> 's \<Rightarrow> 's option) \<Rightarrow> 's \<Rightarrow> 's option" where
  "for_loop 0 body s = Some s"
| "for_loop (Suc n) body s = for_loop n body s \<bind> body n"

lemma for_loop_inv:
  assumes "I 0 s" and "\<And>i t. i < n \<Longrightarrow> I i t \<Longrightarrow> runs (body i t) (I (Suc i))"
  shows "runs (for_loop n body s) (I n)"
  using assms(2)
proof (induction n)
  case 0
  then show ?case using assms(1) by simp
next
  case (Suc n)
  then have "runs (for_loop n body s) (I n)" by simp
  then show ?case by (auto intro: runs_mono Suc.prems)
qed

lemma for_loop_total:
  "(\<And>i t. i < n \<Longrightarrow> body i t = Some (f i t)) \<Longrightarrow>
     for_loop n body s = Some (fold f [0..<n] s)"
  by (induction n) auto

text \<open>Running a partial operation over a list of inputs, and collecting results of a getter.\<close>

primrec fold_opt :: "('s \<Rightarrow> 'a \<Rightarrow> 's option) \<Rightarrow> 's \<Rightarrow> 'a list \<Rightarrow> 's option" where
  "fold_opt f s [] = Some s"
| "fold_opt f s (x # xs) = f s x \<bind> (\<lambda>s'. fold_opt f s' xs)"

lemma fold_opt_append:
  "fold_opt f s (xs @ ys) = fold_opt f s xs \<bind> (\<lambda>s'. fold_opt f s' ys)"
proof (induction xs arbitrary: s)
  case (Cons x xs)
  then show ?case by (cases "f s x") simp_all
qed simp

primrec drain :: "('s \<Rightarrow> ('r \<times> 's) option) \<Rightarrow> nat \<Rightarrow> 's \<Rightarrow> ('r list \<times> 's) option" where
  "drain get 0 s = Some ([], s)"
| "drain get (Suc n) s =
     get s \<bind> (\<lambda>(r, s'). map_option (\<lambda>(rs, t). (r # rs, t)) (drain get n s'))"

lemma runs_case_prod [simp]:
  "runs (case p of (a, b) \<Rightarrow> f a b) P \<longleftrightarrow> (case p of (a, b) \<Rightarrow> runs (f a b) P)"
  by (cases p) simp

section \<open>Words and their naturals\<close>

lemma unat_of_nat_u8 [simp]: "n < 256 \<Longrightarrow> unat (word_of_nat n :: u8) = n"
  by (simp add: unat_of_nat)

lemma unat_of_nat_u8_mod: "unat (word_of_nat n :: u8) = n mod 256"
  by (simp add: unat_of_nat)

lemma unat_u8_less [simp]: "unat (w :: u8) < 256"
  using unsigned_less [of w, where ?'a = nat] by simp

lemma less_unat_u8D: "n < unat (w :: u8) \<Longrightarrow> n \<le> 254"
  using unat_u8_less [of w] by linarith

lemma unat_u16_less [simp]: "unat (w :: u16) < 65536"
  using unsigned_less [of w, where ?'a = nat] by simp

lemma unat_of_nat_u16 [simp]: "n < 65536 \<Longrightarrow> unat (word_of_nat n :: u16) = n"
  by (simp add: unat_of_nat)

lemma unat_ucast_u8_u16 [simp]: "unat (ucast (b :: u8) :: u16) = unat b"
proof -
  have "unat b < 2 ^ 16" by (rule order.strict_trans [OF unat_u8_less]) simp
  then show ?thesis by (simp add: unsigned_ucast_eq take_bit_nat_eq_self)
qed

text \<open>Two bytes packed into a 16-bit word: \<^verbatim>\<open>(hi << 8) | lo\<close>.\<close>

lemma pack_u16:
  assumes "b < 256"
  shows "push_bit 8 (word_of_nat a :: u16) OR word_of_nat b = word_of_nat (256 * a + b)"
proof -
  have "word_of_nat b = take_bit 8 (word_of_nat b :: u16)"
    using assms by (simp add: take_bit_of_nat take_bit_nat_eq_self)
  then have "\<not> bit (word_of_nat b :: u16) n" if "8 \<le> n" for n
    using that by (metis bit_take_bit_iff not_less)
  then have "push_bit 8 (word_of_nat a :: u16) AND word_of_nat b = 0"
    by (intro bit_word_eqI) (auto simp: bit_and_iff bit_push_bit_iff)
  then have "push_bit 8 (word_of_nat a :: u16) OR word_of_nat b
      = push_bit 8 (word_of_nat a) + word_of_nat b"
    by (simp add: disjunctive_add_eq_or)
  then show ?thesis by (simp add: push_bit_eq_mult)
qed

lemma unat_u8_Suc: "unat w < 255 \<Longrightarrow> unat ((w :: u8) + 1) = Suc (unat w)"
  by (simp add: unat_word_ariths)

lemma unat_u8_pred: "0 < unat w \<Longrightarrow> unat ((w :: u8) - 1) = unat w - 1"
  using unat_sub [of 1 w] by (simp add: word_le_nat_alt)

lemma u8_of_nat_eq_iff:
  "m < 256 \<Longrightarrow> n < 256 \<Longrightarrow> (word_of_nat m :: u8) = word_of_nat n \<longleftrightarrow> m = n"
  by (metis unat_of_nat_u8)

lemma unat_u8_0_iff [simp]: "unat (w :: u8) = 0 \<longleftrightarrow> w = 0"
  by (simp add: unat_eq_zero)

text \<open>Single-bit masks.\<close>

lemma and_0x80_iff: "(w :: u8) AND 0x80 \<noteq> 0 \<longleftrightarrow> bit w 7"
  using bit_iff_and_push_bit_not_eq_0 [of w 7] by simp

lemma and_0x40_iff: "(w :: u8) AND 0x40 \<noteq> 0 \<longleftrightarrow> bit w 6"
  using bit_iff_and_push_bit_not_eq_0 [of w 6] by simp

section \<open>The helpers of utils.h\<close>

definition iolink_buf_is_valid :: "'a ptr \<Rightarrow> nat \<Rightarrow> bool" where
  "iolink_buf_is_valid data len = (\<not> (data = NULL \<and> len > 0))"

text \<open>\<open>zero\<close> is the all-zero-bytes value of the object.\<close>

definition iolink_ctx_zero :: "'a \<Rightarrow> 'a ptr \<Rightarrow> bool \<times> 'a ptr" where
  "iolink_ctx_zero zero ctx = (case ctx of NULL \<Rightarrow> (False, NULL) | Ref _ \<Rightarrow> (True, Ref zero))"

end
