(* ===== verification/Crc.thy ===== *)
theory Crc
  imports Iol_Prelude
begin

text \<open>
  \<^verbatim>\<open>src/crc.c\<close>: the 6-bit M-sequence checksum.  The code keeps the checksum left-aligned in an
  8-bit register and divides by the generator \<open>x\<^sup>6 + x\<^sup>4 + x\<^sup>3 + x\<^sup>2 + 1\<close> bit by bit.  The theory
  gives the textbook definition (the remainder of a long division of bit lists) as reference,
  shows the code computes it, and derives which corruptions of a frame the checksum detects.
\<close>

section \<open>The code\<close>

text \<open>One iteration of the inner loop: shift left, subtract the shifted generator on carry.\<close>

definition crc6_shift :: "u8 \<Rightarrow> u8" where
  "crc6_shift crc =
     (if crc AND 0x80 \<noteq> 0 then push_bit 1 crc XOR push_bit 2 0x1D else push_bit 1 crc)"

text \<open>One iteration of the outer loop: \<^verbatim>\<open>crc ^= data[i]\<close>, then eight shifts.\<close>

definition crc6_byte :: "u8 \<Rightarrow> u8 \<Rightarrow> u8" where
  "crc6_byte crc b = (crc6_shift ^^ 8) (crc XOR b)"

definition iolink_crc6 :: "bytes ptr \<Rightarrow> u8 \<Rightarrow> u8 option" where
  "iolink_crc6 data len =
     (if \<not> iolink_buf_is_valid data (unat len) then Some 0
      else do {
        crc \<leftarrow> for_loop (unat len)
                 (\<lambda>i crc. do {
                    b \<leftarrow> (case data of NULL \<Rightarrow> None | Ref d \<Rightarrow> arr_get d i);
                    Some (crc6_byte crc b) }) 0x15;
        Some (drop_bit 2 crc AND 0x3F) })"

definition iolink_checksum_ck :: "u8 \<Rightarrow> u8 \<Rightarrow> u8 option" where
  "iolink_checksum_ck mc ckt = iolink_crc6 (Ref [mc, ckt]) 2"

section \<open>The checksum of a byte list\<close>

definition crc6_reg :: "u8 \<Rightarrow> bytes \<Rightarrow> u8" where
  "crc6_reg c xs = foldl crc6_byte c xs"

definition crc6_out :: "u8 \<Rightarrow> u8" where
  "crc6_out c = drop_bit 2 c AND 0x3F"

definition crc6 :: "bytes \<Rightarrow> u8" where
  "crc6 xs = crc6_out (crc6_reg 0x15 xs)"

lemma crc6_reg_simps [simp]:
  "crc6_reg c [] = c"
  "crc6_reg c (x # xs) = crc6_reg (crc6_byte c x) xs"
  "crc6_reg c (xs @ ys) = crc6_reg (crc6_reg c xs) ys"
  by (simp_all add: crc6_reg_def)

lemma crc6_loop:
  "n \<le> length d \<Longrightarrow>
     for_loop n (\<lambda>i crc. do { b \<leftarrow> arr_get d i; Some (crc6_byte crc b) }) c
       = Some (crc6_reg c (take n d))"
  by (induction n) (simp_all add: take_Suc_conv_app_nth)

lemma iolink_crc6_eq:
  "unat len \<le> length d \<Longrightarrow> iolink_crc6 (Ref d) len = Some (crc6 (take (unat len) d))"
  by (simp add: iolink_crc6_def iolink_buf_is_valid_def crc6_loop crc6_def crc6_out_def)

lemma iolink_checksum_ck_eq: "iolink_checksum_ck mc ckt = Some (crc6 [mc, ckt])"
  by (simp add: iolink_checksum_ck_def iolink_crc6_eq)

section \<open>Reference: long division over GF(2)\<close>

fun xor_prefix :: "bool list \<Rightarrow> bool list \<Rightarrow> bool list" where
  "xor_prefix [] ys = ys"
| "xor_prefix xs [] = []"
| "xor_prefix (x # xs) (y # ys) = (x \<noteq> y) # xor_prefix xs ys"

text \<open>The generator without its leading coefficient, most significant coefficient first.\<close>

definition gen6 :: "bool list" where
  "gen6 = [False, True, True, True, False, True]"

lemma length_xor_prefix [simp]: "length (xor_prefix xs ys) = length ys"
  by (induction xs ys rule: xor_prefix.induct) simp_all

text \<open>
  Schoolbook division of a dividend (most significant coefficient first) by the generator: while
  more than six coefficients are left, drop the leading one and, if it was 1, subtract the rest of
  the generator below it.
\<close>

function gf2_rem :: "bool list \<Rightarrow> bool list" where
  "gf2_rem bs =
     (if length bs \<le> 6 then bs
      else gf2_rem (if hd bs then xor_prefix gen6 (tl bs) else tl bs))"
  by pat_completeness auto
termination
  by (relation "measure length") auto

declare gf2_rem.simps [simp del]

definition bits8 :: "u8 \<Rightarrow> bool list" where
  "bits8 w = map (bit w) [7, 6, 5, 4, 3, 2, 1, 0]"

definition bits6 :: "u8 \<Rightarrow> bool list" where
  "bits6 w = map (bit w) [5, 4, 3, 2, 1, 0]"

text \<open>
  The dividend of a message: the seed \<open>0x15\<close> is added to the first byte, and six zero
  coefficients make room for the remainder.
\<close>

definition crc6_dividend :: "bytes \<Rightarrow> bool list" where
  "crc6_dividend data =
     xor_prefix (bits8 0x15) (concat (map bits8 data) @ replicate 6 False)"

definition crc6_spec :: "bytes \<Rightarrow> bool list" where
  "crc6_spec data = gf2_rem (crc6_dividend data)"

section \<open>The code computes the reference\<close>

lemma xor_prefix_Cons:
  "ys \<noteq> [] \<Longrightarrow> xor_prefix (x # xs) ys = (x \<noteq> hd ys) # xor_prefix xs (tl ys)"
  by (cases ys) simp_all

lemma xor_prefix_xor_prefix:
  "length xs \<le> length ys \<Longrightarrow>
     xor_prefix xs (xor_prefix ys zs) = xor_prefix (xor_prefix xs ys) zs"
proof (induction xs ys arbitrary: zs rule: xor_prefix.induct)
  case (3 x xs y ys)
  then show ?case by (cases zs) auto
qed simp_all

lemma xor_prefix_append_False: "xor_prefix (xs @ [False]) ys = xor_prefix xs ys"
proof (induction xs arbitrary: ys)
  case Nil
  then show ?case by (cases ys) simp_all
next
  case (Cons x xs)
  then show ?case by (cases ys) simp_all
qed

lemma xor_prefix_replicate_False [simp]: "xor_prefix (replicate n False) ys = ys"
proof (induction n arbitrary: ys)
  case (Suc n)
  then show ?case by (cases ys) simp_all
qed simp

lemma bits8_0 [simp]: "bits8 0 = replicate 8 False"
  by (simp add: bits8_def numeral_eq_Suc)

lemma bits8_xor: "bits8 (a XOR b) = xor_prefix (bits8 a) (bits8 b)"
  by (auto simp: bits8_def bit_xor_iff)

lemma bits8_shift:
  "bits8 (crc6_shift c) =
     (if bit c 7 then xor_prefix gen6 (tl (bits8 c)) else tl (bits8 c)) @ [False]"
  unfolding crc6_shift_def and_0x80_iff
  by (auto simp: bits8_def gen6_def bit_simps mult.commute [of _ "2 :: u8"] bit_double_iff)

text \<open>One division step of the reference is one iteration of the inner loop.\<close>

lemma gf2_rem_shift:
  assumes "6 \<le> length ys"
  shows "gf2_rem (xor_prefix (bits8 c) (False # ys)) = gf2_rem (xor_prefix (bits8 (crc6_shift c)) ys)"
proof -
  have *: "bits8 c = bit c 7 # tl (bits8 c)" by (simp add: bits8_def)
  have "length gen6 \<le> length (tl (bits8 c))" by (simp add: gen6_def bits8_def)
  then show ?thesis
    using assms
    by (subst *, subst gf2_rem.simps)
       (simp add: bits8_shift xor_prefix_append_False xor_prefix_xor_prefix)
qed

lemma gf2_rem_shifts:
  "6 \<le> length ys \<Longrightarrow>
     gf2_rem (xor_prefix (bits8 c) (replicate n False @ ys))
       = gf2_rem (xor_prefix (bits8 ((crc6_shift ^^ n) c)) ys)"
proof (induction n arbitrary: c)
  case (Suc n)
  then show ?case
    by (simp add: gf2_rem_shift funpow_swap1)
qed simp

lemma xor_prefix_absorb:
  "xor_prefix xs (bs @ ys) = xor_prefix (xor_prefix xs bs) (replicate (length bs) False @ ys)"
  if "length xs = length bs"
  using that
proof (induction xs bs rule: list_induct2)
  case Nil
  then show ?case by simp
next
  case (Cons x xs b bs)
  then show ?case by simp
qed

lemma gf2_rem_byte:
  assumes "6 \<le> length ys"
  shows "gf2_rem (xor_prefix (bits8 c) (bits8 b @ ys)) = gf2_rem (xor_prefix (bits8 (crc6_byte c b)) ys)"
proof -
  have len: "length (bits8 c) = length (bits8 b)" "length (bits8 b) = 8"
    by (simp_all add: bits8_def)
  have "xor_prefix (bits8 c) (bits8 b @ ys) = xor_prefix (bits8 (c XOR b)) (replicate 8 False @ ys)"
    by (simp only: xor_prefix_absorb [OF len(1)] bits8_xor len(2))
  then show ?thesis
    by (simp only: gf2_rem_shifts [OF assms] crc6_byte_def)
qed

lemma bits6_out: "xor_prefix (bits8 c) (replicate 6 False) = bits6 (crc6_out c)"
proof -
  have "replicate 6 False = [False, False, False, False, False, False]"
    by (simp add: numeral_eq_Suc)
  then show ?thesis
    by (simp add: bits8_def bits6_def crc6_out_def bit_simps)
qed

lemma gf2_rem_reg:
  "gf2_rem (xor_prefix (bits8 c) (concat (map bits8 data) @ replicate 6 False))
     = bits6 (crc6_out (crc6_reg c data))"
proof (induction data arbitrary: c)
  case Nil
  have "gf2_rem (bits6 w) = bits6 w" for w
    by (subst gf2_rem.simps) (simp add: bits6_def)
  then show ?case by (simp add: bits6_out)
next
  case (Cons b data)
  then show ?case by (simp add: gf2_rem_byte)
qed

lemma crc6_correct: "bits6 (crc6 data) = crc6_spec data"
  by (simp add: crc6_def crc6_spec_def crc6_dividend_def gf2_rem_reg)

section \<open>Linearity and error detection\<close>

lemma crc6_shift_0 [simp]: "crc6_shift 0 = 0"
  by (simp add: crc6_shift_def)

lemma crc6_shift_xor: "crc6_shift (a XOR b) = crc6_shift a XOR crc6_shift b"
proof -
  have "bit (a XOR b) 7 \<longleftrightarrow> bit a 7 \<noteq> bit b 7" by (simp add: bit_xor_iff)
  then show ?thesis
    by (auto simp: crc6_shift_def and_0x80_iff push_bit_xor ac_simps
        intro!: bit_word_eqI simp: bit_xor_iff)
qed

lemma crc6_shifts_xor: "(crc6_shift ^^ n) (a XOR b) = (crc6_shift ^^ n) a XOR (crc6_shift ^^ n) b"
  by (induction n) (simp_all add: crc6_shift_xor)

lemma crc6_byte_xor: "crc6_byte (a XOR b) (x XOR y) = crc6_byte a x XOR crc6_byte b y"
proof -
  have "(a XOR b) XOR (x XOR y) = (a XOR x) XOR (b XOR y)" by (simp add: ac_simps)
  then show ?thesis by (simp add: crc6_byte_def crc6_shifts_xor)
qed

text \<open>The register after a message plus an error pattern is the sum of the two registers.\<close>

lemma crc6_reg_xor:
  "length xs = length ys \<Longrightarrow>
     crc6_reg (a XOR b) (map2 (XOR) xs ys) = crc6_reg a xs XOR crc6_reg b ys"
  by (induction xs ys arbitrary: a b rule: list_induct2) (simp_all add: crc6_byte_xor)

lemma crc6_reg_0_replicate [simp]: "crc6_reg 0 (replicate n 0) = 0"
proof -
  have "(crc6_shift ^^ m) 0 = 0" for m by (induction m) simp_all
  then show ?thesis by (induction n) (simp_all add: crc6_byte_def)
qed

text \<open>
  The error patterns of one byte the checksum cannot see: the multiples of the generator that
  fit in eight bits.
\<close>

definition crc6_blind :: "u8 set" where
  "crc6_blind = {0, 0x5D, 0xBA, 0xE7}"

lemma bits8_inject: "bits8 a = bits8 b \<longleftrightarrow> a = b"
proof
  assume "bits8 a = bits8 b"
  then have "bit a n = bit b n" if "n < 8" for n
    using that by (auto simp: bits8_def less_Suc_eq numeral_eq_Suc)
  then show "a = b" by (intro bit_word_eqI) simp
qed simp

lemma crc6_shift_eq_0: "crc6_shift e = 0 \<longleftrightarrow> e = 0 \<or> e = 0xBA"
  unfolding bits8_inject [symmetric] bits8_shift
  by (auto simp: bits8_def gen6_def numeral_eq_Suc)

lemma crc6_shift_eq_BA: "crc6_shift e = 0xBA \<longleftrightarrow> e = 0x5D \<or> e = 0xE7"
  unfolding bits8_inject [symmetric] bits8_shift
  by (auto simp: bits8_def gen6_def)

text \<open>Registers with the two low bits clear: the left-aligned six-bit remainders.\<close>

definition aligned6 :: "u8 \<Rightarrow> bool" where
  "aligned6 c \<longleftrightarrow> \<not> bit c 0 \<and> \<not> bit c 1"

lemma bit_crc6_shift_low: "\<not> bit (crc6_shift c) 0" "bit (crc6_shift c) 1 = bit c 0"
proof -
  have nth: "bits8 c ! 7 = bit c 0" "bits8 c ! 6 = bit c 1" for c
    by (simp_all add: bits8_def numeral_eq_Suc)
  show "\<not> bit (crc6_shift c) 0" "bit (crc6_shift c) 1 = bit c 0"
    unfolding nth [symmetric] bits8_shift
    by (simp_all add: bits8_def gen6_def numeral_eq_Suc)
qed

lemma aligned6_shift2: "aligned6 (crc6_shift (crc6_shift e))"
  unfolding aligned6_def bit_crc6_shift_low(2) by (simp add: bit_crc6_shift_low)

lemma aligned6_shift: "aligned6 c \<Longrightarrow> c \<noteq> 0 \<Longrightarrow> aligned6 (crc6_shift c) \<and> crc6_shift c \<noteq> 0"
  using bit_crc6_shift_low [of c] by (auto simp: aligned6_def crc6_shift_eq_0)

lemma aligned6_shifts:
  "aligned6 c \<Longrightarrow> c \<noteq> 0 \<Longrightarrow> aligned6 ((crc6_shift ^^ n) c) \<and> (crc6_shift ^^ n) c \<noteq> 0"
  by (induction n) (simp_all add: aligned6_shift)

lemma crc6_byte_error:
  assumes "e \<notin> crc6_blind"
  shows "aligned6 (crc6_byte 0 e) \<and> crc6_byte 0 e \<noteq> 0"
proof -
  from assms have "crc6_shift (crc6_shift e) \<noteq> 0"
    by (auto simp: crc6_shift_eq_0 crc6_shift_eq_BA crc6_blind_def)
  moreover have "(8 :: nat) = 6 + 2" by simp
  ultimately show ?thesis
    unfolding crc6_byte_def
    by (simp only: funpow_add) (simp add: aligned6_shifts aligned6_shift2 numeral_2_eq_2)
qed

lemma crc6_byte_blind:
  assumes "e \<in> crc6_blind" shows "crc6_byte 0 e = 0"
proof -
  have "crc6_shift (crc6_shift e) = 0"
    using assms by (auto simp: crc6_shift_eq_0 crc6_shift_eq_BA crc6_blind_def)
  moreover have "(crc6_shift ^^ m) 0 = 0" for m by (induction m) simp_all
  moreover have "(8 :: nat) = 6 + 2" by simp
  ultimately show ?thesis
    unfolding crc6_byte_def by (simp only: funpow_add) (simp add: numeral_2_eq_2)
qed

lemma crc6_reg_aligned_zeros:
  "aligned6 c \<Longrightarrow> c \<noteq> 0 \<Longrightarrow>
     aligned6 (crc6_reg c (replicate n 0)) \<and> crc6_reg c (replicate n 0) \<noteq> 0"
  by (induction n arbitrary: c) (simp_all add: crc6_byte_def aligned6_shifts)

lemma crc6_out_xor: "crc6_out (a XOR b) = crc6_out a XOR crc6_out b"
  by (auto intro!: bit_word_eqI simp: crc6_out_def bit_simps)

lemma crc6_out_0 [simp]: "crc6_out 0 = 0"
  by (simp add: crc6_out_def)

lemma bits6_0_iff: "crc6_out c = 0 \<longleftrightarrow> bits6 (crc6_out c) = replicate 6 False"
proof
  assume *: "bits6 (crc6_out c) = replicate 6 False"
  have "\<not> bit (crc6_out c) n" if "n < 8" for n
    using * that by (auto simp: bits6_def crc6_out_def bit_simps numeral_eq_Suc less_Suc_eq)
  then show "crc6_out c = 0" by (intro bit_word_eqI) simp
qed (simp add: bits6_def numeral_eq_Suc)

lemma crc6_out_nonzero: "aligned6 c \<Longrightarrow> crc6_out c = 0 \<Longrightarrow> c = 0"
  unfolding bits6_0_iff bits6_out [symmetric] bits8_inject [of c 0, symmetric]
  by (simp add: bits8_def aligned6_def numeral_eq_Suc)

lemma xor_eq_self_iff: "a XOR b = a \<longleftrightarrow> b = (0 :: u8)"
proof
  assume "a XOR b = a"
  then have "a XOR (a XOR b) = 0" by simp
  then show "b = 0" by (simp flip: xor.assoc)
qed simp

text \<open>What a corruption does to the checksum depends on the error pattern alone.\<close>

lemma crc6_error:
  assumes "length es = length xs"
  shows "crc6 (map2 (XOR) xs es) = crc6 xs XOR crc6_out (crc6_reg 0 es)"
  using crc6_reg_xor [of xs es "0x15" 0] assms by (simp add: crc6_def crc6_out_xor)

lemma map2_xor_single:
  "i < length xs \<Longrightarrow>
     map2 (XOR) xs (replicate i 0 @ e # replicate (length xs - Suc i) (0 :: u8))
       = xs[i := xs ! i XOR e]"
  by (rule nth_equalityI) (auto simp: nth_append nth_list_update nth_Cons')

lemma crc6_one_byte:
  assumes "i < length xs"
  shows "crc6 (xs[i := xs ! i XOR e]) = crc6 xs \<longleftrightarrow> e \<in> crc6_blind"
proof -
  let ?es = "replicate i 0 @ e # replicate (length xs - Suc i) 0"
  have "crc6 (xs[i := xs ! i XOR e]) = crc6 xs XOR crc6_out (crc6_reg 0 ?es)"
    using crc6_error [of ?es xs] assms by (simp add: map2_xor_single)
  moreover have "crc6_out (crc6_reg 0 ?es) = 0 \<longleftrightarrow> e \<in> crc6_blind"
  proof (cases "e \<in> crc6_blind")
    case True
    then show ?thesis by (simp add: crc6_byte_blind)
  next
    case False
    then show ?thesis
      using crc6_byte_error crc6_reg_aligned_zeros crc6_out_nonzero by fastforce
  qed
  ultimately show ?thesis by (simp add: xor_eq_self_iff)
qed

text \<open>
  In general a corruption goes unseen exactly when the error polynomial is a multiple of the
  generator.
\<close>

lemma crc6_undetected_iff:
  assumes "length es = length xs"
  shows "crc6 (map2 (XOR) xs es) = crc6 xs \<longleftrightarrow>
           gf2_rem (concat (map bits8 es) @ replicate 6 False) = replicate 6 False"
  using gf2_rem_reg [of 0 es]
  by (simp add: crc6_error [OF assms] xor_eq_self_iff bits6_0_iff)

section \<open>Correctness of the checksum\<close>

text \<open>
  C26: The checksum is the CRC it claims to be.  For every block and length the routine returns
  the remainder of the seeded message polynomial, shifted by six, modulo the generator
  \<open>x^6 + x^4 + x^3 + x^2 + 1\<close>, computed by plain long division; the result has six bits.
\<close>

theorem crc6_is_remainder:
  assumes "unat len \<le> length d"
  shows "\<exists>r. iolink_crc6 (Ref d) len = Some r \<and> bits6 r = crc6_spec (take (unat len) d) \<and> unat r < 64"
proof (intro exI conjI)
  show "iolink_crc6 (Ref d) len = Some (crc6 (take (unat len) d))"
    by (rule iolink_crc6_eq [OF assms])
  have "unat (drop_bit 2 c AND 0x3F :: u8) < 64" for c :: u8
    using word_and_le1 [of "drop_bit 2 c" "0x3F"] by (simp add: word_le_nat_alt)
  then show "unat (crc6 (take (unat len) d)) < 64" by (simp add: crc6_def crc6_out_def)
qed (rule crc6_correct)

lemma crc6_is_remainder_witness:
  "\<exists>r. iolink_crc6 (Ref [0xA2, 0x00, 0x17]) 3 = Some r \<and> bits6 r = crc6_spec [0xA2, 0x00, 0x17] \<and> unat r < 64"
  using crc6_is_remainder [of 3 "[0xA2, 0x00, 0x17]"] by simp

text \<open>
  C27: Error detection.  A change of one byte goes unnoticed exactly when the pattern is one of the
  three multiples of the generator that fit in a byte; in particular every error of up to four
  bits, and every burst of up to six bits, is detected if it stays within one byte.
\<close>

theorem crc6_detects_byte_errors:
  assumes "i < length d" and "length d \<le> 255"
  shows "iolink_crc6 (Ref (d[i := d ! i XOR e])) (word_of_nat (length d)) = iolink_crc6 (Ref d) (word_of_nat (length d))
    \<longleftrightarrow> e = 0 \<or> e = 0x5D \<or> e = 0xBA \<or> e = 0xE7"
  using assms crc6_one_byte [OF assms(1), of e] by (simp add: iolink_crc6_eq crc6_blind_def)

lemma crc6_detects_byte_errors_witness:
  "iolink_crc6 (Ref ([1, 2, 3][1 := 2 XOR 4])) 3 \<noteq> iolink_crc6 (Ref [1, 2, 3]) 3"
  using crc6_detects_byte_errors [of 1 "[1, 2, 3]" 4] by simp

end
