(* ===== verification/Platform.thy ===== *)
theory Platform
  imports Iol_Prelude
begin

text \<open>
  \<^verbatim>\<open>include/iolinki/platform.h\<close>, \<^verbatim>\<open>include/iolinki/time_utils.h\<close> and the platform sources under
  \<^verbatim>\<open>src/platform/\<close>, \<^verbatim>\<open>src/platform.c\<close>, \<^verbatim>\<open>src/platform_stubs.c\<close>.  The stack reaches the clock
  and the non-volatile memory through four link-time functions; they are the record \<open>platform\<close>
  over a state \<open>'w\<close> of everything outside the stack, and each port of the repository is a value of
  it.  The critical sections (\<^verbatim>\<open>iolink_critical_enter/exit\<close>) are in \<open>Interleaving\<close> and
  \<open>Critical_Sections\<close>.
  The file operations of the Linux port are those of C stdio: a stream opened in append mode
  writes at the end of the file whatever \<^verbatim>\<open>fseek\<close> has set.
\<close>

section \<open>The platform interface\<close>

text \<open>
  \<open>nvm_read off buf w\<close> gets the current contents of the destination buffer and gives the return
  code, the buffer afterwards and the new state.
\<close>

record 'w platform =
  time_get_ms :: "'w \<Rightarrow> u32 \<times> 'w"
  time_get_us :: "'w \<Rightarrow> u64 \<times> 'w"
  nvm_read :: "u32 \<Rightarrow> bytes \<Rightarrow> 'w \<Rightarrow> int \<times> bytes \<times> 'w"
  nvm_write :: "u32 \<Rightarrow> bytes \<Rightarrow> 'w \<Rightarrow> int \<times> 'w"

definition iolink_us_from_ms :: "u32 \<Rightarrow> u64" where
  "iolink_us_from_ms ms = ucast ms * 1000"

section \<open>Weak defaults: no non-volatile memory\<close>

definition weak_nvm_read :: "u32 \<Rightarrow> bytes \<Rightarrow> 'w \<Rightarrow> int \<times> bytes \<times> 'w" where
  "weak_nvm_read offset data w = (-1, data, w)"

definition weak_nvm_write :: "u32 \<Rightarrow> bytes \<Rightarrow> 'w \<Rightarrow> int \<times> 'w" where
  "weak_nvm_write offset data w = (-1, w)"

text \<open>
  \<^verbatim>\<open>platform_stubs.c\<close> defines the same two functions again; they return what two global variables
  hold, and with their initial values they are the weak defaults.
\<close>

record nvm_stubs =
  g_iolink_nvm_stub_read_ret :: int
  g_iolink_nvm_stub_write_ret :: int

definition nvm_stubs_init :: nvm_stubs where
  "nvm_stubs_init = \<lparr>g_iolink_nvm_stub_read_ret = -1, g_iolink_nvm_stub_write_ret = -1\<rparr>"

definition stub_nvm_read :: "nvm_stubs \<Rightarrow> u32 \<Rightarrow> bytes \<Rightarrow> 'w \<Rightarrow> int \<times> bytes \<times> 'w" where
  "stub_nvm_read g offset data w = (g_iolink_nvm_stub_read_ret g, data, w)"

definition stub_nvm_write :: "nvm_stubs \<Rightarrow> u32 \<Rightarrow> bytes \<Rightarrow> 'w \<Rightarrow> int \<times> 'w" where
  "stub_nvm_write g offset data w = (g_iolink_nvm_stub_write_ret g, w)"

lemma stub_nvm_weak:
  "stub_nvm_read nvm_stubs_init = weak_nvm_read" "stub_nvm_write nvm_stubs_init = weak_nvm_write"
  by (simp_all add: fun_eq_iff nvm_stubs_init_def stub_nvm_read_def stub_nvm_write_def weak_nvm_read_def weak_nvm_write_def)

section \<open>Bare metal and Zephyr\<close>

record baremetal_world =
  bm_ticks_ms :: u32

definition baremetal_time_get_ms :: "('a baremetal_world_scheme) \<Rightarrow> u32 \<times> ('a baremetal_world_scheme)" where
  "baremetal_time_get_ms w = (bm_ticks_ms w, w)"

definition baremetal_time_get_us :: "('a baremetal_world_scheme) \<Rightarrow> u64 \<times> ('a baremetal_world_scheme)" where
  "baremetal_time_get_us w = (iolink_us_from_ms (bm_ticks_ms w), w)"

definition baremetal_platform :: "('a baremetal_world_scheme) platform" where
  "baremetal_platform =
     \<lparr>time_get_ms = baremetal_time_get_ms, time_get_us = baremetal_time_get_us,
      nvm_read = weak_nvm_read, nvm_write = weak_nvm_write\<rparr>"

text \<open>\<open>uptime\<close> is Zephyr's \<^verbatim>\<open>k_uptime_get\<close>, a 64-bit millisecond count.\<close>

definition zephyr_time_get_ms :: "('w \<Rightarrow> u64 \<times> 'w) \<Rightarrow> 'w \<Rightarrow> u32 \<times> 'w" where
  "zephyr_time_get_ms uptime w = map_prod ucast id (uptime w)"

definition zephyr_time_get_us :: "('w \<Rightarrow> u64 \<times> 'w) \<Rightarrow> 'w \<Rightarrow> u64 \<times> 'w" where
  "zephyr_time_get_us uptime w = map_prod (\<lambda>ms. iolink_us_from_ms (ucast ms)) id (uptime w)"

section \<open>Linux host\<close>

text \<open>
  How the C library's file calls go: whether \<^verbatim>\<open>fopen\<close> succeeds for reading an existing file and for
  appending, whether \<^verbatim>\<open>fseek\<close> does, and after how many bytes \<^verbatim>\<open>fread\<close> and \<^verbatim>\<open>fwrite\<close> stop short, if
  they do.
\<close>

record stdio =
  io_fopen_rb :: bool
  io_fopen_ab :: bool
  io_fseek :: bool
  io_fread :: "nat option"
  io_fwrite :: "nat option"

definition stdio_ok :: stdio where
  "stdio_ok = \<lparr>io_fopen_rb = True, io_fopen_ab = True, io_fseek = True, io_fread = None, io_fwrite = None\<rparr>"

definition io_count :: "nat option \<Rightarrow> nat \<Rightarrow> nat" where
  "io_count limit n = (case limit of None \<Rightarrow> n | Some m \<Rightarrow> min m n)"

lemma io_count_le [simp]: "io_count limit n \<le> n"
  by (simp add: io_count_def split: option.split)

lemma stdio_ok_simps [simp]:
  "io_fopen_rb stdio_ok" "io_fopen_ab stdio_ok" "io_fseek stdio_ok" "io_fread stdio_ok = None" "io_fwrite stdio_ok = None"
  "io_count None n = n"
  by (simp_all add: stdio_ok_def io_count_def)

text \<open>
  The state the host port uses: the file \<^verbatim>\<open>iolink_nvm.bin\<close> (absent or its bytes), the outcome of
  the file calls, and the readings \<^verbatim>\<open>(result, tv_sec, tv_nsec)\<close> the next calls
  of \<^verbatim>\<open>clock_gettime(CLOCK_MONOTONIC)\<close> give; after the last one it keeps giving that one.
\<close>

record linux_world =
  lw_nvm_file :: "bytes option"
  lw_stdio :: stdio
  lw_clock :: "(int \<times> nat \<times> nat) list"

definition clock_gettime ::
  "('a linux_world_scheme) \<Rightarrow> (int \<times> nat \<times> nat) \<times> ('a linux_world_scheme)" where
  "clock_gettime w =
     (case lw_clock w of [] \<Rightarrow> ((-1, 0, 0), w)
      | [t] \<Rightarrow> (t, w)
      | t # ts \<Rightarrow> (t, w\<lparr>lw_clock := ts\<rparr>))"

definition linux_time_get_ms :: "('a linux_world_scheme) \<Rightarrow> u32 \<times> ('a linux_world_scheme)" where
  "linux_time_get_ms w =
     (case clock_gettime w of ((r, sec, nsec), w') \<Rightarrow>
        if r \<noteq> 0 then (0, w')
        else (ucast (word_of_nat sec * 1000 + word_of_nat nsec div 1000000 :: u64), w'))"

definition linux_time_get_us :: "('a linux_world_scheme) \<Rightarrow> u64 \<times> ('a linux_world_scheme)" where
  "linux_time_get_us w =
     (case clock_gettime w of ((r, sec, nsec), w') \<Rightarrow>
        if r \<noteq> 0 then (0, w')
        else (word_of_nat sec * 1000000 + word_of_nat nsec div 1000, w'))"

definition linux_nvm_read ::
  "u32 \<Rightarrow> bytes ptr \<Rightarrow> nat \<Rightarrow> ('a linux_world_scheme) \<Rightarrow> int \<times> bytes ptr \<times> ('a linux_world_scheme)" where
  "linux_nvm_read offset data len w =
     (if \<not> iolink_buf_is_valid data len then (-1, data, w)
      else case (if io_fopen_rb (lw_stdio w) then lw_nvm_file w else None) of
        None \<Rightarrow> (-1, data, w)
      | Some f \<Rightarrow>
          if \<not> io_fseek (lw_stdio w) then (-1, data, w)
          else
          (let got = take (io_count (io_fread (lw_stdio w)) len) (drop (unat offset) f);
               data' = (case data of NULL \<Rightarrow> NULL | Ref d \<Rightarrow> Ref (got @ drop (length got) d))
           in (if length got = len then 0 else -1, data', w)))"

definition linux_nvm_write ::
  "u32 \<Rightarrow> bytes ptr \<Rightarrow> nat \<Rightarrow> ('a linux_world_scheme) \<Rightarrow> int \<times> ('a linux_world_scheme)" where
  "linux_nvm_write offset data len w =
     (if \<not> iolink_buf_is_valid data len then (-1, w)
      else if \<not> io_fopen_ab (lw_stdio w) then (-1, w)
      else (let f = (case lw_nvm_file w of None \<Rightarrow> [] | Some f \<Rightarrow> f) in
            if \<not> io_fseek (lw_stdio w) then (-1, w\<lparr>lw_nvm_file := Some f\<rparr>)
            else (let d = (case data of NULL \<Rightarrow> [] | Ref d \<Rightarrow> take (io_count (io_fwrite (lw_stdio w)) len) d)
                  in (if length d = len then 0 else -1, w\<lparr>lw_nvm_file := Some (f @ d)\<rparr>))))"

definition linux_platform :: "('a linux_world_scheme) platform" where
  "linux_platform =
     \<lparr>time_get_ms = linux_time_get_ms, time_get_us = linux_time_get_us,
      nvm_read = (\<lambda>off buf w. case linux_nvm_read off (Ref buf) (length buf) w of
                    (r, p, w') \<Rightarrow> (r, deref p, w')),
      nvm_write = (\<lambda>off d w. linux_nvm_write off (Ref d) (length d) w)\<rparr>"

section \<open>What a non-volatile memory promises\<close>

text \<open>
  \<open>blank w\<close>: the memory has not been written since it was erased.  The law is the one the
  parameter manager relies on to find its record again after a restart.
\<close>

locale nvm_store =
  fixes plat :: "'w platform"
    and blank :: "'w \<Rightarrow> bool"
  assumes read_length: "nvm_read plat off buf w = (r, buf', w') \<Longrightarrow> length buf' = length buf"
    and blank_read: "blank w \<Longrightarrow> nvm_read plat 0 buf w = (r, buf', w') \<Longrightarrow> buf \<noteq> [] \<Longrightarrow> r \<noteq> 0"
    and read_written: "blank w \<Longrightarrow> nvm_write plat 0 d w = (0, w') \<Longrightarrow> length buf = length d \<Longrightarrow>
      \<exists>w''. nvm_read plat 0 buf w' = (0, d, w'')"

definition linux_nvm_blank :: "('a linux_world_scheme) \<Rightarrow> bool" where
  "linux_nvm_blank w \<longleftrightarrow> lw_stdio w = stdio_ok \<and> (lw_nvm_file w = None \<or> lw_nvm_file w = Some [])"

interpretation linux_nvm: nvm_store linux_platform linux_nvm_blank
  by unfold_locales
     (auto simp: linux_platform_def linux_nvm_read_def linux_nvm_write_def linux_nvm_blank_def
        iolink_buf_is_valid_def Let_def min.coboundedI2 split: option.splits if_splits prod.splits)

interpretation weak_nvm: nvm_store baremetal_platform "\<lambda>_. True"
  by unfold_locales (simp_all add: baremetal_platform_def weak_nvm_read_def weak_nvm_write_def)

section \<open>Correctness of the clocks\<close>

text \<open>
  The two clocks of a port agree.  On bare metal the microsecond clock is the millisecond tick
  times 1000, with no overflow.  On Linux, as long as the monotonic time fits 64 bits of microseconds, it is the
  clock reading in microseconds and the millisecond clock is the same reading in milliseconds,
  modulo \<open>2^32\<close>.
\<close>

theorem clocks_agree:
  assumes "clock_gettime w = ((0, sec, nsec), w')" and "nsec < 10 ^ 9" and "sec < 2 ^ 43"
  shows "unat (fst (linux_time_get_us w)) = sec * 10 ^ 6 + nsec div 1000 \<and>
     unat (fst (linux_time_get_ms w)) = (sec * 1000 + nsec div 10 ^ 6) mod 2 ^ 32 \<and>
     unat (fst (baremetal_time_get_us b)) = 1000 * unat (fst (baremetal_time_get_ms b))"
proof (intro conjI)
  have n: "unat (word_of_nat nsec :: u64) = nsec" "unat (word_of_nat sec :: u64) = sec"
    using assms(2,3) by (simp_all add: unat_of_nat)
  have d: "nsec div 1000 < 10 ^ 6" "nsec div 10 ^ 6 < 1000" using assms(2) by auto
  have us: "unat (word_of_nat sec * 1000000 + word_of_nat nsec div 1000 :: u64) = sec * 10 ^ 6 + nsec div 1000"
    using assms(3) d n by (simp add: unat_word_ariths unat_div_distrib unat_div)
  then show "unat (fst (linux_time_get_us w)) = sec * 10 ^ 6 + nsec div 1000"
    by (simp add: linux_time_get_us_def assms(1))
  have ms: "unat (word_of_nat sec * 1000 + word_of_nat nsec div 1000000 :: u64) = sec * 1000 + nsec div 10 ^ 6"
    using assms(3) d n by (simp add: unat_word_ariths unat_div)
  then show "unat (fst (linux_time_get_ms w)) = (sec * 1000 + nsec div 10 ^ 6) mod 2 ^ 32"
    by (simp add: linux_time_get_ms_def assms(1) unsigned_ucast_eq take_bit_eq_mod)
  show "unat (fst (baremetal_time_get_us b)) = 1000 * unat (fst (baremetal_time_get_ms b))"
    using unsigned_less [of "bm_ticks_ms b", where 'a = nat]
    by (simp add: baremetal_time_get_us_def baremetal_time_get_ms_def iolink_us_from_ms_def unat_word_ariths
        unsigned_ucast_eq take_bit_eq_mod)
qed

lemma clocks_agree_witness:
  "unat (fst (linux_time_get_us \<lparr>lw_nvm_file = None, lw_stdio = stdio_ok, lw_clock = [(0, 5000000, 1500000)]\<rparr>)) = 5000000001500 \<and>
   unat (fst (linux_time_get_ms \<lparr>lw_nvm_file = None, lw_stdio = stdio_ok, lw_clock = [(0, 5000000, 1500000)]\<rparr>)) = 705032705"
  using clocks_agree [of "\<lparr>lw_nvm_file = None, lw_stdio = stdio_ok, lw_clock = [(0, 5000000, 1500000)]\<rparr>" 5000000 1500000
      "\<lparr>lw_nvm_file = None, lw_stdio = stdio_ok, lw_clock = [(0, 5000000, 1500000)]\<rparr>" "\<lparr>bm_ticks_ms = 0\<rparr>"]
  by (simp add: clock_gettime_def)

end
