(* ===== verification/Phy.thy ===== *)
theory Phy
  imports Platform
begin

text \<open>
  \<^verbatim>\<open>include/iolinki/phy.h\<close> with the two drivers of the repository, \<^verbatim>\<open>src/phy_generic.c\<close> (the
  porting template) and \<^verbatim>\<open>src/phy_virtual.c\<close> (a serial line on the host).  The API structure is a
  record of possibly-NULL functions over the outside state \<open>'w\<close>; a function returning through an
  out-parameter gets the variable's value and gives its new one.  The locale \<open>link_env\<close> is what
  the data link layer needs from a PHY and a platform to be able to empty the receive queue.
\<close>

section \<open>The API\<close>

datatype iolink_phy_mode = IOLINK_PHY_MODE_INACTIVE | IOLINK_PHY_MODE_SIO | IOLINK_PHY_MODE_SDCI

datatype iolink_baudrate = IOLINK_BAUDRATE_COM1 | IOLINK_BAUDRATE_COM2 | IOLINK_BAUDRATE_COM3

text \<open>Baudrates are ordered by speed.\<close>

fun baud_kbit :: "iolink_baudrate \<Rightarrow> nat" where
  "baud_kbit IOLINK_BAUDRATE_COM1 = 4"
| "baud_kbit IOLINK_BAUDRATE_COM2 = 38"
| "baud_kbit IOLINK_BAUDRATE_COM3 = 230"

instantiation iolink_baudrate :: linorder
begin

definition less_eq_iolink_baudrate :: "iolink_baudrate \<Rightarrow> iolink_baudrate \<Rightarrow> bool" where
  "less_eq_iolink_baudrate a b \<longleftrightarrow> baud_kbit a \<le> baud_kbit b"

definition less_iolink_baudrate :: "iolink_baudrate \<Rightarrow> iolink_baudrate \<Rightarrow> bool" where
  "less_iolink_baudrate a b \<longleftrightarrow> baud_kbit a < baud_kbit b"

instance
proof
  fix a b :: iolink_baudrate
  show "a \<le> b \<Longrightarrow> b \<le> a \<Longrightarrow> a = b" by (cases a; cases b) (simp_all add: less_eq_iolink_baudrate_def)
qed (auto simp: less_eq_iolink_baudrate_def less_iolink_baudrate_def)

end

lemma COM1_least [simp]: "IOLINK_BAUDRATE_COM1 \<le> b"
  by (cases b) (simp_all add: less_eq_iolink_baudrate_def)

record 'w iolink_phy_api =
  phy_init :: "('w \<Rightarrow> int \<times> 'w) ptr"
  phy_set_mode :: "(iolink_phy_mode \<Rightarrow> 'w \<Rightarrow> 'w) ptr"
  phy_set_baudrate :: "(iolink_baudrate \<Rightarrow> 'w \<Rightarrow> 'w) ptr"
  phy_send :: "(bytes \<Rightarrow> 'w \<Rightarrow> int \<times> 'w) ptr"
  phy_recv_byte :: "(u8 \<Rightarrow> 'w \<Rightarrow> int \<times> u8 \<times> 'w) ptr"
  phy_detect_wakeup :: "('w \<Rightarrow> int \<times> 'w) ptr"
  phy_set_cq_line :: "(u8 \<Rightarrow> 'w \<Rightarrow> 'w) ptr"
  phy_get_voltage_mv :: "('w \<Rightarrow> int \<times> 'w) ptr"
  phy_is_short_circuit :: "('w \<Rightarrow> bool \<times> 'w) ptr"

section \<open>The generic template\<close>

definition generic_init :: "'w \<Rightarrow> int \<times> 'w" where
  "generic_init w = (-1, w)"

definition generic_set_mode :: "iolink_phy_mode \<Rightarrow> 'w \<Rightarrow> 'w" where
  "generic_set_mode mode w = w"

definition generic_set_baudrate :: "iolink_baudrate \<Rightarrow> 'w \<Rightarrow> 'w" where
  "generic_set_baudrate baudrate w = w"

definition generic_send :: "bytes \<Rightarrow> 'w \<Rightarrow> int \<times> 'w" where
  "generic_send data w = (-1, w)"

definition generic_recv_byte :: "u8 \<Rightarrow> 'w \<Rightarrow> int \<times> u8 \<times> 'w" where
  "generic_recv_byte byte w = (0, byte, w)"

definition generic_detect_wakeup :: "'w \<Rightarrow> int \<times> 'w" where
  "generic_detect_wakeup w = (0, w)"

definition generic_set_cq_line :: "u8 \<Rightarrow> 'w \<Rightarrow> 'w" where
  "generic_set_cq_line state w = w"

definition generic_get_voltage_mv :: "'w \<Rightarrow> int \<times> 'w" where
  "generic_get_voltage_mv w = (-1, w)"

definition generic_is_short_circuit :: "'w \<Rightarrow> bool \<times> 'w" where
  "generic_is_short_circuit w = (False, w)"

definition iolink_phy_generic_get :: "'w iolink_phy_api" where
  "iolink_phy_generic_get =
     \<lparr>phy_init = Ref generic_init, phy_set_mode = Ref generic_set_mode,
      phy_set_baudrate = Ref generic_set_baudrate, phy_send = Ref generic_send,
      phy_recv_byte = Ref generic_recv_byte, phy_detect_wakeup = Ref generic_detect_wakeup,
      phy_set_cq_line = Ref generic_set_cq_line, phy_get_voltage_mv = Ref generic_get_voltage_mv,
      phy_is_short_circuit = Ref generic_is_short_circuit\<rparr>"

section \<open>The virtual PHY\<close>

text \<open>
  Driver state (\<^verbatim>\<open>g_fd\<close>, \<^verbatim>\<open>g_port_path\<close>) and the operating system as the driver sees it: what
  \<^verbatim>\<open>open\<close>, \<^verbatim>\<open>isatty\<close>, \<^verbatim>\<open>tcgetattr\<close> and \<^verbatim>\<open>tcsetattr\<close> answer, what the next calls of \<^verbatim>\<open>write\<close>
  return (an error or how many bytes they take; after the last one every call takes all), the bytes
  the next calls of \<^verbatim>\<open>read\<close> deliver before one that delivers none, the bytes written to the line, and
  the console messages of the mode and baudrate setters.
\<close>

datatype phy_message = ModeSet iolink_phy_mode | BaudrateSet iolink_baudrate

record host_world = linux_world +
  vp_fd :: int
  vp_port_path :: "string ptr"
  os_open :: int
  os_isatty :: bool
  os_tcgetattr :: int
  os_tcsetattr :: int
  os_write :: "int list"
  line_in :: bytes
  line_out :: bytes
  console :: "phy_message list"

definition iolink_phy_virtual_set_port :: "string ptr \<Rightarrow> host_world \<Rightarrow> host_world" where
  "iolink_phy_virtual_set_port port w = w\<lparr>vp_port_path := port\<rparr>"

definition virtual_init :: "host_world \<Rightarrow> int \<times> host_world" where
  "virtual_init w =
     (if vp_port_path w = NULL then (-1, w)
      else let w = w\<lparr>vp_fd := os_open w\<rparr> in
        if vp_fd w < 0 then (-1, w)
        else if os_isatty w then
          (if os_tcgetattr w \<noteq> 0 then (-1, w)
           else if os_tcsetattr w \<noteq> 0 then (-1, w)
           else (0, w))
        else (0, w))"

definition virtual_set_mode :: "iolink_phy_mode \<Rightarrow> host_world \<Rightarrow> host_world" where
  "virtual_set_mode mode w = w\<lparr>console := console w @ [ModeSet mode]\<rparr>"

definition virtual_set_baudrate :: "iolink_baudrate \<Rightarrow> host_world \<Rightarrow> host_world" where
  "virtual_set_baudrate b w = w\<lparr>console := console w @ [BaudrateSet b]\<rparr>"

text \<open>\<^verbatim>\<open>write(g_fd, data, len)\<close>: all bytes, the first of them, or an error.\<close>

definition os_write_call :: "bytes \<Rightarrow> host_world \<Rightarrow> int \<times> host_world" where
  "os_write_call data w =
     (case os_write w of [] \<Rightarrow> (int (length data), w\<lparr>line_out := line_out w @ data\<rparr>)
      | r # rs \<Rightarrow>
          if r < 0 then (-1, w\<lparr>os_write := rs\<rparr>)
          else (let n = min (nat r) (length data) in (int n, w\<lparr>os_write := rs, line_out := line_out w @ take n data\<rparr>)))"

definition virtual_send :: "bytes \<Rightarrow> host_world \<Rightarrow> int \<times> host_world" where
  "virtual_send data w =
     (if vp_fd w < 0 then (-1, w)
      else if data = [] then (0, w)
      else os_write_call data w)"

text \<open>The device is open and takes all that is written.\<close>

definition link_up :: "host_world \<Rightarrow> bool" where
  "link_up w \<longleftrightarrow> 0 \<le> vp_fd w \<and> os_write w = []"

lemma link_up_simps [simp]:
  "link_up (w\<lparr>line_in := bs\<rparr>) = link_up w" "link_up (w\<lparr>line_out := bs\<rparr>) = link_up w" "link_up (w\<lparr>console := ms\<rparr>) = link_up w"
  "link_up (w\<lparr>lw_clock := ts\<rparr>) = link_up w" "link_up (w\<lparr>lw_nvm_file := f\<rparr>) = link_up w"
  by (simp_all add: link_up_def)

lemma virtual_send_up: "link_up w \<Longrightarrow> virtual_send data w = (int (length data), w\<lparr>line_out := line_out w @ data\<rparr>)"
  by (simp add: virtual_send_def os_write_call_def link_up_def)

text \<open>
  \<^verbatim>\<open>read(g_fd, &b, 1)\<close>: one byte if one is waiting.  The driver only tests for a positive result, so 0
  stands for an empty line and for a failed call alike; bytes behind a failed call are not yet
  part of \<open>line_in\<close>.
\<close>

definition os_read1 :: "u8 \<Rightarrow> host_world \<Rightarrow> int \<times> u8 \<times> host_world" where
  "os_read1 byte w =
     (case line_in w of [] \<Rightarrow> (0, byte, w) | b # bs \<Rightarrow> (1, b, w\<lparr>line_in := bs\<rparr>))"

definition virtual_recv_byte :: "u8 \<Rightarrow> host_world \<Rightarrow> int \<times> u8 \<times> host_world" where
  "virtual_recv_byte byte w =
     (if vp_fd w < 0 then (0, byte, w)
      else case os_read1 byte w of (n, b, w') \<Rightarrow> (if n > 0 then 1 else 0, b, w'))"

text \<open>Skip waiting bytes up to and including the first \<^verbatim>\<open>0x55\<close>.\<close>

fun skip_to_wakeup :: "bytes \<Rightarrow> int \<times> bytes" where
  "skip_to_wakeup [] = (0, [])"
| "skip_to_wakeup (b # bs) = (if b = 0x55 then (1, bs) else skip_to_wakeup bs)"

definition virtual_detect_wakeup :: "host_world \<Rightarrow> int \<times> host_world" where
  "virtual_detect_wakeup w =
     (if vp_fd w < 0 then (0, w)
      else case skip_to_wakeup (line_in w) of (r, bs) \<Rightarrow> (r, w\<lparr>line_in := bs\<rparr>))"

definition iolink_phy_virtual_get :: "host_world iolink_phy_api" where
  "iolink_phy_virtual_get =
     \<lparr>phy_init = Ref virtual_init, phy_set_mode = Ref virtual_set_mode,
      phy_set_baudrate = Ref virtual_set_baudrate, phy_send = Ref virtual_send,
      phy_recv_byte = Ref virtual_recv_byte, phy_detect_wakeup = Ref virtual_detect_wakeup,
      phy_set_cq_line = NULL, phy_get_voltage_mv = NULL, phy_is_short_circuit = NULL\<rparr>"

section \<open>What the data link layer needs from its environment\<close>

text \<open>
  \<open>backlog\<close> bounds the bytes the PHY can still deliver during the current call: every received
  byte uses it up, and no other call of the PHY or the platform adds to it.
\<close>

locale link_env =
  fixes plat :: "'w platform"
    and phy :: "'w iolink_phy_api"
    and backlog :: "'w \<Rightarrow> nat"
  assumes recv_drains: "phy_recv_byte phy = Ref f \<Longrightarrow> f b w = (n, b', w') \<Longrightarrow> 0 < n \<Longrightarrow>
      backlog w' < backlog w"
    and recv_backlog: "phy_recv_byte phy = Ref f \<Longrightarrow> f b w = (n, b', w') \<Longrightarrow> backlog w' \<le> backlog w"
    and send_backlog: "phy_send phy = Ref g \<Longrightarrow> backlog (snd (g d w)) \<le> backlog w"
    and mode_backlog: "phy_set_mode phy = Ref h \<Longrightarrow> backlog (h m w) \<le> backlog w"
    and baud_backlog: "phy_set_baudrate phy = Ref k \<Longrightarrow> backlog (k r w) \<le> backlog w"
    and time_ms_backlog: "backlog (snd (time_get_ms plat w)) \<le> backlog w"
    and time_us_backlog: "backlog (snd (time_get_us plat w)) \<le> backlog w"

lemma clock_gettime_line_in: "line_in (snd (clock_gettime w)) = line_in w"
  by (simp add: clock_gettime_def split: list.splits)

lemma linux_time_line_in [simp]:
  "line_in (snd (linux_time_get_ms w)) = line_in w"
  "line_in (snd (linux_time_get_us w)) = line_in w"
  using clock_gettime_line_in [of w]
  by (auto simp: linux_time_get_ms_def linux_time_get_us_def split: prod.splits)

interpretation virtual_link: link_env linux_platform iolink_phy_virtual_get "\<lambda>w. length (line_in w)"
proof
  show "length (line_in w') < length (line_in w)"
    if "phy_recv_byte iolink_phy_virtual_get = Ref f" "f b w = (n, b', w')" "0 < n"
    for f b w n b' w'
    using that
    by (auto simp: iolink_phy_virtual_get_def virtual_recv_byte_def os_read1_def
        split: if_splits list.splits)
  show "length (line_in w') \<le> length (line_in w)"
    if "phy_recv_byte iolink_phy_virtual_get = Ref f" "f b w = (n, b', w')" for f b w n b' w'
    using that
    by (auto simp: iolink_phy_virtual_get_def virtual_recv_byte_def os_read1_def
        split: if_splits list.splits)
qed (auto simp: iolink_phy_virtual_get_def linux_platform_def virtual_send_def os_write_call_def
    virtual_set_mode_def virtual_set_baudrate_def Let_def split: list.split)

interpretation generic_link: link_env baremetal_platform iolink_phy_generic_get "\<lambda>_. 0"
  by unfold_locales
     (auto simp: iolink_phy_generic_get_def generic_recv_byte_def)

end
