(* ===== verification/Protocol.thy ===== *)
theory Protocol
  imports Iol_Prelude
begin

text \<open>
  The constants of \<^verbatim>\<open>include/iolinki/protocol.h\<close>, \<^verbatim>\<open>include/iolinki/config.h\<close> (default build) and
  the event codes of \<^verbatim>\<open>include/iolinki/events.h\<close> that the code uses.  They are rewrite rules, so
  goals compute with the numbers.
\<close>

section \<open>protocol.h\<close>

definition IOLINK_M_SEQ_HEADER_LEN :: u8 where
  [simp]: "IOLINK_M_SEQ_HEADER_LEN = 2"

definition IOLINK_MC_TRANSITION_COMMAND :: u8 where
  [simp]: "IOLINK_MC_TRANSITION_COMMAND = 0x0F"

definition IOLINK_ISDU_CTRL_START :: u8 where
  [simp]: "IOLINK_ISDU_CTRL_START = 0x80"

definition IOLINK_ISDU_CTRL_LAST :: u8 where
  [simp]: "IOLINK_ISDU_CTRL_LAST = 0x40"

definition IOLINK_ISDU_CTRL_SEQ_MASK :: u8 where
  [simp]: "IOLINK_ISDU_CTRL_SEQ_MASK = 0x3F"

definition IOLINK_IDX_SYSTEM_COMMAND :: u16 where
  [simp]: "IOLINK_IDX_SYSTEM_COMMAND = 0x0002"

definition IOLINK_IDX_VENDOR_ID :: u16 where
  [simp]: "IOLINK_IDX_VENDOR_ID = 0x000A"

definition IOLINK_IDX_DEVICE_ID :: u16 where
  [simp]: "IOLINK_IDX_DEVICE_ID = 0x000B"

definition IOLINK_IDX_DEVICE_ACCESS_LOCKS :: u16 where
  [simp]: "IOLINK_IDX_DEVICE_ACCESS_LOCKS = 0x000C"

definition IOLINK_IDX_PROFILE_CHARACTERISTIC :: u16 where
  [simp]: "IOLINK_IDX_PROFILE_CHARACTERISTIC = 0x000D"

definition IOLINK_IDX_VENDOR_NAME :: u16 where
  [simp]: "IOLINK_IDX_VENDOR_NAME = 0x0010"

definition IOLINK_IDX_VENDOR_TEXT :: u16 where
  [simp]: "IOLINK_IDX_VENDOR_TEXT = 0x0011"

definition IOLINK_IDX_PRODUCT_NAME :: u16 where
  [simp]: "IOLINK_IDX_PRODUCT_NAME = 0x0012"

definition IOLINK_IDX_PRODUCT_ID :: u16 where
  [simp]: "IOLINK_IDX_PRODUCT_ID = 0x0013"

definition IOLINK_IDX_PRODUCT_TEXT :: u16 where
  [simp]: "IOLINK_IDX_PRODUCT_TEXT = 0x0014"

definition IOLINK_IDX_SERIAL_NUMBER :: u16 where
  [simp]: "IOLINK_IDX_SERIAL_NUMBER = 0x0015"

definition IOLINK_IDX_HARDWARE_REVISION :: u16 where
  [simp]: "IOLINK_IDX_HARDWARE_REVISION = 0x0016"

definition IOLINK_IDX_FIRMWARE_REVISION :: u16 where
  [simp]: "IOLINK_IDX_FIRMWARE_REVISION = 0x0017"

definition IOLINK_IDX_APPLICATION_TAG :: u16 where
  [simp]: "IOLINK_IDX_APPLICATION_TAG = 0x0018"

definition IOLINK_IDX_FUNCTION_TAG :: u16 where
  [simp]: "IOLINK_IDX_FUNCTION_TAG = 0x0019"

definition IOLINK_IDX_LOCATION_TAG :: u16 where
  [simp]: "IOLINK_IDX_LOCATION_TAG = 0x001A"

definition IOLINK_IDX_DEVICE_STATUS :: u16 where
  [simp]: "IOLINK_IDX_DEVICE_STATUS = 0x001B"

definition IOLINK_IDX_DETAILED_DEVICE_STATUS :: u16 where
  [simp]: "IOLINK_IDX_DETAILED_DEVICE_STATUS = 0x001C"

definition IOLINK_IDX_PDIN_DESCRIPTOR :: u16 where
  [simp]: "IOLINK_IDX_PDIN_DESCRIPTOR = 0x001D"

definition IOLINK_IDX_REVISION_ID :: u16 where
  [simp]: "IOLINK_IDX_REVISION_ID = 0x001E"

definition IOLINK_IDX_MIN_CYCLE_TIME :: u16 where
  [simp]: "IOLINK_IDX_MIN_CYCLE_TIME = 0x0024"

definition IOLINK_IDX_ERROR_STATS :: u16 where
  [simp]: "IOLINK_IDX_ERROR_STATS = 0x0025"

definition IOLINK_CMD_PARAM_DOWNLOAD_START :: u8 where
  [simp]: "IOLINK_CMD_PARAM_DOWNLOAD_START = 0x05"

definition IOLINK_CMD_PARAM_DOWNLOAD_END :: u8 where
  [simp]: "IOLINK_CMD_PARAM_DOWNLOAD_END = 0x06"

definition IOLINK_CMD_PARAM_UPLOAD_START :: u8 where
  [simp]: "IOLINK_CMD_PARAM_UPLOAD_START = 0x07"

definition IOLINK_CMD_PARAM_UPLOAD_END :: u8 where
  [simp]: "IOLINK_CMD_PARAM_UPLOAD_END = 0x08"

definition IOLINK_CMD_DEVICE_RESET :: u8 where
  [simp]: "IOLINK_CMD_DEVICE_RESET = 0x80"

definition IOLINK_CMD_APPLICATION_RESET :: u8 where
  [simp]: "IOLINK_CMD_APPLICATION_RESET = 0x81"

definition IOLINK_CMD_RESTORE_FACTORY_SETTINGS :: u8 where
  [simp]: "IOLINK_CMD_RESTORE_FACTORY_SETTINGS = 0x82"

definition IOLINK_CMD_RESTORE_APP_DEFAULTS :: u8 where
  [simp]: "IOLINK_CMD_RESTORE_APP_DEFAULTS = 0x83"

definition IOLINK_CMD_SET_COMM_MODE :: u8 where
  [simp]: "IOLINK_CMD_SET_COMM_MODE = 0x84"

definition IOLINK_CMD_PARAM_UPLOAD :: u8 where
  [simp]: "IOLINK_CMD_PARAM_UPLOAD = 0x95"

definition IOLINK_CMD_PARAM_DOWNLOAD :: u8 where
  [simp]: "IOLINK_CMD_PARAM_DOWNLOAD = 0x96"

definition IOLINK_CMD_PARAM_BREAK :: u8 where
  [simp]: "IOLINK_CMD_PARAM_BREAK = 0x97"

definition IOLINK_LOCK_DS :: u16 where
  [simp]: "IOLINK_LOCK_DS = 0x02"

definition IOLINK_ISDU_ERROR_NONE :: u8 where
  [simp]: "IOLINK_ISDU_ERROR_NONE = 0x00"

definition IOLINK_ISDU_ERROR_SERVICE_NOT_AVAIL :: u8 where
  [simp]: "IOLINK_ISDU_ERROR_SERVICE_NOT_AVAIL = 0x11"

definition IOLINK_ISDU_ERROR_SUBINDEX_NOT_AVAIL :: u8 where
  [simp]: "IOLINK_ISDU_ERROR_SUBINDEX_NOT_AVAIL = 0x12"

definition IOLINK_ISDU_ERROR_BUSY :: u8 where
  [simp]: "IOLINK_ISDU_ERROR_BUSY = 0x30"

definition IOLINK_ISDU_ERROR_WRITE_PROTECTED :: u8 where
  [simp]: "IOLINK_ISDU_ERROR_WRITE_PROTECTED = 0x33"

definition IOLINK_ISDU_ERROR_SEGMENTATION :: u8 where
  [simp]: "IOLINK_ISDU_ERROR_SEGMENTATION = 0x81"

definition IOLINK_EVENT_CODE_COMM_ERR_FRAMING :: u16 where
  [simp]: "IOLINK_EVENT_CODE_COMM_ERR_FRAMING = 0x1801"

definition IOLINK_OD_STATUS_EVENT :: u8 where
  [simp]: "IOLINK_OD_STATUS_EVENT = 0x80"

definition IOLINK_OD_STATUS_PD_TOGGLE :: u8 where
  [simp]: "IOLINK_OD_STATUS_PD_TOGGLE = 0x40"

definition IOLINK_OD_STATUS_PD_VALID :: u8 where
  [simp]: "IOLINK_OD_STATUS_PD_VALID = 0x20"

section \<open>config.h\<close>

definition IOLINK_ISDU_BUFFER_SIZE :: nat where
  [simp]: "IOLINK_ISDU_BUFFER_SIZE = 256"

definition IOLINK_PD_IN_MAX_SIZE :: nat where
  [simp]: "IOLINK_PD_IN_MAX_SIZE = 32"

definition IOLINK_PD_OUT_MAX_SIZE :: nat where
  [simp]: "IOLINK_PD_OUT_MAX_SIZE = 32"

definition IOLINK_TIMING_ENFORCE_DEFAULT :: nat where
  [simp]: "IOLINK_TIMING_ENFORCE_DEFAULT = 0"

definition IOLINK_T_DWU_US :: u64 where
  [simp]: "IOLINK_T_DWU_US = 80"

definition IOLINK_T_REN_COM1_US :: u32 where
  [simp]: "IOLINK_T_REN_COM1_US = 5000"

definition IOLINK_T_REN_COM2_US :: u32 where
  [simp]: "IOLINK_T_REN_COM2_US = 1200"

definition IOLINK_T_REN_COM3_US :: u32 where
  [simp]: "IOLINK_T_REN_COM3_US = 230"

section \<open>events.h\<close>

definition IOLINK_EVENT_COMM_TIMING :: u16 where
  [simp]: "IOLINK_EVENT_COMM_TIMING = 0x1804"

definition IOLINK_EVENT_PHY_VOLTAGE_FAULT :: u16 where
  [simp]: "IOLINK_EVENT_PHY_VOLTAGE_FAULT = 0x1805"

definition IOLINK_EVENT_PHY_SHORT_CIRCUIT :: u16 where
  [simp]: "IOLINK_EVENT_PHY_SHORT_CIRCUIT = 0x1806"

end
