(* ===== verification/Isdu.thy ===== *)
theory Isdu
  imports Protocol
begin

text \<open>
  \<^verbatim>\<open>src/isdu.c\<close>, the transport half: collecting a request byte by byte
  (\<^verbatim>\<open>iolink_isdu_collect_byte\<close>) and handing out the response byte by byte
  (\<^verbatim>\<open>iolink_isdu_get_response_byte\<close>).  On the wire every data byte is preceded by a control byte
  carrying a start flag, a last flag and a six-bit sequence number.  The theory proves the buffer
  accesses safe in every state the engine can reach, and that both directions are inverse to the
  master's side of the protocol, given here as \<open>encode_request\<close> and \<open>decode_response\<close>.
  The services behind the engine are in \<^verbatim>\<open>Isdu_Services\<close>.
\<close>

section \<open>Data\<close>

datatype isdu_state =
    ISDU_STATE_IDLE
  | ISDU_STATE_HEADER_INITIAL
  | ISDU_STATE_HEADER_EXT_LEN
  | ISDU_STATE_HEADER_INDEX_HIGH
  | ISDU_STATE_HEADER_INDEX_LOW
  | ISDU_STATE_HEADER_SUBINDEX
  | ISDU_STATE_DATA_COLLECT
  | ISDU_STATE_SEGMENT_COLLECT
  | ISDU_STATE_SERVICE_EXECUTE
  | ISDU_STATE_RESPONSE_READY
  | ISDU_STATE_BUSY

text \<open>The header's \<^verbatim>\<open>type\<close> is a byte that holds one of the two service types.\<close>

definition IOLINK_ISDU_SERVICE_TYPE_READ :: u8 where
  [simp]: "IOLINK_ISDU_SERVICE_TYPE_READ = 0"

definition IOLINK_ISDU_SERVICE_TYPE_WRITE :: u8 where
  [simp]: "IOLINK_ISDU_SERVICE_TYPE_WRITE = 1"

record iolink_isdu_header =
  hdr_type :: u8
  hdr_length :: u8
  hdr_index :: u16
  hdr_subindex :: u8

text \<open>
  The pointers to the event queue, the Data Storage engine and the data link layer are NULL or
  bound; the objects they are bound to are passed alongside the context where they are used.
\<close>

record iolink_isdu_ctx =
  is_state :: isdu_state
  is_buffer :: bytes
  is_buffer_idx :: nat
  is_header :: iolink_isdu_header
  is_response_buf :: bytes
  is_response_idx :: nat
  is_response_len :: nat
  is_next_state :: isdu_state
  is_segment_seq :: u8
  is_segmented :: bool
  is_response_control_sent :: bool
  is_error_code :: u8
  is_event_ctx :: "unit ptr"
  is_ds_ctx :: "unit ptr"
  is_dll_ctx :: "unit ptr"
  is_reset_pending :: bool
  is_app_reset_pending :: bool

definition zero_isdu_ctx :: iolink_isdu_ctx where
  "zero_isdu_ctx =
     \<lparr>is_state = ISDU_STATE_IDLE, is_buffer = replicate IOLINK_ISDU_BUFFER_SIZE 0, is_buffer_idx = 0,
      is_header = \<lparr>hdr_type = 0, hdr_length = 0, hdr_index = 0, hdr_subindex = 0\<rparr>,
      is_response_buf = replicate IOLINK_ISDU_BUFFER_SIZE 0, is_response_idx = 0, is_response_len = 0,
      is_next_state = ISDU_STATE_IDLE, is_segment_seq = 0, is_segmented = False,
      is_response_control_sent = False, is_error_code = 0, is_event_ctx = NULL, is_ds_ctx = NULL,
      is_dll_ctx = NULL, is_reset_pending = False, is_app_reset_pending = False\<rparr>"

definition iolink_isdu_init :: "iolink_isdu_ctx ptr \<Rightarrow> iolink_isdu_ctx ptr" where
  "iolink_isdu_init ctx =
     (case iolink_ctx_zero zero_isdu_ctx ctx of
        (True, Ref c) \<Rightarrow> Ref (c\<lparr>is_state := ISDU_STATE_IDLE, is_next_state := ISDU_STATE_IDLE\<rparr>)
      | (_, p) \<Rightarrow> p)"

section \<open>Filling the response buffer\<close>

text \<open>
  \<open>isdu_store\<close>: the stores \<^verbatim>\<open>response_buf[0] = b0; response_buf[1] = b1; ...\<close> with
  \<^verbatim>\<open>response_len\<close> set to their number.  \<open>isdu_reply\<close> also rewinds the response and makes it ready.
\<close>

definition isdu_store :: "bytes \<Rightarrow> iolink_isdu_ctx \<Rightarrow> iolink_isdu_ctx option" where
  "isdu_store bs ctx = do {
     buf \<leftarrow> memcpy (is_response_buf ctx) 0 bs 0 (length bs);
     Some (ctx\<lparr>is_response_buf := buf, is_response_len := length bs\<rparr>) }"

definition isdu_ready :: "iolink_isdu_ctx \<Rightarrow> iolink_isdu_ctx" where
  "isdu_ready ctx = ctx\<lparr>is_response_idx := 0, is_state := ISDU_STATE_RESPONSE_READY\<rparr>"

definition isdu_reply :: "bytes \<Rightarrow> iolink_isdu_ctx \<Rightarrow> iolink_isdu_ctx option" where
  "isdu_reply bs ctx = map_option isdu_ready (isdu_store bs ctx)"

section \<open>Collecting a request\<close>

definition ctrl_start :: "u8 \<Rightarrow> bool" where
  "ctrl_start byte \<longleftrightarrow> byte AND IOLINK_ISDU_CTRL_START \<noteq> 0"

definition ctrl_last :: "u8 \<Rightarrow> bool" where
  "ctrl_last byte \<longleftrightarrow> byte AND IOLINK_ISDU_CTRL_LAST \<noteq> 0"

definition ctrl_seq :: "u8 \<Rightarrow> u8" where
  "ctrl_seq byte = byte AND IOLINK_ISDU_CTRL_SEQ_MASK"

definition isdu_handle_idle :: "iolink_isdu_ctx \<Rightarrow> u8 \<Rightarrow> int \<times> iolink_isdu_ctx" where
  "isdu_handle_idle ctx byte =
     (if \<not> ctrl_start byte then (-1, ctx)
      else (0, ctx\<lparr>is_segmented := \<not> ctrl_last byte, is_segment_seq := ctrl_seq byte,
                   is_error_code := IOLINK_ISDU_ERROR_NONE, is_response_control_sent := False,
                   is_buffer_idx := 0, is_response_len := 0, is_response_idx := 0,
                   is_state := ISDU_STATE_HEADER_INITIAL\<rparr>))"

text \<open>
  The control phase.  \<open>Inl\<close> is an early return (the code and the context), \<open>Inr\<close> falls through
  to the switch below it.
\<close>

definition isdu_collect_control ::
  "iolink_isdu_ctx \<Rightarrow> u8 \<Rightarrow> ((int \<times> iolink_isdu_ctx) + iolink_isdu_ctx) option" where
  "isdu_collect_control ctx byte =
     (let start = ctrl_start byte; seq = ctrl_seq byte in
      if start \<and> is_state ctx \<noteq> ISDU_STATE_IDLE \<and> is_state ctx \<noteq> ISDU_STATE_RESPONSE_READY then do {
        ctx \<leftarrow> isdu_reply [0x80, IOLINK_ISDU_ERROR_BUSY] ctx;
        Some (Inl (1, ctx\<lparr>is_response_control_sent := False\<rparr>)) }
      else let ctx = (if start \<and> is_state ctx = ISDU_STATE_RESPONSE_READY
                      then ctx\<lparr>is_response_idx := 0, is_response_len := 0, is_state := ISDU_STATE_IDLE\<rparr>
                      else ctx) in
      if is_state ctx = ISDU_STATE_IDLE then Some (Inl (isdu_handle_idle ctx byte))
      else if is_state ctx = ISDU_STATE_SEGMENT_COLLECT then
        (if seq \<noteq> (is_segment_seq ctx + 1) AND 0x3F then do {
           ctx \<leftarrow> isdu_reply [0x80, IOLINK_ISDU_ERROR_SEGMENTATION] ctx;
           Some (Inl (-1, ctx\<lparr>is_segment_seq := 0, is_response_control_sent := False\<rparr>)) }
         else Some (Inl (0, ctx\<lparr>is_segment_seq := seq, is_segmented := \<not> ctrl_last byte,
                                is_state := is_next_state ctx\<rparr>)))
      else Some (Inr ctx))"

text \<open>The switch over the data phases.\<close>

definition isdu_collect_data ::
  "bool \<Rightarrow> iolink_isdu_ctx \<Rightarrow> u8 \<Rightarrow> (int \<times> iolink_isdu_ctx) option" where
  "isdu_collect_data is_control_phase ctx byte =
     (let hdr = is_header ctx;
          next = (\<lambda>n c. Some (0, c\<lparr>is_next_state := n, is_state := ISDU_STATE_SEGMENT_COLLECT\<rparr>)) in
      case is_state ctx of
        ISDU_STATE_HEADER_INITIAL \<Rightarrow>
          (let service = drop_bit 4 byte AND 0x0F; length = byte AND 0x0F in
           if service = 0x08 then
             next ISDU_STATE_HEADER_INDEX_HIGH
               (ctx\<lparr>is_header := hdr\<lparr>hdr_type := IOLINK_ISDU_SERVICE_TYPE_READ, hdr_length := 0\<rparr>,
                    is_buffer_idx := 0\<rparr>)
           else if service = 0x09 then
             (if length = 15 then
                next ISDU_STATE_HEADER_EXT_LEN
                  (ctx\<lparr>is_header := hdr\<lparr>hdr_type := IOLINK_ISDU_SERVICE_TYPE_WRITE\<rparr>, is_buffer_idx := 0\<rparr>)
              else
                next ISDU_STATE_HEADER_INDEX_HIGH
                  (ctx\<lparr>is_header := hdr\<lparr>hdr_type := IOLINK_ISDU_SERVICE_TYPE_WRITE, hdr_length := length\<rparr>,
                       is_buffer_idx := 0\<rparr>))
           else do {
             ctx \<leftarrow> isdu_reply [0x80, IOLINK_ISDU_ERROR_SERVICE_NOT_AVAIL] ctx;
             Some (-1, ctx) })
      | ISDU_STATE_HEADER_EXT_LEN \<Rightarrow>
          next ISDU_STATE_HEADER_INDEX_HIGH (ctx\<lparr>is_header := hdr\<lparr>hdr_length := byte\<rparr>\<rparr>)
      | ISDU_STATE_HEADER_INDEX_HIGH \<Rightarrow>
          next ISDU_STATE_HEADER_INDEX_LOW
            (ctx\<lparr>is_header := hdr\<lparr>hdr_index := push_bit 8 (ucast byte)\<rparr>\<rparr>)
      | ISDU_STATE_HEADER_INDEX_LOW \<Rightarrow>
          next ISDU_STATE_HEADER_SUBINDEX
            (ctx\<lparr>is_header := hdr\<lparr>hdr_index := hdr_index hdr OR ucast byte\<rparr>\<rparr>)
      | ISDU_STATE_HEADER_SUBINDEX \<Rightarrow>
          (let ctx = ctx\<lparr>is_header := hdr\<lparr>hdr_subindex := byte\<rparr>\<rparr> in
           if hdr_type hdr = IOLINK_ISDU_SERVICE_TYPE_WRITE then next ISDU_STATE_DATA_COLLECT ctx
           else Some (1, ctx\<lparr>is_state := ISDU_STATE_SERVICE_EXECUTE\<rparr>))
      | ISDU_STATE_DATA_COLLECT \<Rightarrow> do {
          buf \<leftarrow> arr_set (is_buffer ctx) (is_buffer_idx ctx) byte;
          let ctx = ctx\<lparr>is_buffer := buf, is_buffer_idx := is_buffer_idx ctx + 1\<rparr>;
          if is_buffer_idx ctx \<ge> unat (hdr_length hdr)
          then Some (1, ctx\<lparr>is_state := ISDU_STATE_SERVICE_EXECUTE\<rparr>)
          else next ISDU_STATE_DATA_COLLECT ctx }
      | ISDU_STATE_SERVICE_EXECUTE \<Rightarrow> Some (0, ctx)
      | ISDU_STATE_BUSY \<Rightarrow> Some (0, ctx)
      | ISDU_STATE_RESPONSE_READY \<Rightarrow>
          if is_control_phase \<and> ctrl_start byte
          then Some (isdu_handle_idle (ctx\<lparr>is_state := ISDU_STATE_IDLE\<rparr>) byte)
          else Some (0, ctx)
      | _ \<Rightarrow> Some (0, ctx\<lparr>is_state := ISDU_STATE_IDLE\<rparr>))"

definition iolink_isdu_collect_byte ::
  "iolink_isdu_ctx \<Rightarrow> u8 \<Rightarrow> (int \<times> iolink_isdu_ctx) option" where
  "iolink_isdu_collect_byte ctx byte =
     (let is_control_phase =
            (is_state ctx = ISDU_STATE_IDLE \<or> is_state ctx = ISDU_STATE_SEGMENT_COLLECT \<or>
             is_state ctx = ISDU_STATE_RESPONSE_READY) in
      if is_control_phase then do {
        r \<leftarrow> isdu_collect_control ctx byte;
        (case r of Inl done \<Rightarrow> Some done | Inr ctx \<Rightarrow> isdu_collect_data is_control_phase ctx byte) }
      else isdu_collect_data is_control_phase ctx byte)"

definition iolink_isdu_collect_byte_p ::
  "iolink_isdu_ctx ptr \<Rightarrow> u8 \<Rightarrow> (int \<times> iolink_isdu_ctx ptr) option" where
  "iolink_isdu_collect_byte_p ctx byte = with_ptr 0 (\<lambda>c. iolink_isdu_collect_byte c byte) ctx"

section \<open>Handing out the response\<close>

text \<open>\<open>Some b\<close>: return value 1 with \<^verbatim>\<open>*byte = b\<close>; \<open>None\<close>: return value 0, \<^verbatim>\<open>*byte\<close> untouched.\<close>

definition iolink_isdu_get_response_byte ::
  "iolink_isdu_ctx \<Rightarrow> (u8 option \<times> iolink_isdu_ctx) option" where
  "iolink_isdu_get_response_byte ctx =
     (if is_state ctx \<noteq> ISDU_STATE_RESPONSE_READY then Some (None, ctx)
      else if \<not> is_response_control_sent ctx then
        (let ctrl = (if is_response_idx ctx = 0 then IOLINK_ISDU_CTRL_START else 0)
               OR (if (is_response_idx ctx + 1) mod 256 \<ge> is_response_len ctx
                   then IOLINK_ISDU_CTRL_LAST else 0)
               OR (is_segment_seq ctx AND IOLINK_ISDU_CTRL_SEQ_MASK)
         in Some (Some ctrl, ctx\<lparr>is_response_control_sent := True\<rparr>))
      else if is_response_idx ctx < is_response_len ctx then do {
        b \<leftarrow> arr_get (is_response_buf ctx) (is_response_idx ctx);
        let ctx = ctx\<lparr>is_response_idx := is_response_idx ctx + 1\<rparr>;
        Some (Some b,
          if is_response_idx ctx \<ge> is_response_len ctx then ctx\<lparr>is_state := ISDU_STATE_IDLE\<rparr>
          else ctx\<lparr>is_response_control_sent := False,
                   is_segment_seq := (is_segment_seq ctx + 1) AND 0x3F\<rparr>) }
      else Some (None, ctx\<lparr>is_state := ISDU_STATE_IDLE\<rparr>))"

definition iolink_isdu_get_response_byte_p ::
  "iolink_isdu_ctx ptr \<Rightarrow> bool \<Rightarrow> (u8 option \<times> iolink_isdu_ctx ptr) option" where
  "iolink_isdu_get_response_byte_p ctx byte_is_null =
     (if byte_is_null then Some (None, ctx) else with_ptr None iolink_isdu_get_response_byte ctx)"

section \<open>Invariant\<close>

text \<open>
  Both buffers keep their size; a ready response fits its buffer; while payload bytes are being
  collected there is room for the next one.
\<close>

definition collecting_data :: "iolink_isdu_ctx \<Rightarrow> bool" where
  "collecting_data c \<longleftrightarrow>
     is_state c = ISDU_STATE_DATA_COLLECT \<or>
     is_state c = ISDU_STATE_SEGMENT_COLLECT \<and> is_next_state c = ISDU_STATE_DATA_COLLECT"

definition in_header :: "isdu_state \<Rightarrow> bool" where
  "in_header s \<longleftrightarrow> s \<in> {ISDU_STATE_HEADER_EXT_LEN, ISDU_STATE_HEADER_INDEX_HIGH,
     ISDU_STATE_HEADER_INDEX_LOW, ISDU_STATE_HEADER_SUBINDEX}"

definition isdu_wf :: "iolink_isdu_ctx \<Rightarrow> bool" where
  [wf_defs]: "isdu_wf c \<longleftrightarrow>
     length (is_buffer c) = IOLINK_ISDU_BUFFER_SIZE \<and>
     length (is_response_buf c) = IOLINK_ISDU_BUFFER_SIZE \<and>
     is_response_len c \<le> 255 \<and>
     is_buffer_idx c \<le> 255 \<and>
     (collecting_data c \<longrightarrow> is_buffer_idx c = 0 \<or> is_buffer_idx c < unat (hdr_length (is_header c))) \<and>
     (in_header (is_state c) \<or> is_state c = ISDU_STATE_SEGMENT_COLLECT \<and> in_header (is_next_state c)
        \<longrightarrow> is_buffer_idx c = 0)"

lemma isdu_wf_zero [simp]: "isdu_wf zero_isdu_ctx"
  by (simp add: isdu_wf_def zero_isdu_ctx_def collecting_data_def in_header_def)

lemmas isdu_wf_unfold = isdu_wf_def collecting_data_def in_header_def

text \<open>A short reply fits the response buffer.\<close>

lemma isdu_store_eq:
  assumes "length (is_response_buf c) = 256" and "length bs \<le> 255"
  shows "isdu_store bs c =
    Some (c\<lparr>is_response_buf := bs @ drop (length bs) (is_response_buf c), is_response_len := length bs\<rparr>)"
  using assms by (simp add: isdu_store_def memcpy_def)

lemma isdu_reply_eq:
  assumes "length (is_response_buf c) = 256" and "length bs \<le> 255"
  shows "isdu_reply bs c =
    Some (c\<lparr>is_response_buf := bs @ drop (length bs) (is_response_buf c), is_response_len := length bs,
            is_response_idx := 0, is_state := ISDU_STATE_RESPONSE_READY\<rparr>)"
  using assms by (simp add: isdu_reply_def isdu_store_eq isdu_ready_def)

lemma isdu_reply_wf:
  "isdu_wf c \<Longrightarrow> length bs \<le> 255 \<Longrightarrow> runs (isdu_reply bs c) isdu_wf"
  by (subst isdu_reply_eq) (auto simp: isdu_wf_unfold)

lemma isdu_handle_idle_wf: "isdu_wf c \<Longrightarrow> isdu_wf (snd (isdu_handle_idle c b))"
  by (auto simp: isdu_handle_idle_def isdu_wf_unfold)

lemma isdu_collect_data_wf:
  "isdu_wf c \<Longrightarrow> runs (isdu_collect_data ph c b) (\<lambda>(r, c'). isdu_wf c')"
  by (cases "is_state c")
     (auto simp: isdu_collect_data_def Let_def isdu_reply_eq isdu_wf_unfold isdu_handle_idle_def
        dest: less_unat_u8D)

lemma isdu_collect_control_wf:
  assumes "isdu_wf c"
  shows "runs (isdu_collect_control c b) (\<lambda>r. case r of Inl (n, c') \<Rightarrow> isdu_wf c' | Inr c' \<Rightarrow> isdu_wf c')"
proof -
  have "length (is_response_buf c) = 256" using assms by (simp add: isdu_wf_def)
  then show ?thesis
    using assms
    by (auto simp: isdu_collect_control_def Let_def isdu_reply_eq isdu_handle_idle_def isdu_wf_unfold)
qed

lemma iolink_isdu_collect_byte_wf:
  assumes "isdu_wf c"
  shows "runs (iolink_isdu_collect_byte c b) (\<lambda>(r, c'). isdu_wf c')"
  unfolding iolink_isdu_collect_byte_def Let_def
  by (auto intro!: isdu_collect_data_wf assms runs_mono [OF isdu_collect_control_wf [OF assms]]
      split: sum.splits)

lemma iolink_isdu_get_response_byte_wf:
  "isdu_wf c \<Longrightarrow> runs (iolink_isdu_get_response_byte c) (\<lambda>(r, c'). isdu_wf c')"
  by (auto simp: iolink_isdu_get_response_byte_def Let_def isdu_wf_unfold)

section \<open>The master's side of the protocol\<close>

text \<open>
  A control byte, and the wire form of a message: each byte preceded by a control byte, start on
  the first, last on the last, sequence numbers counting modulo 64.
\<close>

definition mk_ctrl :: "bool \<Rightarrow> bool \<Rightarrow> u8 \<Rightarrow> u8" where
  "mk_ctrl start lst seq =
     (if start then IOLINK_ISDU_CTRL_START else 0) OR (if lst then IOLINK_ISDU_CTRL_LAST else 0)
       OR (seq AND IOLINK_ISDU_CTRL_SEQ_MASK)"

definition next_seq :: "u8 \<Rightarrow> u8" where
  "next_seq s = (s + 1) AND 0x3F"

fun encode_segments :: "bool \<Rightarrow> u8 \<Rightarrow> bytes \<Rightarrow> bytes" where
  "encode_segments start seq [] = []"
| "encode_segments start seq (b # bs) =
     mk_ctrl start (bs = []) seq # b # encode_segments False (next_seq seq) bs"

fun decode_segments :: "bool \<Rightarrow> u8 \<Rightarrow> bytes \<Rightarrow> bytes option" where
  "decode_segments start seq (c # b # rest) =
     (if ctrl_start c = start \<and> ctrl_seq c = seq then
        (if ctrl_last c then (if rest = [] then Some [b] else None)
         else map_option ((#) b) (decode_segments False (next_seq seq) rest))
      else None)"
| "decode_segments start seq _ = None"

text \<open>The bytes of a request: service and length, index, subindex, payload.\<close>

datatype isdu_request = ReadReq u16 u8 | WriteReq u16 u8 bytes

definition index_bytes :: "u16 \<Rightarrow> bytes" where
  "index_bytes i = [ucast (drop_bit 8 i), ucast i]"

fun request_bytes :: "isdu_request \<Rightarrow> bytes" where
  "request_bytes (ReadReq i sub) = 0x80 # index_bytes i @ [sub]"
| "request_bytes (WriteReq i sub d) =
     (if length d < 15 then [0x90 OR word_of_nat (length d)] else [0x9F, word_of_nat (length d)])
       @ index_bytes i @ [sub] @ d"

definition encode_request :: "u8 \<Rightarrow> isdu_request \<Rightarrow> bytes" where
  "encode_request seq r = encode_segments True (seq AND 0x3F) (request_bytes r)"

definition collect_step :: "iolink_isdu_ctx \<Rightarrow> u8 \<Rightarrow> iolink_isdu_ctx option" where
  "collect_step c b = map_option snd (iolink_isdu_collect_byte c b)"

definition collect_all :: "iolink_isdu_ctx \<Rightarrow> bytes \<Rightarrow> iolink_isdu_ctx option" where
  "collect_all = fold_opt collect_step"

lemma collect_all_simps [simp]:
  "collect_all c [] = Some c"
  "collect_all c (b # bs) = collect_step c b \<bind> (\<lambda>c'. collect_all c' bs)"
  by (simp_all add: collect_all_def)

lemma ctrl_mk_ctrl [simp]:
  "ctrl_start (mk_ctrl st la s) = st"
  "ctrl_last (mk_ctrl st la s) = la"
  "ctrl_seq (mk_ctrl st la s) = s AND 0x3F"
proof -
  show "ctrl_start (mk_ctrl st la s) = st" "ctrl_last (mk_ctrl st la s) = la"
    by (cases st; cases la; simp add: ctrl_start_def ctrl_last_def mk_ctrl_def bit.conj_disj_distrib2
        and.assoc or_eq_0_iff)+
  show "ctrl_seq (mk_ctrl st la s) = s AND 0x3F"
    by (cases st; cases la; simp add: ctrl_seq_def mk_ctrl_def bit.conj_disj_distrib2 and.assoc)
qed

lemma next_seq_and [simp]: "next_seq s AND 0x3F = next_seq s"
  by (simp add: next_seq_def and.assoc)

lemma collect_start:
  assumes "is_state c = ISDU_STATE_IDLE \<or> is_state c = ISDU_STATE_RESPONSE_READY"
  shows "collect_step c (mk_ctrl True la s) =
    Some (c\<lparr>is_segmented := \<not> la, is_segment_seq := s AND 0x3F, is_error_code := 0,
            is_response_control_sent := False, is_buffer_idx := 0, is_response_len := 0,
            is_response_idx := 0, is_state := ISDU_STATE_HEADER_INITIAL\<rparr>)"
  using assms
  by (auto simp: collect_step_def iolink_isdu_collect_byte_def isdu_collect_control_def
      isdu_handle_idle_def Let_def)

lemma collect_segment:
  assumes "is_state c = ISDU_STATE_SEGMENT_COLLECT" and "s = next_seq (is_segment_seq c)"
  shows "collect_step c (mk_ctrl False la s) =
    Some (c\<lparr>is_segment_seq := s, is_segmented := \<not> la, is_state := is_next_state c\<rparr>)"
  using assms
  by (simp add: collect_step_def iolink_isdu_collect_byte_def isdu_collect_control_def Let_def)
     (simp add: next_seq_def)

lemma collect_data_step:
  "is_state c \<notin> {ISDU_STATE_IDLE, ISDU_STATE_SEGMENT_COLLECT, ISDU_STATE_RESPONSE_READY} \<Longrightarrow>
     collect_step c b = map_option snd (isdu_collect_data False c b)"
  by (simp add: collect_step_def iolink_isdu_collect_byte_def Let_def)

lemma service_write_short:
  assumes "n < 15"
  shows "drop_bit 4 ((0x90 :: u8) OR word_of_nat n) AND 0xF = 9" "((0x90 :: u8) OR word_of_nat n) AND 0xF = word_of_nat n"
    "(word_of_nat n :: u8) \<noteq> 0xF"
proof -
  have "\<forall>k \<in> set [0..<15]. drop_bit 4 ((0x90 :: u8) OR word_of_nat k) AND 0xF = 9 \<and>
      ((0x90 :: u8) OR word_of_nat k) AND 0xF = word_of_nat k \<and> (word_of_nat k :: u8) \<noteq> 0xF"
    by (simp add: upt_rec)
  with assms show "drop_bit 4 ((0x90 :: u8) OR word_of_nat n) AND 0xF = 9"
    and "((0x90 :: u8) OR word_of_nat n) AND 0xF = word_of_nat n" and "(word_of_nat n :: u8) \<noteq> 0xF"
    by simp_all
qed

lemma index_bytes_pack [simp]:
  "push_bit 8 (ucast (ucast (drop_bit 8 i) :: u8)) OR ucast (ucast i :: u8) = (i :: u16)"
  by (intro bit_word_eqI) (auto simp: bit_simps)

text \<open>What stays the same while a request is collected: the response bytes and the bindings.\<close>

definition isdu_kept :: "iolink_isdu_ctx \<Rightarrow> iolink_isdu_ctx \<Rightarrow> bool" where
  "isdu_kept c c' \<longleftrightarrow> is_response_buf c' = is_response_buf c \<and> is_event_ctx c' = is_event_ctx c \<and>
     is_ds_ctx c' = is_ds_ctx c \<and> is_dll_ctx c' = is_dll_ctx c \<and>
     is_reset_pending c' = is_reset_pending c \<and> is_app_reset_pending c' = is_app_reset_pending c \<and>
     is_response_len c' = is_response_len c \<and> is_response_idx c' = is_response_idx c \<and>
     is_response_control_sent c' = is_response_control_sent c"

lemma collect_payload:
  assumes "is_state c = ISDU_STATE_SEGMENT_COLLECT" and "is_next_state c = ISDU_STATE_DATA_COLLECT"
    and "d \<noteq> []" and "is_buffer_idx c + length d = unat (hdr_length (is_header c))"
    and "length (is_buffer c) = 256"
  shows "runs (collect_all c (encode_segments False (next_seq (is_segment_seq c)) d)) (\<lambda>c'.
     is_state c' = ISDU_STATE_SERVICE_EXECUTE \<and> is_header c' = is_header c \<and>
     is_buffer_idx c' = is_buffer_idx c + length d \<and> length (is_buffer c') = 256 \<and>
     take (is_buffer_idx c + length d) (is_buffer c') = take (is_buffer_idx c) (is_buffer c) @ d \<and>
     isdu_kept c c')"
  using assms
proof (induction d arbitrary: c)
  case (Cons b bs)
  define c1 where "c1 = c\<lparr>is_segment_seq := next_seq (is_segment_seq c), is_segmented := bs \<noteq> [],
    is_buffer := (is_buffer c)[is_buffer_idx c := b], is_buffer_idx := Suc (is_buffer_idx c)\<rparr>"
  have idx: "is_buffer_idx c < 256"
    using Cons.prems(4) unat_u8_less [of "hdr_length (is_header c)"] by (simp del: unat_u8_less)
  have take: "take (Suc (is_buffer_idx c)) ((is_buffer c)[is_buffer_idx c := b])
      = take (is_buffer_idx c) (is_buffer c) @ [b]"
    using idx Cons.prems(5) by (simp add: take_Suc_conv_app_nth)
  have step: "collect_all c (encode_segments False (next_seq (is_segment_seq c)) (b # bs)) =
    (if bs = [] then Some (c1\<lparr>is_state := ISDU_STATE_SERVICE_EXECUTE\<rparr>)
     else collect_all (c1\<lparr>is_next_state := ISDU_STATE_DATA_COLLECT, is_state := ISDU_STATE_SEGMENT_COLLECT\<rparr>)
            (encode_segments False (next_seq (next_seq (is_segment_seq c))) bs))"
    using Cons.prems idx
    by (auto simp: collect_segment collect_data_step isdu_collect_data_def Let_def c1_def neq_Nil_conv)
  show ?case
  proof (cases "bs = []")
    case True
    then show ?thesis
      using step Cons.prems take by (simp add: c1_def isdu_kept_def)
  next
    case False
    let ?c2 = "c1\<lparr>is_next_state := ISDU_STATE_DATA_COLLECT, is_state := ISDU_STATE_SEGMENT_COLLECT\<rparr>"
    have "runs (collect_all ?c2 (encode_segments False (next_seq (is_segment_seq ?c2)) bs)) (\<lambda>c'.
     is_state c' = ISDU_STATE_SERVICE_EXECUTE \<and> is_header c' = is_header ?c2 \<and>
     is_buffer_idx c' = is_buffer_idx ?c2 + length bs \<and> length (is_buffer c') = 256 \<and>
     take (is_buffer_idx ?c2 + length bs) (is_buffer c') = take (is_buffer_idx ?c2) (is_buffer ?c2) @ bs \<and>
     isdu_kept ?c2 c')"
      using Cons.prems False by (intro Cons.IH) (auto simp: c1_def)
    then show ?thesis
      unfolding step using False
      by (auto simp: c1_def take isdu_kept_def elim!: runs_mono)
  qed
qed simp

text \<open>The request an engine holds once it is about to execute a service.\<close>

fun holds_request :: "isdu_request \<Rightarrow> iolink_isdu_ctx \<Rightarrow> bool" where
  "holds_request (ReadReq i sub) c \<longleftrightarrow>
     is_header c = \<lparr>hdr_type = IOLINK_ISDU_SERVICE_TYPE_READ, hdr_length = 0, hdr_index = i, hdr_subindex = sub\<rparr>"
| "holds_request (WriteReq i sub d) c \<longleftrightarrow>
     is_header c = \<lparr>hdr_type = IOLINK_ISDU_SERVICE_TYPE_WRITE, hdr_length = word_of_nat (length d),
                    hdr_index = i, hdr_subindex = sub\<rparr> \<and>
     is_buffer_idx c = length d \<and> take (length d) (is_buffer c) = d"

text \<open>
  What the length field of a request can express, and the requests the engine takes: it waits for
  a payload byte after the header of every write, so a write with an empty payload is not among them.
\<close>

fun request_fits :: "isdu_request \<Rightarrow> bool" where
  "request_fits (ReadReq i sub) = True"
| "request_fits (WriteReq i sub d) = (length d \<le> 255)"

fun request_ok :: "isdu_request \<Rightarrow> bool" where
  "request_ok (ReadReq i sub) = True"
| "request_ok (WriteReq i sub d) = (1 \<le> length d \<and> length d \<le> 255)"

lemma hdr_eqI: "hdr_type h = t \<Longrightarrow> hdr_length h = l \<Longrightarrow> hdr_index h = i \<Longrightarrow> hdr_subindex h = u \<Longrightarrow>
   h = \<lparr>hdr_type = t, hdr_length = l, hdr_index = i, hdr_subindex = u\<rparr>"
  by (cases h) simp

definition isdu_bindings :: "iolink_isdu_ctx \<Rightarrow> unit ptr \<times> unit ptr \<times> unit ptr \<times> bool \<times> bool" where
  "isdu_bindings c = (is_event_ctx c, is_ds_ctx c, is_dll_ctx c, is_reset_pending c, is_app_reset_pending c)"

lemma collect_read_request:
  assumes "is_state c = ISDU_STATE_IDLE \<or> is_state c = ISDU_STATE_RESPONSE_READY"
  shows "runs (collect_all c (encode_request seq (ReadReq i sub))) (\<lambda>c'.
     is_state c' = ISDU_STATE_SERVICE_EXECUTE \<and> holds_request (ReadReq i sub) c' \<and>
     isdu_bindings c' = isdu_bindings c \<and> is_response_buf c' = is_response_buf c \<and>
     \<not> is_response_control_sent c')"
  using assms
  by (simp add: encode_request_def index_bytes_def collect_start collect_segment collect_data_step
      isdu_collect_data_def Let_def isdu_bindings_def and.assoc hdr_eqI)

lemma collect_write_header:
  assumes "is_state c = ISDU_STATE_IDLE \<or> is_state c = ISDU_STATE_RESPONSE_READY"
    and "length d \<le> 255"
  shows "\<exists>c1. collect_all c (encode_request seq (WriteReq i sub d)) =
       collect_all c1 (encode_segments False (next_seq (is_segment_seq c1)) d) \<and>
     is_state c1 = ISDU_STATE_SEGMENT_COLLECT \<and> is_next_state c1 = ISDU_STATE_DATA_COLLECT \<and>
     is_buffer_idx c1 = 0 \<and> is_buffer c1 = is_buffer c \<and>
     is_header c1 = \<lparr>hdr_type = IOLINK_ISDU_SERVICE_TYPE_WRITE, hdr_length = word_of_nat (length d),
                    hdr_index = i, hdr_subindex = sub\<rparr> \<and>
     isdu_bindings c1 = isdu_bindings c \<and> is_response_buf c1 = is_response_buf c \<and>
     \<not> is_response_control_sent c1"
proof (cases "length d < 15")
  case True
  show ?thesis
    using assms service_write_short [OF True] True
    by (simp add: encode_request_def index_bytes_def collect_start collect_segment collect_data_step
          isdu_collect_data_def Let_def and.assoc)
       (intro exI conjI, rule arg_cong2 [where f = collect_all], rule refl,
        auto simp: hdr_eqI isdu_bindings_def)
next
  case False
  then show ?thesis
    using assms
    by (simp add: encode_request_def index_bytes_def collect_start collect_segment collect_data_step
          isdu_collect_data_def Let_def and.assoc)
       (intro exI conjI, rule arg_cong2 [where f = collect_all], rule refl,
        auto simp: hdr_eqI isdu_bindings_def)
qed

lemma collect_write_request:
  assumes "is_state c = ISDU_STATE_IDLE \<or> is_state c = ISDU_STATE_RESPONSE_READY"
    and "1 \<le> length d" and "length d \<le> 255" and "length (is_buffer c) = 256"
  shows "runs (collect_all c (encode_request seq (WriteReq i sub d))) (\<lambda>c'.
     is_state c' = ISDU_STATE_SERVICE_EXECUTE \<and> holds_request (WriteReq i sub d) c' \<and>
     isdu_bindings c' = isdu_bindings c \<and> is_response_buf c' = is_response_buf c \<and>
     \<not> is_response_control_sent c')"
proof -
  obtain c1 where c1: "collect_all c (encode_request seq (WriteReq i sub d)) =
       collect_all c1 (encode_segments False (next_seq (is_segment_seq c1)) d)"
     "is_state c1 = ISDU_STATE_SEGMENT_COLLECT" "is_next_state c1 = ISDU_STATE_DATA_COLLECT"
     "is_buffer_idx c1 = 0" "is_buffer c1 = is_buffer c"
     "is_header c1 = \<lparr>hdr_type = IOLINK_ISDU_SERVICE_TYPE_WRITE, hdr_length = word_of_nat (length d),
                    hdr_index = i, hdr_subindex = sub\<rparr>"
     "isdu_bindings c1 = isdu_bindings c" "is_response_buf c1 = is_response_buf c"
     "\<not> is_response_control_sent c1"
    using collect_write_header [OF assms(1,3)] by blast
  have "d \<noteq> []" using assms(2) by auto
  then show ?thesis
    using c1(2-) assms(3,4) unfolding c1(1)
    by (intro runs_mono [OF collect_payload]) (auto simp: isdu_kept_def isdu_bindings_def)
qed

lemma collect_all_wf: "isdu_wf c \<Longrightarrow> runs (collect_all c bs) isdu_wf"
proof (induction bs arbitrary: c)
  case (Cons b bs)
  then show ?case
    by (auto simp: collect_step_def split_def intro!: runs_mono [OF iolink_isdu_collect_byte_wf])
qed simp

lemma collect_request:
  assumes "isdu_wf c" and "is_state c = ISDU_STATE_IDLE \<or> is_state c = ISDU_STATE_RESPONSE_READY"
    and "request_ok r"
  shows "runs (collect_all c (encode_request seq r)) (\<lambda>c'.
     (is_state c' = ISDU_STATE_SERVICE_EXECUTE \<and> holds_request r c' \<and>
      isdu_bindings c' = isdu_bindings c) \<and> isdu_wf c')"
proof (rule runs_conj [OF _ collect_all_wf [OF assms(1)]], cases r)
  case (ReadReq i sub)
  then show "runs (collect_all c (encode_request seq r)) (\<lambda>c'. is_state c' = ISDU_STATE_SERVICE_EXECUTE \<and>
      holds_request r c' \<and> isdu_bindings c' = isdu_bindings c)"
    using collect_read_request [OF assms(2), of seq i sub] by (auto elim: runs_mono)
next
  case (WriteReq i sub d)
  have "runs (collect_all c (encode_request seq (WriteReq i sub d))) (\<lambda>c'.
     is_state c' = ISDU_STATE_SERVICE_EXECUTE \<and> holds_request (WriteReq i sub d) c' \<and>
     isdu_bindings c' = isdu_bindings c \<and> is_response_buf c' = is_response_buf c \<and>
     \<not> is_response_control_sent c')"
    using assms WriteReq by (intro collect_write_request) (simp_all add: isdu_wf_def)
  then show "runs (collect_all c (encode_request seq r)) (\<lambda>c'. is_state c' = ISDU_STATE_SERVICE_EXECUTE \<and>
      holds_request r c' \<and> isdu_bindings c' = isdu_bindings c)"
    unfolding WriteReq by (rule runs_mono) blast
qed

text \<open>An empty write: the engine stays between two segments and takes the next byte for the payload.\<close>

definition awaits_payload :: "iolink_isdu_ctx \<Rightarrow> bool" where
  "awaits_payload c \<longleftrightarrow> is_state c = ISDU_STATE_SEGMENT_COLLECT \<and> is_next_state c = ISDU_STATE_DATA_COLLECT \<and>
     is_buffer_idx c = 0 \<and> hdr_length (is_header c) = 0"

lemma collect_empty_write:
  assumes "is_state c = ISDU_STATE_IDLE \<or> is_state c = ISDU_STATE_RESPONSE_READY" and "length (is_buffer c) = 256"
  shows "runs (collect_all c (encode_request seq (WriteReq i sub []))) (\<lambda>c'.
     awaits_payload c' \<and> isdu_bindings c' = isdu_bindings c \<and> length (is_buffer c') = 256)"
proof -
  obtain c1 where "collect_all c (encode_request seq (WriteReq i sub [])) = Some c1"
    "is_state c1 = ISDU_STATE_SEGMENT_COLLECT" "is_next_state c1 = ISDU_STATE_DATA_COLLECT"
    "is_buffer_idx c1 = 0" "is_buffer c1 = is_buffer c" "hdr_length (is_header c1) = 0" "isdu_bindings c1 = isdu_bindings c"
    using collect_write_header [OF assms(1), of "[]" seq i sub] by auto
  then show ?thesis using assms(2) by (simp add: awaits_payload_def)
qed

lemma awaits_payload_takes_byte:
  assumes "awaits_payload c" and "length (is_buffer c) = 256"
  shows "runs (collect_all c [mk_ctrl False la (next_seq (is_segment_seq c)), b]) (\<lambda>c'.
     is_state c' = ISDU_STATE_SERVICE_EXECUTE \<and> is_buffer_idx c' = 1 \<and> is_buffer c' ! 0 = b)"
  using assms by (simp add: awaits_payload_def collect_segment collect_data_step isdu_collect_data_def Let_def)

section \<open>The response on the wire\<close>

lemma decode_encode_segments:
  "bs \<noteq> [] \<Longrightarrow> s AND 0x3F = s \<Longrightarrow> decode_segments st s (encode_segments st s bs) = Some bs"
proof (induction bs arbitrary: st s)
  case (Cons b bs)
  then show ?case by (cases "bs = []") simp_all
qed simp

lemma drain_append_two:
  "get c = Some (x, c1) \<Longrightarrow> get c1 = Some (y, c2) \<Longrightarrow>
     drain get (Suc (Suc n)) c = map_option (\<lambda>(r, t). (x # y # r, t)) (drain get n c2)"
  by (cases "drain get n c2") auto

lemma drain_response:
  assumes "is_state c = ISDU_STATE_RESPONSE_READY" and "\<not> is_response_control_sent c"
    and "is_response_idx c + length bs = is_response_len c" and "bs \<noteq> []"
    and "is_response_len c \<le> 255" and "length (is_response_buf c) = 256"
    and "bs = drop (is_response_idx c) (take (is_response_len c) (is_response_buf c))"
  shows "runs (drain iolink_isdu_get_response_byte (2 * length bs) c) (\<lambda>(out, c').
     out = map Some (encode_segments (is_response_idx c = 0) (is_segment_seq c) bs) \<and>
     is_state c' = ISDU_STATE_IDLE \<and> isdu_bindings c' = isdu_bindings c)"
  using assms
proof (induction bs arbitrary: c)
  case (Cons b bs)
  let ?i = "is_response_idx c" and ?n = "is_response_len c"
  have i: "?i < ?n" "?i < 256" using Cons.prems(3,5) by auto
  have last: "?n \<le> Suc ?i \<longleftrightarrow> bs = []" using Cons.prems(3) by (cases bs) auto
  have "drop ?i (take ?n (is_response_buf c))
      = is_response_buf c ! ?i # drop (Suc ?i) (take ?n (is_response_buf c))"
    using i Cons.prems(5,6) by (simp add: Cons_nth_drop_Suc [symmetric])
  then have b: "is_response_buf c ! ?i = b" and rest: "bs = drop (Suc ?i) (take ?n (is_response_buf c))"
    using Cons.prems(7) by simp_all
  define c1 where "c1 = c\<lparr>is_response_control_sent := True\<rparr>"
  define c2 where "c2 = c1\<lparr>is_response_idx := Suc ?i\<rparr>"
  define c3 where "c3 = (if bs = [] then c2\<lparr>is_state := ISDU_STATE_IDLE\<rparr>
    else c2\<lparr>is_response_control_sent := False, is_segment_seq := next_seq (is_segment_seq c)\<rparr>)"
  have g1: "iolink_isdu_get_response_byte c = Some (Some (mk_ctrl (?i = 0) (bs = []) (is_segment_seq c)), c1)"
    using Cons.prems(1,2,5) i last
    by (simp add: iolink_isdu_get_response_byte_def c1_def mk_ctrl_def Let_def)
  have g2: "iolink_isdu_get_response_byte c1 = Some (Some b, c3)"
    using Cons.prems(1,6) i b last
    by (simp add: iolink_isdu_get_response_byte_def c1_def c2_def c3_def Let_def next_seq_def)
  show ?case
  proof (cases "bs = []")
    case True
    then show ?thesis
      using g1 g2 by (simp add: drain_append_two numeral_2_eq_2 c3_def c2_def c1_def isdu_bindings_def)
  next
    case False
    have "runs (drain iolink_isdu_get_response_byte (2 * length bs) c3) (\<lambda>(out, c').
     out = map Some (encode_segments (is_response_idx c3 = 0) (is_segment_seq c3) bs) \<and>
     is_state c' = ISDU_STATE_IDLE \<and> isdu_bindings c' = isdu_bindings c3)"
      using Cons.prems False rest by (intro Cons.IH) (simp_all add: c3_def c2_def c1_def)
    then show ?thesis
      using g1 g2 False
      by (simp add: drain_append_two c3_def c2_def c1_def isdu_bindings_def)
         (auto elim!: runs_mono)
  qed
qed simp

section \<open>Interrupted transfers\<close>

text \<open>Between two segments only a control byte without start flag and with the next number is accepted.\<close>

definition segment_error :: "iolink_isdu_ctx \<Rightarrow> u8 \<Rightarrow> u8 option" where
  "segment_error c b =
     (if ctrl_start b then Some IOLINK_ISDU_ERROR_BUSY
      else if ctrl_seq b \<noteq> next_seq (is_segment_seq c) then Some IOLINK_ISDU_ERROR_SEGMENTATION else None)"

lemma collect_segment_error:
  assumes "is_state c = ISDU_STATE_SEGMENT_COLLECT" and "length (is_response_buf c) = 256"
    and "segment_error c b = Some e"
  shows "runs (iolink_isdu_collect_byte c b) (\<lambda>(r, c').
     is_state c' = ISDU_STATE_RESPONSE_READY \<and> \<not> is_response_control_sent c' \<and>
     is_response_idx c' = 0 \<and> is_response_len c' = 2 \<and> take 2 (is_response_buf c') = [0x80, e] \<and>
     is_segment_seq c' = (if ctrl_start b then is_segment_seq c else 0) \<and>
     length (is_response_buf c') = 256 \<and> isdu_bindings c' = isdu_bindings c)"
  using assms
  by (auto simp: iolink_isdu_collect_byte_def isdu_collect_control_def Let_def isdu_reply_eq
      segment_error_def next_seq_def isdu_bindings_def split: if_splits)

section \<open>Correctness of the transport\<close>

text \<open>
  C18: A request the master sends byte by byte, whatever its start sequence number, is received
  intact if it is a read or a write of 1 to 255 bytes.  From idle or from a response that is
  still pending, an engine that collects \<open>encode_request seq r\<close> then ends ready to execute exactly
  \<open>r\<close>: service, index, subindex, length and payload.  A write of no bytes is not: the engine goes on
  waiting, and whatever byte the next segment brings becomes its payload and is executed.  In
  either case no buffer access is out of range, and the bindings and pending resets are unchanged.
\<close>

theorem isdu_request_roundtrip:
  assumes "isdu_wf c" and "is_state c = ISDU_STATE_IDLE \<or> is_state c = ISDU_STATE_RESPONSE_READY"
    and "request_fits r"
  shows "runs (collect_all c (encode_request seq r)) (\<lambda>c'. isdu_bindings c' = isdu_bindings c \<and>
     (if request_ok r then is_state c' = ISDU_STATE_SERVICE_EXECUTE \<and> holds_request r c'
      else awaits_payload c' \<and>
        (\<forall>la b. runs (collect_all c' [mk_ctrl False la (next_seq (is_segment_seq c')), b]) (\<lambda>c2.
           is_state c2 = ISDU_STATE_SERVICE_EXECUTE \<and> is_buffer_idx c2 = 1 \<and> is_buffer c2 ! 0 = b))))"
proof (cases "request_ok r")
  case True
  then show ?thesis
    using collect_request [OF assms(1,2), of r seq] by (auto elim!: runs_mono)
next
  case False
  then obtain i sub where r: "r = WriteReq i sub []" using assms(3) by (cases r) (auto simp: Suc_le_eq)
  have "length (is_buffer c) = 256" using assms(1) by (simp add: isdu_wf_def)
  from collect_empty_write [OF assms(2) this, of seq i sub] show ?thesis
    unfolding r by (rule runs_mono) (simp add: awaits_payload_takes_byte del: collect_all_simps One_nat_def)
qed

lemma isdu_request_roundtrip_witness:
  "runs (collect_all zero_isdu_ctx (encode_request 5 (WriteReq 0x18 0 [1, 2, 3]))) (\<lambda>c'.
     is_state c' = ISDU_STATE_SERVICE_EXECUTE \<and> holds_request (WriteReq 0x18 0 [1, 2, 3]) c' \<and>
     isdu_bindings c' = isdu_bindings zero_isdu_ctx) \<and>
   runs (collect_all zero_isdu_ctx (encode_request 5 (WriteReq 0x18 0 []))) awaits_payload"
proof -
  have z: "isdu_wf zero_isdu_ctx" "is_state zero_isdu_ctx = ISDU_STATE_IDLE \<or> is_state zero_isdu_ctx = ISDU_STATE_RESPONSE_READY"
    by (simp_all add: zero_isdu_ctx_def isdu_wf_unfold)
  show ?thesis
    using isdu_request_roundtrip [OF z, of "WriteReq 0x18 0 [1, 2, 3]" 5] isdu_request_roundtrip [OF z, of "WriteReq 0x18 0 []" 5]
    by (auto elim!: runs_mono simp del: collect_all_simps)
qed

text \<open>
  C19: A response that is ready is sent completely and in order.  Twice as many calls of
  \<^verbatim>\<open>iolink_isdu_get_response_byte\<close> as the response has bytes hand out bytes from which the master
  decodes exactly the response, after which the engine is idle again.
\<close>

theorem isdu_response_roundtrip:
  assumes "isdu_wf c" and "is_state c = ISDU_STATE_RESPONSE_READY" and "\<not> is_response_control_sent c"
    and "is_response_idx c = 0" and "0 < is_response_len c" and "is_segment_seq c AND 0x3F = is_segment_seq c"
  shows "runs (drain iolink_isdu_get_response_byte (2 * is_response_len c) c) (\<lambda>(out, c').
     None \<notin> set out \<and>
     decode_segments True (is_segment_seq c) (map the out) = Some (take (is_response_len c) (is_response_buf c)) \<and>
     is_state c' = ISDU_STATE_IDLE)"
proof -
  let ?bs = "take (is_response_len c) (is_response_buf c)"
  have len: "length ?bs = is_response_len c" using assms(1) by (simp add: isdu_wf_def)
  then have ne: "?bs \<noteq> []" using assms(5) by auto
  have "runs (drain iolink_isdu_get_response_byte (2 * length ?bs) c) (\<lambda>(out, c').
     out = map Some (encode_segments (is_response_idx c = 0) (is_segment_seq c) ?bs) \<and>
     is_state c' = ISDU_STATE_IDLE \<and> isdu_bindings c' = isdu_bindings c)"
    using assms(1-4) len ne by (intro drain_response) (simp_all add: isdu_wf_def)
  then show ?thesis
    unfolding len
    by (rule runs_mono) (use ne assms(4,6) decode_encode_segments in \<open>auto simp: comp_def\<close>)
qed

lemma isdu_response_roundtrip_witness:
  "runs (drain iolink_isdu_get_response_byte (2 * 3)
        (zero_isdu_ctx\<lparr>is_state := ISDU_STATE_RESPONSE_READY, is_response_len := 3\<rparr>)) (\<lambda>(out, c').
     None \<notin> set out \<and> decode_segments True 0 (map the out) = Some [0, 0, 0] \<and>
     is_state c' = ISDU_STATE_IDLE)"
  using isdu_response_roundtrip
    [of "zero_isdu_ctx\<lparr>is_state := ISDU_STATE_RESPONSE_READY, is_response_len := 3\<rparr>"]
  by (simp add: zero_isdu_ctx_def isdu_wf_unfold numeral_3_eq_3)

text \<open>
  C30: A transfer that is interrupted between two segments, by a new start flag or by a wrong
  sequence number, is answered: the master reads the two-byte error response (busy, or
  segmentation error) and the engine returns to idle.
\<close>

theorem isdu_interrupt_answered:
  assumes "isdu_wf c" and "is_state c = ISDU_STATE_SEGMENT_COLLECT" and "segment_error c b = Some e"
  shows "runs (iolink_isdu_collect_byte c b \<bind> (\<lambda>(r, c'). drain iolink_isdu_get_response_byte 4 c'))
    (\<lambda>(out, c'). out = map Some (encode_segments True (if ctrl_start b then is_segment_seq c else 0) [0x80, e]) \<and>
       is_state c' = ISDU_STATE_IDLE)"
proof -
  have "runs (iolink_isdu_collect_byte c b) (\<lambda>(r, c').
     is_state c' = ISDU_STATE_RESPONSE_READY \<and> \<not> is_response_control_sent c' \<and>
     is_response_idx c' = 0 \<and> is_response_len c' = 2 \<and> take 2 (is_response_buf c') = [0x80, e] \<and>
     is_segment_seq c' = (if ctrl_start b then is_segment_seq c else 0) \<and>
     length (is_response_buf c') = 256 \<and> isdu_bindings c' = isdu_bindings c)"
    using assms by (intro collect_segment_error) (auto simp: isdu_wf_def)
  then show ?thesis
  proof (rule runs_bindI)
    fix p
    assume p: "case p of (r, c') \<Rightarrow>
      is_state c' = ISDU_STATE_RESPONSE_READY \<and> \<not> is_response_control_sent c' \<and>
      is_response_idx c' = 0 \<and> is_response_len c' = 2 \<and> take 2 (is_response_buf c') = [0x80, e] \<and>
      is_segment_seq c' = (if ctrl_start b then is_segment_seq c else 0) \<and>
      length (is_response_buf c') = 256 \<and> isdu_bindings c' = isdu_bindings c"
    obtain r c' where rc: "p = (r, c')" by (cases p)
    have "runs (drain iolink_isdu_get_response_byte (2 * length [0x80, e]) c') (\<lambda>(out, c'').
       out = map Some (encode_segments (is_response_idx c' = 0) (is_segment_seq c') [0x80, e]) \<and>
       is_state c'' = ISDU_STATE_IDLE \<and> isdu_bindings c'' = isdu_bindings c')"
      using p rc by (intro drain_response) auto
    then show "runs (case p of (r, c') \<Rightarrow> drain iolink_isdu_get_response_byte 4 c')
      (\<lambda>(out, c'). out = map Some (encode_segments True (if ctrl_start b then is_segment_seq c else 0) [0x80, e]) \<and>
         is_state c' = ISDU_STATE_IDLE)"
      using p rc by (auto elim!: runs_mono simp del: encode_segments.simps)
  qed
qed

lemma isdu_interrupt_answered_witness:
  "runs (iolink_isdu_collect_byte (zero_isdu_ctx\<lparr>is_state := ISDU_STATE_SEGMENT_COLLECT\<rparr>) 0x05
      \<bind> (\<lambda>(r, c'). drain iolink_isdu_get_response_byte 4 c'))
    (\<lambda>(out, c'). out = map Some (encode_segments True 0 [0x80, IOLINK_ISDU_ERROR_SEGMENTATION]) \<and>
       is_state c' = ISDU_STATE_IDLE)"
  using isdu_interrupt_answered [of "zero_isdu_ctx\<lparr>is_state := ISDU_STATE_SEGMENT_COLLECT\<rparr>" 5
      IOLINK_ISDU_ERROR_SEGMENTATION]
  by (simp add: zero_isdu_ctx_def isdu_wf_unfold segment_error_def ctrl_start_def ctrl_seq_def next_seq_def)

end
