(* ===== verification/Events.thy ===== *)
theory Events
  imports Iol_Prelude
begin

text \<open>
  \<^verbatim>\<open>src/events.c\<close> and \<^verbatim>\<open>include/iolinki/events.h\<close>: the queue of diagnostic events, a ring
  buffer of \<^verbatim>\<open>IOLINK_EVENT_QUEUE_SIZE\<close> entries that drops its oldest entry when it is full.
  The operations on a context are followed by their pointer-level versions (suffix \<open>_p\<close>), which
  add the NULL checks.  Each operation is one atomic step here; \<open>Critical_Sections\<close> takes them apart
  into single accesses and shows when they may be regarded as atomic.
  The interface the other components rely on is the locale \<open>drop_oldest_queue\<close>; its
  interpretation \<open>evq\<close> on the ring buffer is at the end.
\<close>

section \<open>Data\<close>

definition IOLINK_EVENT_QUEUE_SIZE :: nat where
  [simp]: "IOLINK_EVENT_QUEUE_SIZE = 4"

datatype iolink_event_type =
    IOLINK_EVENT_TYPE_NOTIFICATION
  | IOLINK_EVENT_TYPE_WARNING
  | IOLINK_EVENT_TYPE_ERROR

record iolink_event =
  ev_code :: u16
  ev_type :: iolink_event_type

record iolink_events_ctx =
  ev_queue :: "iolink_event list"
  ev_head :: u8
  ev_tail :: u8
  ev_count :: u8

definition zero_event :: iolink_event where
  "zero_event = \<lparr>ev_code = 0, ev_type = IOLINK_EVENT_TYPE_NOTIFICATION\<rparr>"

text \<open>The context after \<^verbatim>\<open>memset(ctx, 0, sizeof *ctx)\<close>.\<close>

definition zero_events_ctx :: iolink_events_ctx where
  "zero_events_ctx =
     \<lparr>ev_queue = replicate IOLINK_EVENT_QUEUE_SIZE zero_event, ev_head = 0, ev_tail = 0, ev_count = 0\<rparr>"

section \<open>Operations\<close>

definition iolink_events_init :: "iolink_events_ctx ptr \<Rightarrow> iolink_events_ctx ptr" where
  "iolink_events_init ctx = snd (iolink_ctx_zero zero_events_ctx ctx)"

text \<open>\<^verbatim>\<open>(uint8_t)((i + 1U) % IOLINK_EVENT_QUEUE_SIZE)\<close>, and the general slot number.\<close>

definition ev_slot :: "u8 \<Rightarrow> nat \<Rightarrow> u8" where
  "ev_slot i k = word_of_nat ((unat i + k) mod IOLINK_EVENT_QUEUE_SIZE)"

definition iolink_event_trigger ::
  "iolink_events_ctx \<Rightarrow> u16 \<Rightarrow> iolink_event_type \<Rightarrow> iolink_events_ctx option" where
  "iolink_event_trigger ctx code ty =
     (let ctx = (if unat (ev_count ctx) \<ge> IOLINK_EVENT_QUEUE_SIZE
                 then ctx\<lparr>ev_head := ev_slot (ev_head ctx) 1, ev_count := ev_count ctx - 1\<rparr>
                 else ctx)
      in do {
        q \<leftarrow> arr_set (ev_queue ctx) (unat (ev_tail ctx)) \<lparr>ev_code = code, ev_type = ty\<rparr>;
        Some (ctx\<lparr>ev_queue := q, ev_tail := ev_slot (ev_tail ctx) 1, ev_count := ev_count ctx + 1\<rparr>)
      })"

definition iolink_event_trigger_p ::
  "iolink_events_ctx ptr \<Rightarrow> u16 \<Rightarrow> iolink_event_type \<Rightarrow> (unit \<times> iolink_events_ctx ptr) option" where
  "iolink_event_trigger_p ctx code ty =
     with_ptr () (\<lambda>c. map_option (Pair ()) (iolink_event_trigger c code ty)) ctx"

definition iolink_events_pending :: "iolink_events_ctx ptr \<Rightarrow> bool" where
  "iolink_events_pending ctx = (ctx \<noteq> NULL \<and> ev_count (deref ctx) > 0)"

text \<open>
  The out-parameter \<^verbatim>\<open>event\<close> and the boolean result together: \<open>Some e\<close> for true with
  \<^verbatim>\<open>*event = e\<close>, \<open>None\<close> for false with \<^verbatim>\<open>*event\<close> untouched.
\<close>

definition iolink_events_pop ::
  "iolink_events_ctx \<Rightarrow> (iolink_event option \<times> iolink_events_ctx) option" where
  "iolink_events_pop ctx =
     (if ev_count ctx > 0 then do {
        e \<leftarrow> arr_get (ev_queue ctx) (unat (ev_head ctx));
        Some (Some e, ctx\<lparr>ev_head := ev_slot (ev_head ctx) 1, ev_count := ev_count ctx - 1\<rparr>) }
      else Some (None, ctx))"

definition iolink_events_pop_p ::
  "iolink_events_ctx ptr \<Rightarrow> bool \<Rightarrow> (iolink_event option \<times> iolink_events_ctx ptr) option" where
  "iolink_events_pop_p ctx event_is_null =
     (if ctx = NULL \<or> event_is_null then Some (None, ctx) else with_ptr None iolink_events_pop ctx)"

definition iolink_events_peek :: "iolink_events_ctx \<Rightarrow> iolink_event option option" where
  "iolink_events_peek ctx =
     (if ev_count ctx > 0 then map_option Some (arr_get (ev_queue ctx) (unat (ev_head ctx)))
      else Some None)"

definition iolink_events_peek_p ::
  "iolink_events_ctx ptr \<Rightarrow> bool \<Rightarrow> iolink_event option option" where
  "iolink_events_peek_p ctx event_is_null =
     (if ctx = NULL \<or> event_is_null then Some None else iolink_events_peek (deref ctx))"

definition event_severity :: "iolink_event_type \<Rightarrow> u8" where
  "event_severity ty =
     (case ty of IOLINK_EVENT_TYPE_NOTIFICATION \<Rightarrow> 1
      | IOLINK_EVENT_TYPE_WARNING \<Rightarrow> 2
      | IOLINK_EVENT_TYPE_ERROR \<Rightarrow> 3)"

definition iolink_events_get_highest_severity :: "iolink_events_ctx ptr \<Rightarrow> u8 option" where
  "iolink_events_get_highest_severity ctx =
     (case ctx of NULL \<Rightarrow> Some 0
      | Ref c \<Rightarrow>
         if ev_count c = 0 then Some 0
         else for_loop (unat (ev_count c))
                (\<lambda>i highest. do {
                   e \<leftarrow> arr_get (ev_queue c) (unat (ev_slot (ev_head c) i));
                   let severity = event_severity (ev_type e);
                   Some (if severity > highest then severity else highest) }) 0)"

text \<open>\<^verbatim>\<open>out_events\<close> is an array of \<open>length out\<close> entries; the result is the new array and the count.\<close>

definition iolink_events_get_all ::
  "iolink_events_ctx ptr \<Rightarrow> iolink_event list ptr \<Rightarrow> u8 \<Rightarrow> (u8 \<times> iolink_event list ptr) option" where
  "iolink_events_get_all ctx out_events max_count =
     (case (ctx, out_events) of
        (Ref c, Ref out) \<Rightarrow>
          if max_count = 0 then Some (0, out_events)
          else (let count = ev_count c;
                    to_copy = (if count < max_count then count else max_count)
                in map_option (\<lambda>(copied, out). (copied, Ref out))
                     (for_loop (unat to_copy)
                        (\<lambda>i (copied, out). do {
                           e \<leftarrow> arr_get (ev_queue c) (unat (ev_slot (ev_head c) i));
                           out \<leftarrow> arr_set out i e;
                           Some (copied + 1, out) }) (0, out)))
      | _ \<Rightarrow> Some (0, out_events))"

section \<open>Invariant and abstraction to a list\<close>

definition events_wf :: "iolink_events_ctx \<Rightarrow> bool" where
  [wf_defs]: "events_wf c \<longleftrightarrow>
     length (ev_queue c) = IOLINK_EVENT_QUEUE_SIZE \<and>
     unat (ev_head c) < IOLINK_EVENT_QUEUE_SIZE \<and>
     unat (ev_count c) \<le> IOLINK_EVENT_QUEUE_SIZE \<and>
     ev_tail c = ev_slot (ev_head c) (unat (ev_count c))"

text \<open>The \<open>n\<close> entries of a ring from slot \<open>h\<close> on.\<close>

definition ring :: "'a list \<Rightarrow> nat \<Rightarrow> nat \<Rightarrow> 'a list" where
  "ring q h n = map (\<lambda>i. q ! ((h + i) mod length q)) [0..<n]"

lemma length_ring [simp]: "length (ring q h n) = n"
  by (simp add: ring_def)

lemma ring_push:
  assumes "n < length q"
  shows "ring (q[(h + n) mod length q := x]) h (Suc n) = ring q h n @ [x]"
proof -
  have "(h + n) mod length q \<noteq> (h + i) mod length q" if "i < n" for i
  proof
    assume "(h + n) mod length q = (h + i) mod length q"
    then have "length q dvd (h + n) - (h + i)"
      using that by (metis mod_eq_dvd_iff_nat add_le_cancel_left less_imp_le)
    with that assms show False by (auto dest: dvd_imp_le)
  qed
  moreover have "(h + n) mod length q < length q"
    using assms by (intro mod_less_divisor) linarith
  ultimately show ?thesis by (auto simp: ring_def)
qed

lemma ring_tl: "tl (ring q h n) = ring q (Suc h mod length q) (n - 1)"
  by (cases n) (simp_all add: ring_def upt_conv_Cons map_Suc_upt [symmetric] mod_simps
      del: upt_Suc)

lemma front_ring: "0 < n \<Longrightarrow> h < length q \<Longrightarrow> ring q h n = q ! h # tl (ring q h n)"
  by (cases n) (simp_all add: ring_def upt_conv_Cons del: upt_Suc)

text \<open>The pending events, oldest first.\<close>

definition events_list :: "iolink_events_ctx \<Rightarrow> iolink_event list" where
  "events_list c = ring (ev_queue c) (unat (ev_head c)) (unat (ev_count c))"

lemma unat_ev_slot [simp]: "unat (ev_slot i k) = (unat i + k) mod 4"
  by (simp add: ev_slot_def)

lemma length_events_list [simp]: "length (events_list c) = unat (ev_count c)"
  by (simp add: events_list_def)

lemma events_list_empty_iff: "events_list c = [] \<longleftrightarrow> ev_count c = 0"
  using length_0_conv [of "events_list c"] by simp

section \<open>The queue interface\<close>

text \<open>A bounded queue that makes room by dropping its oldest entry.\<close>

definition push_drop :: "nat \<Rightarrow> 'a list \<Rightarrow> 'a \<Rightarrow> 'a list" where
  "push_drop cap xs x = (if cap \<le> length xs then tl xs else xs) @ [x]"

definition front :: "'a list \<Rightarrow> 'a option" where
  "front xs = (case xs of [] \<Rightarrow> None | x # _ \<Rightarrow> Some x)"

lemma front_simps [simp]: "front [] = None" "front (x # xs) = Some x"
  by (simp_all add: front_def)

locale drop_oldest_queue =
  fixes cap :: nat
    and invar :: "'q \<Rightarrow> bool"
    and contents :: "'q \<Rightarrow> 'a list"
    and empty :: 'q
    and push :: "'q \<Rightarrow> 'a \<Rightarrow> 'q option"
    and pop :: "'q \<Rightarrow> ('a option \<times> 'q) option"
  assumes cap_pos: "0 < cap"
    and invar_empty: "invar empty"
    and contents_empty: "contents empty = []"
    and length_contents: "invar q \<Longrightarrow> length (contents q) \<le> cap"
    and push_law: "invar q \<Longrightarrow>
      runs (push q x) (\<lambda>q'. invar q' \<and> contents q' = push_drop cap (contents q) x)"
    and pop_law: "invar q \<Longrightarrow>
      runs (pop q) (\<lambda>(r, q'). invar q' \<and> r = front (contents q) \<and> contents q' = tl (contents q))"
begin

text \<open>After any number of pushes the queue holds the newest \<open>cap\<close> of everything offered.\<close>

lemma push_all:
  assumes "invar q"
  shows "runs (fold_opt push q xs)
           (\<lambda>q'. invar q' \<and>
              contents q' = drop (length (contents q @ xs) - cap) (contents q @ xs))"
  using assms
proof (induction xs arbitrary: q)
  case Nil
  then show ?case using length_contents by simp
next
  case (Cons x xs)
  have "runs (fold_opt push q1 xs)
          (\<lambda>q'. invar q' \<and> contents q' = drop (length (contents q @ x # xs) - cap) (contents q @ x # xs))"
    if q1: "invar q1" "contents q1 = push_drop cap (contents q) x" for q1
  proof (cases "length (contents q) < cap")
    case True
    then show ?thesis
      using Cons.IH [OF q1(1)] q1(2) by (simp add: push_drop_def)
  next
    case False
    then have len: "length (contents q) = cap"
      using length_contents [OF Cons.prems] by simp
    with cap_pos obtain y ys where ys: "contents q = y # ys" by (cases "contents q") auto
    with False q1(2) have "contents q1 = ys @ [x]" by (simp add: push_drop_def)
    moreover from len ys have "cap = Suc (length ys)" by simp
    ultimately show ?thesis
      using Cons.IH [OF q1(1)] ys by simp
  qed
  with push_law [OF Cons.prems, of x] show ?case
    by (auto elim: runs_mono)
qed

text \<open>Popping returns the contents oldest first, and nothing once the queue is empty.\<close>

lemma drain_contents:
  assumes "invar q"
  shows "runs (drain pop n q)
           (\<lambda>(rs, q'). invar q' \<and>
              rs = map Some (take n (contents q)) @ replicate (n - length (contents q)) None \<and>
              contents q' = drop n (contents q))"
  using assms
proof (induction n arbitrary: q)
  case 0
  then show ?case by simp
next
  case (Suc n)
  from pop_law [OF Suc.prems] show ?case
  proof (simp, elim runs_mono, clarify)
    fix q1 assume q1: "invar q1" "contents q1 = tl (contents q)"
    from Suc.IH [OF q1(1)]
    show "runs (drain pop n q1)
            (\<lambda>x. case case x of (rs, t) \<Rightarrow> (front (contents q) # rs, t) of
               (rs, q') \<Rightarrow> invar q' \<and>
                 rs = map Some (take (Suc n) (contents q)) @
                        replicate (Suc n - length (contents q)) None \<and>
                 contents q' = drop (Suc n) (contents q))"
      by (rule runs_mono) (cases "contents q"; auto simp: q1(2))
  qed
qed

end

section \<open>The ring buffer implements the interface\<close>

definition push_event :: "iolink_events_ctx \<Rightarrow> iolink_event \<Rightarrow> iolink_events_ctx option" where
  "push_event c e = iolink_event_trigger c (ev_code e) (ev_type e)"

lemma events_wf_zero [simp]: "events_wf zero_events_ctx"
  by (simp add: events_wf_def zero_events_ctx_def ev_slot_def)

lemma events_list_zero [simp]: "events_list zero_events_ctx = []"
  by (simp add: events_list_empty_iff zero_events_ctx_def)

lemma iolink_event_trigger_room:
  assumes "events_wf c" and "unat (ev_count c) < 4"
  shows "runs (iolink_event_trigger c code ty)
    (\<lambda>c'. events_wf c' \<and> events_list c' = events_list c @ [\<lparr>ev_code = code, ev_type = ty\<rparr>])"
proof -
  have cnt: "unat (ev_count c + 1) = Suc (unat (ev_count c))"
    using assms(2) by (simp add: unat_u8_Suc)
  have "ring ((ev_queue c)[(unat (ev_head c) + unat (ev_count c)) mod length (ev_queue c) := e])
          (unat (ev_head c)) (Suc (unat (ev_count c))) = events_list c @ [e]" for e
    using ring_push [of "unat (ev_count c)" "ev_queue c"] assms
    by (simp add: events_list_def events_wf_def)
  with assms show ?thesis
    by (simp add: iolink_event_trigger_def Let_def events_wf_def events_list_def cnt)
       (simp add: ev_slot_def mod_simps)
qed

lemma events_drop_oldest:
  assumes "events_wf c" and "0 < unat (ev_count c)"
  defines "c' \<equiv> c\<lparr>ev_head := ev_slot (ev_head c) 1, ev_count := ev_count c - 1\<rparr>"
  shows "events_wf c'" and "events_list c' = tl (events_list c)"
    and "unat (ev_count c') = unat (ev_count c) - 1"
proof -
  have "0 < n \<Longrightarrow> (h + n) mod 4 = (Suc h mod 4 + (n - 1)) mod 4" for h n :: nat
    by (cases n) (simp_all add: mod_simps)
  note this [OF assms(2), of "unat (ev_head c)"]
  with assms show "events_wf c'" "events_list c' = tl (events_list c)"
    "unat (ev_count c') = unat (ev_count c) - 1"
    by (simp_all add: events_wf_def events_list_def ring_tl unat_u8_pred) (auto simp: ev_slot_def)
qed

lemma iolink_event_trigger_law:
  assumes "events_wf c"
  shows "runs (iolink_event_trigger c code ty)
    (\<lambda>c'. events_wf c' \<and>
       events_list c' = push_drop IOLINK_EVENT_QUEUE_SIZE (events_list c) \<lparr>ev_code = code, ev_type = ty\<rparr>)"
proof (cases "unat (ev_count c) < 4")
  case True
  with iolink_event_trigger_room [OF assms] show ?thesis by (simp add: push_drop_def)
next
  case False
  let ?c' = "c\<lparr>ev_head := ev_slot (ev_head c) 1, ev_count := ev_count c - 1\<rparr>"
  from assms False have four: "unat (ev_count c) = 4" by (simp add: events_wf_def)
  then have "iolink_event_trigger c code ty = iolink_event_trigger ?c' code ty"
    by (simp add: iolink_event_trigger_def Let_def unat_u8_pred)
  with iolink_event_trigger_room [of ?c'] events_drop_oldest [OF assms] four show ?thesis
    by (simp add: push_drop_def)
qed

lemma iolink_events_pop_law:
  assumes "events_wf c"
  shows "runs (iolink_events_pop c)
    (\<lambda>(r, c'). events_wf c' \<and> r = front (events_list c) \<and> events_list c' = tl (events_list c))"
proof (cases "ev_count c = 0")
  case True
  then show ?thesis
    using assms events_list_empty_iff [of c] by (simp add: iolink_events_pop_def)
next
  case False
  then have "0 < unat (ev_count c)" by (metis gr0I unat_u8_0_iff)
  with assms have "events_list c = ev_queue c ! unat (ev_head c) # tl (events_list c)"
    unfolding events_list_def by (intro front_ring) (simp_all add: events_wf_def)
  then have "front (events_list c) = Some (ev_queue c ! unat (ev_head c))"
    by (metis front_simps(2))
  with False assms events_drop_oldest [OF assms \<open>0 < unat (ev_count c)\<close>] show ?thesis
    by (simp add: iolink_events_pop_def events_wf_def word_gt_0)
qed

interpretation evq: drop_oldest_queue
  IOLINK_EVENT_QUEUE_SIZE events_wf events_list zero_events_ctx push_event iolink_events_pop
proof
  show "runs (push_event q x)
      (\<lambda>q'. events_wf q' \<and> events_list q' = push_drop IOLINK_EVENT_QUEUE_SIZE (events_list q) x)"
    if "events_wf q" for q x
    using iolink_event_trigger_law [OF that, of "ev_code x" "ev_type x"]
    by (cases x) (simp add: push_event_def)
qed (simp_all add: iolink_events_pop_law, simp add: events_wf_def)

lemmas events_laws = iolink_event_trigger_law iolink_events_pop_law

lemma iolink_event_trigger_wf:
  "events_wf c \<Longrightarrow> runs (iolink_event_trigger c code ty) events_wf"
  by (rule runs_mono [OF iolink_event_trigger_law]) simp_all

section \<open>Reading the queue without changing it\<close>

lemma iolink_events_peek_eq:
  assumes "events_wf c"
  shows "iolink_events_peek c = Some (front (events_list c))"
proof -
  from iolink_events_pop_law [OF assms] obtain c' where
    "iolink_events_pop c = Some (front (events_list c), c')"
    by (auto elim!: runsE)
  then show ?thesis
    by (auto simp: iolink_events_pop_def iolink_events_peek_def arr_get_def split: if_splits)
qed

text \<open>The \<open>i\<close>-th slot the read loops visit holds the \<open>i\<close>-th oldest event.\<close>

lemma events_slot_nth:
  assumes "events_wf c" and "i < unat (ev_count c)"
  shows "arr_get (ev_queue c) (unat (ev_slot (ev_head c) i)) = Some (events_list c ! i)"
  using assms by (simp add: events_wf_def events_list_def ring_def)

lemma highest_severity_loop:
  assumes "events_wf c" and "n \<le> unat (ev_count c)"
  shows "for_loop n
           (\<lambda>i highest. do {
              e \<leftarrow> arr_get (ev_queue c) (unat (ev_slot (ev_head c) i));
              let severity = event_severity (ev_type e);
              Some (if severity > highest then severity else highest) }) 0
         = Some (fold max (map (event_severity \<circ> ev_type) (take n (events_list c))) 0)"
  using assms(2)
proof (induction n)
  case (Suc n)
  then have "take (Suc n) (events_list c) = take n (events_list c) @ [events_list c ! n]"
    by (simp add: take_Suc_conv_app_nth)
  moreover have "(if m < b then b else m) = max b m" for b m :: u8
    by (auto simp: max_def)
  ultimately show ?case
    using Suc events_slot_nth [OF assms(1), of n] by (simp add: Let_def)
qed simp

lemma iolink_events_get_highest_severity_eq:
  assumes "events_wf c"
  shows "iolink_events_get_highest_severity (Ref c)
           = Some (Max (insert 0 ((event_severity \<circ> ev_type) ` set (events_list c))))"
proof -
  let ?sevs = "map (event_severity \<circ> ev_type) (events_list c)"
  have "iolink_events_get_highest_severity (Ref c) = Some (fold max ?sevs 0)"
    using highest_severity_loop [OF assms, of "unat (ev_count c)"] events_list_empty_iff [of c]
    by (auto simp: iolink_events_get_highest_severity_def)
  then show ?thesis
    using Max.set_eq_fold [of 0 ?sevs] by simp
qed

lemma get_all_loop:
  assumes "events_wf c" and "n \<le> unat (ev_count c)" and "n \<le> length out"
  shows "for_loop n
           (\<lambda>i (copied, out). do {
              e \<leftarrow> arr_get (ev_queue c) (unat (ev_slot (ev_head c) i));
              out \<leftarrow> arr_set out i e;
              Some (copied + 1, out) }) (0 :: u8, out)
         = Some (word_of_nat n, take n (events_list c) @ drop n out)"
  using assms(2,3)
proof (induction n)
  case (Suc n)
  then have "(take n (events_list c) @ drop n out)[n := events_list c ! n]
    = take (Suc n) (events_list c) @ drop (Suc n) out"
    by (simp add: take_Suc_conv_app_nth list_update_append Cons_nth_drop_Suc [symmetric])
  with Suc events_slot_nth [OF assms(1), of n] show ?case
    by (simp add: ac_simps)
qed simp

lemma iolink_events_get_all_eq:
  assumes "events_wf c" and "min (unat (ev_count c)) (unat max_count) \<le> length out"
  defines "n \<equiv> min (unat (ev_count c)) (unat max_count)"
  shows "iolink_events_get_all (Ref c) (Ref out) max_count
           = Some (word_of_nat n, Ref (take n (events_list c) @ drop n out))"
proof -
  have "unat (if ev_count c < max_count then ev_count c else max_count) = n"
    by (simp add: n_def min_def word_less_nat_alt word_le_nat_alt)
  then show ?thesis
    using get_all_loop [OF assms(1), of n out] assms(2)
    by (auto simp: iolink_events_get_all_def Let_def n_def)
qed

section \<open>Correctness of the event queue\<close>

text \<open>
  The queue keeps the newest events.  Whatever is triggered on a fresh queue, draining it
  returns the last four events, oldest first, then nothing: an overflow drops the oldest.
\<close>

theorem events_newest_in_order:
  "runs (do { c \<leftarrow> fold_opt push_event zero_events_ctx es; drain iolink_events_pop n c })
    (\<lambda>(rs, c'). let kept = drop (length es - 4) es in
       rs = map Some (take n kept) @ replicate (n - length kept) None \<and> events_list c' = drop n kept \<and> events_wf c')"
proof -
  have "runs (drain iolink_events_pop n c) (\<lambda>(rs, c'). let kept = drop (length es - 4) es in
       rs = map Some (take n kept) @ replicate (n - length kept) None \<and> events_list c' = drop n kept \<and> events_wf c')"
    if "events_wf c" "events_list c = drop (length es - 4) es" for c
    by (rule runs_mono [OF evq.drain_contents [OF that(1)]]) (use that(2) in \<open>auto simp: Let_def\<close>)
  then show ?thesis
    by (auto intro!: runs_mono [OF evq.push_all [OF events_wf_zero]])
qed

text \<open>
  The inspecting operations agree with the queue.  After any triggers, peek shows the oldest
  of the last four events, the copy-out returns as many of them as fit, oldest first, and the
  severity shown is the highest among them (0 for none); none of the calls fails.
\<close>

theorem events_inspection:
  assumes "unat max_count \<le> length out"
  shows "runs (fold_opt push_event zero_events_ctx es) (\<lambda>c. let kept = drop (length es - 4) es; n = min (length kept) (unat max_count) in
     iolink_events_peek c = Some (front kept) \<and>
     iolink_events_get_all (Ref c) (Ref out) max_count = Some (word_of_nat n, Ref (take n kept @ drop n out)) \<and>
     iolink_events_get_highest_severity (Ref c) = Some (Max (insert 0 ((event_severity \<circ> ev_type) ` set kept))) \<and>
     (iolink_events_pending (Ref c) \<longleftrightarrow> es \<noteq> []))"
proof -
  have "iolink_events_peek c = Some (front kept) \<and>
     iolink_events_get_all (Ref c) (Ref out) max_count = Some (word_of_nat (min (length kept) (unat max_count)), Ref (take (min (length kept) (unat max_count)) kept @ drop (min (length kept) (unat max_count)) out)) \<and>
     iolink_events_get_highest_severity (Ref c) = Some (Max (insert 0 ((event_severity \<circ> ev_type) ` set kept))) \<and>
     (iolink_events_pending (Ref c) \<longleftrightarrow> kept \<noteq> [])"
    if c: "events_wf c" "events_list c = kept" for c kept
  proof (intro conjI)
    have len: "unat (ev_count c) = length kept" using c(2) by (metis length_events_list)
    show "iolink_events_get_all (Ref c) (Ref out) max_count = Some (word_of_nat (min (length kept) (unat max_count)), Ref (take (min (length kept) (unat max_count)) kept @ drop (min (length kept) (unat max_count)) out))"
      using iolink_events_get_all_eq [OF c(1), of max_count out] assms c(2) by (simp add: len)
    show "iolink_events_pending (Ref c) \<longleftrightarrow> kept \<noteq> []"
      using events_list_empty_iff [of c] c(2) by (auto simp: iolink_events_pending_def word_gt_0)
  qed (use iolink_events_peek_eq [OF c(1)] iolink_events_get_highest_severity_eq [OF c(1)] c(2) in simp_all)
  note view = this
  define kept where "kept = drop (length es - 4) es"
  have "kept = [] \<longleftrightarrow> es = []" by (cases es) (auto simp: kept_def)
  then show ?thesis
    unfolding kept_def [symmetric] Let_def
    by (intro runs_mono [OF evq.push_all [OF events_wf_zero]]) (use view [of _ kept] in \<open>auto simp: kept_def\<close>)
qed

lemma events_inspection_witness:
  "runs (fold_opt push_event zero_events_ctx [\<lparr>ev_code = 0x1801, ev_type = IOLINK_EVENT_TYPE_WARNING\<rparr>])
     (\<lambda>c. iolink_events_get_highest_severity (Ref c) = Some 2)"
  by (rule runs_mono [OF events_inspection [of 1 "[zero_event]"]]) (auto simp: Let_def event_severity_def)

end
