(* ===== verification/Data_Storage.thy ===== *)
theory Data_Storage
  imports Protocol
begin

text \<open>
  \<^verbatim>\<open>src/data_storage.c\<close> and \<^verbatim>\<open>include/iolinki/data_storage.h\<close>: the Data Storage engine.  The
  bound storage implementation is an opaque handle: no function of \<^verbatim>\<open>data_storage.c\<close> calls through
  it.  The theory gives the operations, the Fletcher-16 checksum with its closed form, and the
  state machine as a step relation with its reachable states.
\<close>

section \<open>Data\<close>

datatype iolink_ds_state =
    IOLINK_DS_STATE_IDLE
  | IOLINK_DS_STATE_UPLOAD_REQ
  | IOLINK_DS_STATE_UPLOADING
  | IOLINK_DS_STATE_DOWNLOAD_REQ
  | IOLINK_DS_STATE_DOWNLOADING
  | IOLINK_DS_STATE_LOCKED

text \<open>The identity of a bound \<^verbatim>\<open>iolink_ds_storage_api_t\<close>.\<close>

type_synonym storage_handle = nat

record iolink_ds_ctx =
  ds_state :: iolink_ds_state
  ds_storage :: "storage_handle ptr"
  ds_current_checksum :: u16
  ds_master_checksum :: u16

definition zero_ds_ctx :: iolink_ds_ctx where
  "zero_ds_ctx =
     \<lparr>ds_state = IOLINK_DS_STATE_IDLE, ds_storage = NULL, ds_current_checksum = 0,
      ds_master_checksum = 0\<rparr>"

section \<open>Operations\<close>

definition iolink_ds_init :: "iolink_ds_ctx ptr \<Rightarrow> storage_handle ptr \<Rightarrow> iolink_ds_ctx ptr" where
  "iolink_ds_init ctx storage =
     (case iolink_ctx_zero zero_ds_ctx ctx of
        (True, Ref c) \<Rightarrow> Ref (c\<lparr>ds_storage := storage, ds_state := IOLINK_DS_STATE_IDLE\<rparr>)
      | (_, p) \<Rightarrow> p)"

text \<open>One iteration of the checksum loop, on \<open>(sum1, sum2)\<close>.\<close>

definition fletcher_step :: "u16 \<times> u16 \<Rightarrow> u8 \<Rightarrow> u16 \<times> u16" where
  "fletcher_step s b =
     (let sum1 = (fst s + ucast b) mod 255; sum2 = (snd s + sum1) mod 255 in (sum1, sum2))"

definition iolink_ds_calc_checksum :: "bytes ptr \<Rightarrow> nat \<Rightarrow> u16 option" where
  "iolink_ds_calc_checksum data len =
     (if \<not> iolink_buf_is_valid data len then Some 0
      else do {
        (sum1, sum2) \<leftarrow> for_loop len
          (\<lambda>i s. do {
             b \<leftarrow> (case data of NULL \<Rightarrow> None | Ref d \<Rightarrow> arr_get d i);
             Some (fletcher_step s b) }) (0, 0);
        Some (push_bit 8 sum2 OR sum1) })"

definition iolink_ds_check :: "iolink_ds_ctx \<Rightarrow> u16 \<Rightarrow> iolink_ds_ctx" where
  "iolink_ds_check ctx master_checksum =
     (let ctx = ctx\<lparr>ds_master_checksum := master_checksum\<rparr> in
      if ds_state ctx \<noteq> IOLINK_DS_STATE_IDLE then ctx
      else if master_checksum = 0 then ctx\<lparr>ds_state := IOLINK_DS_STATE_UPLOAD_REQ\<rparr>
      else if master_checksum \<noteq> ds_current_checksum ctx
        then ctx\<lparr>ds_state := IOLINK_DS_STATE_DOWNLOAD_REQ\<rparr>
      else ctx)"

definition iolink_ds_process :: "iolink_ds_ctx \<Rightarrow> iolink_ds_ctx" where
  "iolink_ds_process ctx =
     (case ds_state ctx of
        IOLINK_DS_STATE_UPLOAD_REQ \<Rightarrow> ctx\<lparr>ds_state := IOLINK_DS_STATE_UPLOADING\<rparr>
      | IOLINK_DS_STATE_UPLOADING \<Rightarrow> ctx\<lparr>ds_state := IOLINK_DS_STATE_IDLE\<rparr>
      | IOLINK_DS_STATE_DOWNLOAD_REQ \<Rightarrow> ctx\<lparr>ds_state := IOLINK_DS_STATE_DOWNLOADING\<rparr>
      | IOLINK_DS_STATE_DOWNLOADING \<Rightarrow>
          ctx\<lparr>ds_current_checksum := ds_master_checksum ctx, ds_state := IOLINK_DS_STATE_IDLE\<rparr>
      | _ \<Rightarrow> ctx\<lparr>ds_state := IOLINK_DS_STATE_IDLE\<rparr>)"

text \<open>The operations that return a code give the pair of the code and the new context.\<close>

definition iolink_ds_start_upload :: "iolink_ds_ctx \<Rightarrow> int \<times> iolink_ds_ctx" where
  "iolink_ds_start_upload ctx =
     (if ds_state ctx \<noteq> IOLINK_DS_STATE_IDLE then (-1, ctx)
      else (0, ctx\<lparr>ds_state := IOLINK_DS_STATE_UPLOAD_REQ\<rparr>))"

definition iolink_ds_start_download :: "iolink_ds_ctx \<Rightarrow> int \<times> iolink_ds_ctx" where
  "iolink_ds_start_download ctx =
     (if ds_state ctx \<noteq> IOLINK_DS_STATE_IDLE then (-1, ctx)
      else (0, ctx\<lparr>ds_state := IOLINK_DS_STATE_DOWNLOAD_REQ\<rparr>))"

definition iolink_ds_abort :: "iolink_ds_ctx \<Rightarrow> int \<times> iolink_ds_ctx" where
  "iolink_ds_abort ctx = (0, ctx\<lparr>ds_state := IOLINK_DS_STATE_IDLE\<rparr>)"

definition iolink_ds_handle_command ::
  "iolink_ds_ctx \<Rightarrow> u8 \<Rightarrow> u16 \<Rightarrow> int \<times> iolink_ds_ctx" where
  "iolink_ds_handle_command ctx cmd access_locks =
     (if (cmd = IOLINK_CMD_PARAM_DOWNLOAD_START \<or> cmd = IOLINK_CMD_PARAM_DOWNLOAD_END)
         \<and> access_locks AND IOLINK_LOCK_DS \<noteq> 0 then (-2, ctx)
      else if cmd = IOLINK_CMD_PARAM_UPLOAD_START then
        (if ds_state ctx \<noteq> IOLINK_DS_STATE_IDLE then (-1, ctx)
         else (0, ctx\<lparr>ds_state := IOLINK_DS_STATE_UPLOAD_REQ\<rparr>))
      else if cmd = IOLINK_CMD_PARAM_UPLOAD_END then
        (0, if ds_state ctx = IOLINK_DS_STATE_UPLOADING
            then ctx\<lparr>ds_state := IOLINK_DS_STATE_IDLE\<rparr> else ctx)
      else if cmd = IOLINK_CMD_PARAM_DOWNLOAD_START then
        (if ds_state ctx \<noteq> IOLINK_DS_STATE_IDLE then (-1, ctx)
         else (0, ctx\<lparr>ds_state := IOLINK_DS_STATE_DOWNLOAD_REQ\<rparr>))
      else if cmd = IOLINK_CMD_PARAM_DOWNLOAD_END then
        (0, if ds_state ctx = IOLINK_DS_STATE_DOWNLOADING
            then ctx\<lparr>ds_current_checksum := ds_master_checksum ctx, ds_state := IOLINK_DS_STATE_IDLE\<rparr>
            else ctx)
      else if cmd = IOLINK_CMD_PARAM_BREAK then iolink_ds_abort ctx
      else (-3, ctx))"

text \<open>The pointer-level entry points: the NULL checks in front of the bodies above.\<close>

definition iolink_ds_check_p :: "iolink_ds_ctx ptr \<Rightarrow> u16 \<Rightarrow> iolink_ds_ctx ptr" where
  "iolink_ds_check_p ctx ck = (case ctx of NULL \<Rightarrow> NULL | Ref c \<Rightarrow> Ref (iolink_ds_check c ck))"

definition iolink_ds_process_p :: "iolink_ds_ctx ptr \<Rightarrow> iolink_ds_ctx ptr" where
  "iolink_ds_process_p ctx = (case ctx of NULL \<Rightarrow> NULL | Ref c \<Rightarrow> Ref (iolink_ds_process c))"

definition ds_call :: "(iolink_ds_ctx \<Rightarrow> int \<times> iolink_ds_ctx) \<Rightarrow> iolink_ds_ctx ptr \<Rightarrow> int \<times> iolink_ds_ctx ptr" where
  "ds_call f ctx = (case ctx of NULL \<Rightarrow> (-1, NULL) | Ref c \<Rightarrow> map_prod id Ref (f c))"

section \<open>The checksum in closed form\<close>

text \<open>The plain sum, and the sum weighted by the distance to the end of the block.\<close>

definition byte_sum :: "bytes \<Rightarrow> nat" where
  "byte_sum xs = sum_list (map unat xs)"

primrec weighted_sum :: "bytes \<Rightarrow> nat" where
  "weighted_sum [] = 0"
| "weighted_sum (x # xs) = Suc (length xs) * unat x + weighted_sum xs"

definition fletcher16 :: "bytes \<Rightarrow> nat" where
  "fletcher16 xs = 256 * (weighted_sum xs mod 255) + byte_sum xs mod 255"

lemma byte_sum_simps [simp]:
  "byte_sum [] = 0" "byte_sum (x # xs) = unat x + byte_sum xs"
  "byte_sum (xs @ ys) = byte_sum xs + byte_sum ys"
  by (simp_all add: byte_sum_def)

lemma weighted_sum_append [simp]:
  "weighted_sum (xs @ ys) = weighted_sum xs + length ys * byte_sum xs + weighted_sum ys"
  by (induction xs) (simp_all add: algebra_simps)

lemma fletcher_step_nat:
  assumes "unat s1 < 255" and "unat s2 < 255"
  shows "fletcher_step (s1, s2) b =
    (word_of_nat ((unat s1 + unat b) mod 255), word_of_nat ((unat s2 + unat s1 + unat b) mod 255))"
proof -
  have 1: "(s1 + ucast b) mod 255 = word_of_nat ((unat s1 + unat b) mod 255)"
  proof -
    have "unat s1 + unat b < 65536" using assms(1) unat_u8_less [of b] by linarith
    then have "unat (s1 + ucast b :: u16) = unat s1 + unat b"
      by (simp add: unat_word_ariths)
    then show ?thesis by (intro word_unat_eq_iff [THEN iffD2]) (simp add: unat_mod)
  qed
  let ?t = "(unat s1 + unat b) mod 255"
  have t: "?t < 255" by simp
  have "unat s2 + ?t < 65536" using assms(2) t by linarith
  then have "unat (s2 + word_of_nat ?t) = unat s2 + ?t"
    using t by (simp add: unat_word_ariths)
  then have "(s2 + word_of_nat ?t) mod 255 = word_of_nat ((unat s2 + ?t) mod 255)"
    by (intro word_unat_eq_iff [THEN iffD2]) (simp add: unat_mod)
  also have "(unat s2 + ?t) mod 255 = (unat s2 + unat s1 + unat b) mod 255"
    by (simp add: mod_simps add.assoc)
  finally show ?thesis by (simp add: fletcher_step_def 1)
qed

lemma fletcher_fold:
  "foldl fletcher_step (word_of_nat (a mod 255), word_of_nat (b mod 255)) xs =
     (word_of_nat ((a + byte_sum xs) mod 255),
      word_of_nat ((b + length xs * a + weighted_sum xs) mod 255))"
proof (induction xs arbitrary: a b)
  case (Cons x xs)
  have "(b mod 255 + a mod 255 + u) mod 255 = (b + a + u) mod 255" for u
    by (metis mod_add_left_eq mod_add_eq)
  then have "fletcher_step (word_of_nat (a mod 255), word_of_nat (b mod 255)) x =
      (word_of_nat ((a + unat x) mod 255), word_of_nat ((b + a + unat x) mod 255))"
    using mod_less_divisor [of 255 a] mod_less_divisor [of 255 b]
    by (subst fletcher_step_nat) (simp_all add: mod_simps)
  then show ?case
    using Cons.IH [of "a + unat x" "b + a + unat x"] by (simp add: algebra_simps)
qed simp

lemma checksum_loop:
  "n \<le> length d \<Longrightarrow>
     for_loop n (\<lambda>i s. do { b \<leftarrow> arr_get d i; Some (fletcher_step s b) }) s
       = Some (foldl fletcher_step s (take n d))"
  by (induction n) (simp_all add: take_Suc_conv_app_nth)

lemma iolink_ds_calc_checksum_eq:
  assumes "len \<le> length d"
  shows "iolink_ds_calc_checksum (Ref d) len = Some (word_of_nat (fletcher16 (take len d)))"
proof -
  let ?xs = "take len d"
  have "foldl fletcher_step (0, 0) ?xs =
      (word_of_nat (byte_sum ?xs mod 255), word_of_nat (weighted_sum ?xs mod 255))"
    using fletcher_fold [of 0 0 ?xs] by simp
  moreover have "byte_sum ?xs mod 255 < 256"
    using mod_less_divisor [of 255 "byte_sum ?xs"] by simp
  ultimately show ?thesis
    using assms checksum_loop [OF assms, of "(0, 0)"]
    by (simp add: iolink_ds_calc_checksum_def iolink_buf_is_valid_def pack_u16 fletcher16_def)
qed

lemma fletcher16_bound: "fletcher16 xs < 65536"
  using mod_less_divisor [of 255 "byte_sum xs"] mod_less_divisor [of 255 "weighted_sum xs"]
  by (simp add: fletcher16_def)

lemma fletcher16_eq_iff:
  "fletcher16 xs = fletcher16 ys \<longleftrightarrow>
     weighted_sum xs mod 255 = weighted_sum ys mod 255 \<and> byte_sum xs mod 255 = byte_sum ys mod 255"
proof
  assume eq: "fletcher16 xs = fletcher16 ys"
  have b: "byte_sum zs mod 255 < 256" for zs
    using mod_less_divisor [of 255 "byte_sum zs"] by simp
  have "fletcher16 zs div 256 = weighted_sum zs mod 255"
    "fletcher16 zs mod 256 = byte_sum zs mod 255" for zs
    using b [of zs] by (simp_all add: fletcher16_def)
  with eq show "weighted_sum xs mod 255 = weighted_sum ys mod 255 \<and>
    byte_sum xs mod 255 = byte_sum ys mod 255"
    by metis
qed (simp add: fletcher16_def)

text \<open>Replacing one byte, and exchanging two neighbours.\<close>

lemma nat_mod_eq_dvd: "(a :: nat) mod n = b mod n \<longleftrightarrow> int n dvd int a - int b"
  by (metis mod_eq_dvd_iff of_nat_mod of_nat_eq_iff)

lemma fletcher16_replace:
  "fletcher16 (us @ b # vs) = fletcher16 (us @ c # vs) \<longleftrightarrow> unat b mod 255 = unat c mod 255"
proof -
  have "int (weighted_sum (us @ b # vs)) - int (weighted_sum (us @ c # vs))
      = int (Suc (length vs)) * (int (unat b) - int (unat c))"
    by (simp add: algebra_simps)
  then have "unat b mod 255 = unat c mod 255 \<Longrightarrow>
      weighted_sum (us @ b # vs) mod 255 = weighted_sum (us @ c # vs) mod 255"
    unfolding nat_mod_eq_dvd by (simp only: dvd_mult)
  moreover have "byte_sum (us @ b # vs) mod 255 = byte_sum (us @ c # vs) mod 255 \<longleftrightarrow>
      unat b mod 255 = unat c mod 255"
    by (simp add: nat_mod_eq_dvd)
  ultimately show ?thesis by (auto simp: fletcher16_eq_iff simp del: byte_sum_simps weighted_sum_append)
qed

lemma fletcher16_swap:
  "fletcher16 (us @ b # c # vs) = fletcher16 (us @ c # b # vs) \<longleftrightarrow> unat b mod 255 = unat c mod 255"
proof -
  have "int (weighted_sum (us @ b # c # vs)) - int (weighted_sum (us @ c # b # vs))
      = int (unat b) - int (unat c)"
    by (simp add: algebra_simps)
  then have "weighted_sum (us @ b # c # vs) mod 255 = weighted_sum (us @ c # b # vs) mod 255 \<longleftrightarrow>
      unat b mod 255 = unat c mod 255"
    by (simp only: nat_mod_eq_dvd)
  then show ?thesis by (simp add: fletcher16_eq_iff add.left_commute del: weighted_sum_append)
qed

section \<open>The state machine\<close>

inductive ds_step :: "iolink_ds_ctx \<Rightarrow> iolink_ds_ctx \<Rightarrow> bool" where
  check: "ds_step c (iolink_ds_check c ck)"
| process: "ds_step c (iolink_ds_process c)"
| upload: "ds_step c (snd (iolink_ds_start_upload c))"
| download: "ds_step c (snd (iolink_ds_start_download c))"
| abort: "ds_step c (snd (iolink_ds_abort c))"
| command: "ds_step c (snd (iolink_ds_handle_command c cmd locks))"

inductive ds_reachable :: "iolink_ds_ctx \<Rightarrow> bool" where
  init: "iolink_ds_init (Ref c0) storage = Ref c \<Longrightarrow> ds_reachable c"
| step: "ds_reachable c \<Longrightarrow> ds_step c c' \<Longrightarrow> ds_reachable c'"

inductive_cases ds_stepE: "ds_step c c'"

lemmas ds_ops = iolink_ds_check_def iolink_ds_process_def iolink_ds_start_upload_def
  iolink_ds_start_download_def iolink_ds_abort_def iolink_ds_handle_command_def

lemma ds_step_not_locked:
  "ds_step c c' \<Longrightarrow> ds_state c \<noteq> IOLINK_DS_STATE_LOCKED \<Longrightarrow> ds_state c' \<noteq> IOLINK_DS_STATE_LOCKED"
  by (erule ds_stepE) (auto simp: ds_ops Let_def split: iolink_ds_state.splits)

lemma ds_step_storage: "ds_step c c' \<Longrightarrow> ds_storage c' = ds_storage c"
  by (erule ds_stepE) (auto simp: ds_ops Let_def split: iolink_ds_state.splits)

section \<open>Correctness of Data Storage\<close>

text \<open>
  C33: The parameter checksum is Fletcher-16.  Over the first \<open>len\<close> bytes of any block the loop on
  16-bit words returns the plain sum modulo 255 in the low byte and the sum weighted by the
  distance to the end, modulo 255, in the high byte: no intermediate overflow, for any length.
\<close>

theorem ds_checksum_fletcher:
  assumes "len \<le> length d"
  shows "iolink_ds_calc_checksum (Ref d) len = Some (word_of_nat (fletcher16 (take len d))) \<and> fletcher16 (take len d) < 65536"
  using iolink_ds_calc_checksum_eq [OF assms] fletcher16_bound by blast

lemma ds_checksum_fletcher_witness:
  "iolink_ds_calc_checksum (Ref [1, 2, 3]) 3 = Some 0x0A06"
  using ds_checksum_fletcher [of 3 "[1, 2, 3]"] by (simp add: fletcher16_def)

text \<open>
  What the parameter checksum detects.  Replacing one byte of a block, and exchanging two
  neighbouring bytes, changes the checksum except when the two bytes agree modulo 255, that
  is when one is 0 and the other 255.
\<close>

theorem ds_checksum_detects:
  "(iolink_ds_calc_checksum (Ref (us @ b # vs)) (length (us @ b # vs)) = iolink_ds_calc_checksum (Ref (us @ c # vs)) (length (us @ c # vs))
      \<longleftrightarrow> unat b mod 255 = unat c mod 255) \<and>
   (iolink_ds_calc_checksum (Ref (us @ b # c # vs)) (length (us @ b # c # vs)) = iolink_ds_calc_checksum (Ref (us @ c # b # vs)) (length (us @ c # b # vs))
      \<longleftrightarrow> unat b mod 255 = unat c mod 255)"
proof -
  have inj: "iolink_ds_calc_checksum (Ref xs) (length xs) = iolink_ds_calc_checksum (Ref ys) (length ys) \<longleftrightarrow> fletcher16 xs = fletcher16 ys" for xs ys
    using fletcher16_bound [of xs] fletcher16_bound [of ys]
    by (auto simp: iolink_ds_calc_checksum_eq word_unat_eq_iff)
  show ?thesis unfolding inj fletcher16_replace fletcher16_swap by blast
qed

text \<open>
  C32: Data Storage takes over the master's parameters and then rests.  From the idle state, a check
  with a checksum that is not 0 is followed, after two calls of the processing function, by an
  idle state whose stored checksum is the master's, and checking the same value again asks for
  nothing more.
\<close>

theorem ds_synchronises:
  assumes "ds_state c = IOLINK_DS_STATE_IDLE" and "ck \<noteq> 0"
  shows "let c' = iolink_ds_process (iolink_ds_process (iolink_ds_check c ck)) in
     ds_state c' = IOLINK_DS_STATE_IDLE \<and> ds_current_checksum c' = ck \<and> iolink_ds_check c' ck = c'"
  using assms by (auto simp: iolink_ds_check_def iolink_ds_process_def Let_def)

lemma ds_synchronises_witness:
  "let c' = iolink_ds_process (iolink_ds_process (iolink_ds_check zero_ds_ctx 0x1234)) in
     ds_state c' = IOLINK_DS_STATE_IDLE \<and> ds_current_checksum c' = 0x1234 \<and> iolink_ds_check c' 0x1234 = c'"
  by (rule ds_synchronises) (simp_all add: zero_ds_ctx_def)

text \<open>
  C31: The stored checksum is changed by a finished download only.  In every reachable state of the
  module and for every operation on it, if the checksum of the stored parameters changes then a
  download was in progress, the new value is the one the master announced, and the module is idle
  afterwards.  The state LOCKED is never reached and the storage handle never changes.
\<close>

theorem ds_checksum_change:
  assumes "ds_reachable c" and "ds_step c c'"
  shows "(ds_current_checksum c' \<noteq> ds_current_checksum c \<longrightarrow>
       ds_state c = IOLINK_DS_STATE_DOWNLOADING \<and> ds_state c' = IOLINK_DS_STATE_IDLE \<and>
       ds_current_checksum c' = ds_master_checksum c) \<and>
     ds_state c' \<noteq> IOLINK_DS_STATE_LOCKED \<and> ds_storage c' = ds_storage c"
proof (intro conjI impI)
  have "ds_state c \<noteq> IOLINK_DS_STATE_LOCKED"
    using assms(1)
  proof induction
    case (init c0 storage c)
    then show ?case by (auto simp: iolink_ds_init_def iolink_ctx_zero_def)
  qed (rule ds_step_not_locked)
  then show "ds_state c' \<noteq> IOLINK_DS_STATE_LOCKED" by (rule ds_step_not_locked [OF assms(2)])
  assume ch: "ds_current_checksum c' \<noteq> ds_current_checksum c"
  show "ds_state c = IOLINK_DS_STATE_DOWNLOADING" "ds_state c' = IOLINK_DS_STATE_IDLE" "ds_current_checksum c' = ds_master_checksum c"
    using assms(2) ch by (auto elim!: ds_stepE simp: ds_ops Let_def split: iolink_ds_state.splits if_splits)
qed (rule ds_step_storage [OF assms(2)])

text \<open>A check asks for a download, one call of the process function starts it, the next takes the checksum over.\<close>

lemma ds_checksum_change_witness:
  "let c = iolink_ds_process (iolink_ds_check zero_ds_ctx 0x1234); c' = iolink_ds_process c in
   ds_current_checksum c' \<noteq> ds_current_checksum c \<and>
   ds_state c = IOLINK_DS_STATE_DOWNLOADING \<and> ds_state c' = IOLINK_DS_STATE_IDLE \<and> ds_current_checksum c' = 0x1234"
proof -
  let ?c = "iolink_ds_process (iolink_ds_check zero_ds_ctx 0x1234)"
  have "ds_reachable zero_ds_ctx"
    by (rule ds_reachable.init [of zero_ds_ctx NULL]) (simp add: iolink_ds_init_def iolink_ctx_zero_def zero_ds_ctx_def)
  then have "ds_reachable ?c" by (intro ds_reachable.step [OF _ ds_step.process] ds_reachable.step [OF _ ds_step.check])
  from ds_checksum_change [OF this ds_step.process] show ?thesis
    by (simp add: ds_ops zero_ds_ctx_def Let_def)
qed

end
