(* ===== verification/Device_Info.thy ===== *)
theory Device_Info
  imports Protocol
begin

text \<open>
  \<^verbatim>\<open>src/device_info.c\<close>: the identification record.  Its module state is the pointer
  \<^verbatim>\<open>g_device_info\<close> (NULL, the address of the built-in default record, or a record of the
  application), the default record itself and the buffer of the application tag.  A
  \<^verbatim>\<open>const char*\<close> is NULL, a constant NUL-terminated array, or the address of that buffer.
\<close>

section \<open>Data\<close>

datatype c_str = StrNull | StrConst bytes | StrAppTag

record iolink_device_info =
  di_vendor_name :: c_str
  di_vendor_text :: c_str
  di_product_name :: c_str
  di_product_id :: c_str
  di_product_text :: c_str
  di_serial_number :: c_str
  di_hardware_revision :: c_str
  di_firmware_revision :: c_str
  di_application_tag :: c_str
  di_vendor_id :: u16
  di_device_id :: u32
  di_function_id :: u16
  di_profile_characteristic :: u16
  di_min_cycle_time :: u8
  di_revision_id :: u16
  di_device_status :: u8
  di_detailed_device_status :: u16
  di_access_locks :: u16

datatype info_ptr = InfoNull | InfoDefault | InfoUser iolink_device_info

record device_info_state =
  g_device_info :: info_ptr
  g_default_info :: iolink_device_info
  g_app_tag_buffer :: bytes

definition default_info :: iolink_device_info where
  "default_info =
     \<lparr>di_vendor_name = StrConst (c_literal ''iolinki''),
      di_vendor_text = StrConst (c_literal ''Open-Source IO-Link Stack''),
      di_product_name = StrConst (c_literal ''Generic IO-Link Device''),
      di_product_id = StrConst (c_literal ''IOLINK-DEV-001''),
      di_product_text = StrConst (c_literal ''Reference Implementation''),
      di_serial_number = StrConst (c_literal ''0000000001''),
      di_hardware_revision = StrConst (c_literal ''1.0''),
      di_firmware_revision = StrConst (c_literal ''0.1.0''),
      di_application_tag = StrConst (c_literal ''DefaultTag''),
      di_vendor_id = 0xFFFF,
      di_device_id = 0x00000001,
      di_function_id = 0x0000,
      di_profile_characteristic = 0x0000,
      di_min_cycle_time = 10,
      di_revision_id = 0x0001,
      di_device_status = 0x00,
      di_detailed_device_status = 0x0000,
      di_access_locks = 0x0000\<rparr>"

definition APP_TAG_BUFFER_SIZE :: nat where
  [simp]: "APP_TAG_BUFFER_SIZE = 33"

text \<open>The static initialisers: the buffer holds the default tag, padded with zeros.\<close>

definition device_info_static :: device_info_state where
  "device_info_static =
     \<lparr>g_device_info = InfoNull, g_default_info = default_info,
      g_app_tag_buffer = c_literal ''DefaultTag'' @ replicate 22 0\<rparr>"

section \<open>Operations\<close>

definition iolink_device_info_init ::
  "iolink_device_info ptr \<Rightarrow> device_info_state \<Rightarrow> device_info_state" where
  "iolink_device_info_init info s =
     (case info of
        Ref i \<Rightarrow> s\<lparr>g_device_info := InfoUser i\<rparr>
      | NULL \<Rightarrow> s\<lparr>g_device_info := InfoDefault,
                  g_default_info := (g_default_info s)\<lparr>di_application_tag := StrAppTag\<rparr>\<rparr>)"

definition iolink_device_info_set_application_tag ::
  "bytes ptr \<Rightarrow> u8 \<Rightarrow> device_info_state \<Rightarrow> (int \<times> device_info_state) option" where
  "iolink_device_info_set_application_tag tag len s =
     (case tag of NULL \<Rightarrow> Some (-1, s)
      | Ref t \<Rightarrow>
         if unat len \<ge> APP_TAG_BUFFER_SIZE then Some (-1, s)
         else if g_device_info s = InfoDefault then do {
           buf \<leftarrow> memcpy (g_app_tag_buffer s) 0 t 0 (unat len);
           buf \<leftarrow> arr_set buf (unat len) 0;
           Some (0, s\<lparr>g_app_tag_buffer := buf,
                      g_default_info := (g_default_info s)\<lparr>di_application_tag := StrAppTag\<rparr>\<rparr>) }
         else Some (-1, s))"

text \<open>
  \<^verbatim>\<open>iolink_device_info_get\<close> installs the default record on first use and never returns NULL; the
  record it points to is read through \<open>current_info\<close>.
\<close>

definition current_info :: "device_info_state \<Rightarrow> iolink_device_info" where
  "current_info s = (case g_device_info s of InfoUser i \<Rightarrow> i | _ \<Rightarrow> g_default_info s)"

definition iolink_device_info_get ::
  "device_info_state \<Rightarrow> iolink_device_info \<times> device_info_state" where
  "iolink_device_info_get s =
     (let s = (if g_device_info s = InfoNull then s\<lparr>g_device_info := InfoDefault\<rparr> else s)
      in (current_info s, s))"

definition iolink_device_info_get_access_locks ::
  "device_info_state \<Rightarrow> u16 \<times> device_info_state" where
  "iolink_device_info_get_access_locks s =
     (case iolink_device_info_get s of (info, s) \<Rightarrow> (di_access_locks info, s))"

definition iolink_device_info_set_access_locks ::
  "u16 \<Rightarrow> device_info_state \<Rightarrow> device_info_state" where
  "iolink_device_info_set_access_locks locks s =
     (if g_device_info s = InfoDefault
      then s\<lparr>g_default_info := (g_default_info s)\<lparr>di_access_locks := locks\<rparr>\<rparr> else s)"

text \<open>The char array a string pointer of the record points to.\<close>

definition str_array :: "device_info_state \<Rightarrow> c_str \<Rightarrow> bytes ptr" where
  "str_array s p =
     (case p of StrNull \<Rightarrow> NULL | StrConst b \<Rightarrow> Ref b | StrAppTag \<Rightarrow> Ref (g_app_tag_buffer s))"

section \<open>Invariant\<close>

text \<open>Every string the record names is terminated, and the tag buffer has its size.\<close>

definition str_ok :: "c_str \<Rightarrow> bool" where
  "str_ok p \<longleftrightarrow> (case p of StrConst b \<Rightarrow> 0 \<in> set b | _ \<Rightarrow> True)"

definition info_wf :: "iolink_device_info \<Rightarrow> bool" where
  [wf_defs]: "info_wf i \<longleftrightarrow>
     str_ok (di_vendor_name i) \<and> str_ok (di_vendor_text i) \<and> str_ok (di_product_name i) \<and>
     str_ok (di_product_id i) \<and> str_ok (di_product_text i) \<and> str_ok (di_serial_number i) \<and>
     str_ok (di_hardware_revision i) \<and> str_ok (di_firmware_revision i) \<and>
     str_ok (di_application_tag i)"

definition devinfo_wf :: "device_info_state \<Rightarrow> bool" where
  [wf_defs]: "devinfo_wf s \<longleftrightarrow>
     length (g_app_tag_buffer s) = APP_TAG_BUFFER_SIZE \<and> 0 \<in> set (g_app_tag_buffer s) \<and>
     info_wf (g_default_info s) \<and> info_wf (current_info s)"

lemma str_ok_simps [simp]:
  "str_ok StrNull" "str_ok StrAppTag" "str_ok (StrConst b) \<longleftrightarrow> 0 \<in> set b"
  by (simp_all add: str_ok_def)

lemma NUL_in_c_literal [simp]: "0 \<in> set (c_literal s)"
  by (simp add: c_literal_def)

lemma devinfo_wf_static: "devinfo_wf device_info_static"
  by (simp add: devinfo_wf_def device_info_static_def current_info_def default_info_def info_wf_def
      c_literal_def)

lemma str_array_terminated:
  "devinfo_wf s \<Longrightarrow> str_ok p \<Longrightarrow> str_array s p = Ref b \<Longrightarrow> 0 \<in> set b"
  by (cases p) (auto simp: str_array_def devinfo_wf_def)

lemma iolink_device_info_init_wf:
  "devinfo_wf s \<Longrightarrow> (\<And>i. info = Ref i \<Longrightarrow> info_wf i) \<Longrightarrow> devinfo_wf (iolink_device_info_init info s)"
  by (cases info)
     (auto simp: iolink_device_info_init_def devinfo_wf_def current_info_def info_wf_def)

lemma iolink_device_info_get_wf:
  "devinfo_wf s \<Longrightarrow> iolink_device_info_get s = (i, s') \<Longrightarrow>
     devinfo_wf s' \<and> i = current_info s' \<and> info_wf i \<and> g_device_info s' \<noteq> InfoNull \<and>
     g_default_info s' = g_default_info s \<and> g_app_tag_buffer s' = g_app_tag_buffer s"
  by (auto simp: iolink_device_info_get_def devinfo_wf_def current_info_def Let_def
      split: info_ptr.splits if_splits)

lemma iolink_device_info_set_access_locks_wf:
  "devinfo_wf s \<Longrightarrow> devinfo_wf (iolink_device_info_set_access_locks l s)"
  by (auto simp: iolink_device_info_set_access_locks_def devinfo_wf_def current_info_def info_wf_def)

text \<open>The tag setter: what it accepts, and the buffer it leaves.\<close>

lemma iolink_device_info_set_application_tag_law:
  assumes "devinfo_wf s" and "unat len \<le> length t"
  shows "runs (iolink_device_info_set_application_tag (Ref t) len s)
    (\<lambda>(r, s'). devinfo_wf s' \<and> g_device_info s' = g_device_info s \<and>
       (if unat len < APP_TAG_BUFFER_SIZE \<and> g_device_info s = InfoDefault
        then r = 0 \<and> di_application_tag (current_info s') = StrAppTag \<and>
             cstr_of (g_app_tag_buffer s') = cstr_of (take (unat len) t)
        else r = -1 \<and> s' = s))"
proof (cases "unat len < APP_TAG_BUFFER_SIZE \<and> g_device_info s = InfoDefault")
  case True
  let ?buf = "(take (unat len) t @ drop (unat len) (g_app_tag_buffer s))[unat len := 0]"
  from assms(1) have len33: "length (g_app_tag_buffer s) = 33" by (simp add: devinfo_wf_def)
  then have buf: "?buf = take (unat len) t @ 0 # drop (Suc (unat len)) (g_app_tag_buffer s)"
    using True assms(2) by (simp add: list_update_append Cons_nth_drop_Suc [symmetric])
  then have "cstr_of ?buf = cstr_of (take (unat len) t)"
    by simp
  then show ?thesis
    using True assms len33 buf
    by (simp add: iolink_device_info_set_application_tag_def)
       (auto simp: devinfo_wf_def current_info_def info_wf_def)
next
  case False
  then show ?thesis
    using assms(1) by (auto simp: iolink_device_info_set_application_tag_def)
qed

end
