(* ===== verification/Params.thy ===== *)
theory Params
  imports Device_Info Platform
begin

text \<open>
  \<^verbatim>\<open>src/params.c\<close>: the parameter manager with its shadow of the non-volatile record.  The record
  reaches the memory as the bytes of the C struct; its layout is that of the targets the
  repository builds for: little-endian, the magic number in the first four bytes, the three
  33-byte tags, one byte of padding (104 bytes).
\<close>

section \<open>Data\<close>

definition PARAMS_NVM_MAGIC :: u32 where
  [simp]: "PARAMS_NVM_MAGIC = 0x494F4C31"

definition TAG_SIZE :: nat where
  [simp]: "TAG_SIZE = 33"

record iolink_params_nvm =
  nv_magic :: u32
  nv_application_tag :: bytes
  nv_function_tag :: bytes
  nv_location_tag :: bytes
  nv_padding :: u8

definition zero_params_nvm :: iolink_params_nvm where
  "zero_params_nvm =
     \<lparr>nv_magic = 0, nv_application_tag = replicate TAG_SIZE 0, nv_function_tag = replicate TAG_SIZE 0,
      nv_location_tag = replicate TAG_SIZE 0, nv_padding = 0\<rparr>"

text \<open>The file-scope state of the stack outside the data link layer, with the outside state.\<close>

record 'w globals =
  gl_info :: device_info_state
  g_nvm_shadow :: iolink_params_nvm
  gl_world :: 'w

definition globals_static :: "'w \<Rightarrow> 'w globals" where
  "globals_static w =
     \<lparr>gl_info = device_info_static, g_nvm_shadow = zero_params_nvm, gl_world = w\<rparr>"

section \<open>The struct as bytes\<close>

definition le32_bytes :: "u32 \<Rightarrow> bytes" where
  "le32_bytes m = [ucast m, ucast (drop_bit 8 m), ucast (drop_bit 16 m), ucast (drop_bit 24 m)]"

definition le32_word :: "bytes \<Rightarrow> u32" where
  "le32_word b =
     ucast (b ! 0) OR push_bit 8 (ucast (b ! 1)) OR push_bit 16 (ucast (b ! 2))
       OR push_bit 24 (ucast (b ! 3))"

definition params_bytes :: "iolink_params_nvm \<Rightarrow> bytes" where
  "params_bytes s =
     le32_bytes (nv_magic s) @ nv_application_tag s @ nv_function_tag s @ nv_location_tag s @
     [nv_padding s]"

definition params_of_bytes :: "bytes \<Rightarrow> iolink_params_nvm" where
  "params_of_bytes b =
     \<lparr>nv_magic = le32_word b, nv_application_tag = take 33 (drop 4 b),
      nv_function_tag = take 33 (drop 37 b), nv_location_tag = take 33 (drop 70 b),
      nv_padding = b ! 103\<rparr>"

section \<open>Operations\<close>

text \<open>The shadow's application tag when no valid record was found: that of the device record.\<close>

definition default_app_tag :: "bytes \<Rightarrow> bytes ptr \<Rightarrow> bytes option" where
  "default_app_tag app tag =
     (case tag of
        NULL \<Rightarrow> arr_set app 0 0
      | Ref t \<Rightarrow> do {
          n \<leftarrow> strlen t;
          let copy_len = (if n > 32 then 32 else n);
          app \<leftarrow> memcpy app 0 t 0 copy_len;
          arr_set app copy_len 0 })"

definition iolink_params_init :: "'w platform \<Rightarrow> 'w globals \<Rightarrow> 'w globals option" where
  "iolink_params_init plat g =
     (case nvm_read plat 0 (params_bytes (g_nvm_shadow g)) (gl_world g) of (r, buf, w) \<Rightarrow>
      let g = g\<lparr>g_nvm_shadow := params_of_bytes buf, gl_world := w\<rparr>;
          shadow = g_nvm_shadow g
      in if r = 0 \<and> nv_magic shadow = PARAMS_NVM_MAGIC then do {
           n \<leftarrow> strlen (nv_application_tag shadow);
           (_, info) \<leftarrow> iolink_device_info_set_application_tag
                          (Ref (nv_application_tag shadow)) (word_of_nat n) (gl_info g);
           Some (g\<lparr>gl_info := info\<rparr>) }
         else (case iolink_device_info_get (gl_info g) of (info, ds) \<Rightarrow> do {
           app \<leftarrow> default_app_tag (nv_application_tag shadow) (str_array ds (di_application_tag info));
           fun_tag \<leftarrow> arr_set (nv_function_tag shadow) 0 0;
           loc_tag \<leftarrow> arr_set (nv_location_tag shadow) 0 0;
           Some (g\<lparr>gl_info := ds,
                   g_nvm_shadow := shadow\<lparr>nv_magic := PARAMS_NVM_MAGIC, nv_application_tag := app,
                                          nv_function_tag := fun_tag, nv_location_tag := loc_tag\<rparr>\<rparr>) }))"

text \<open>\<^verbatim>\<open>strlen\<close>, clip to \<^verbatim>\<open>max_len\<close>, copy out: the body of each readable index.\<close>

definition copy_out :: "bytes \<Rightarrow> bytes \<Rightarrow> nat \<Rightarrow> (int \<times> bytes) option" where
  "copy_out tag buffer max_len = do {
     n \<leftarrow> strlen tag;
     let len = (if n > max_len then max_len else n);
     buffer \<leftarrow> memcpy buffer 0 tag 0 len;
     Some (int len, buffer) }"

definition iolink_params_get ::
  "u16 \<Rightarrow> u8 \<Rightarrow> bytes ptr \<Rightarrow> nat \<Rightarrow> 'w globals \<Rightarrow> (int \<times> bytes ptr \<times> 'w globals) option" where
  "iolink_params_get index subindex buffer max_len g =
     (case buffer of NULL \<Rightarrow> Some (-1, NULL, g)
      | Ref buf \<Rightarrow>
         if index = 0x0018 \<and> subindex = 0 then
           (case iolink_device_info_get (gl_info g) of (info, ds) \<Rightarrow>
              let g = g\<lparr>gl_info := ds\<rparr> in
              case str_array ds (di_application_tag info) of
                NULL \<Rightarrow> Some (-1, buffer, g)
              | Ref tag \<Rightarrow> map_option (\<lambda>(n, b). (n, Ref b, g)) (copy_out tag buf max_len))
         else if index = 0x0019 \<and> subindex = 0 then
           map_option (\<lambda>(n, b). (n, Ref b, g))
             (copy_out (nv_function_tag (g_nvm_shadow g)) buf max_len)
         else if index = 0x001A \<and> subindex = 0 then
           map_option (\<lambda>(n, b). (n, Ref b, g))
             (copy_out (nv_location_tag (g_nvm_shadow g)) buf max_len)
         else Some (-1, buffer, g))"

text \<open>Copy at most 32 bytes into a tag and terminate it.\<close>

definition store_tag :: "bytes \<Rightarrow> bytes ptr \<Rightarrow> nat \<Rightarrow> bytes option" where
  "store_tag tag data len =
     (let copy_len = (if len > 32 then 32 else len) in do {
        tag \<leftarrow> (if copy_len > 0 then
                  (case data of NULL \<Rightarrow> None | Ref d \<Rightarrow> memcpy tag 0 d 0 copy_len)
                else Some tag);
        arr_set tag copy_len 0 })"

definition nvm_commit :: "'w platform \<Rightarrow> 'w globals \<Rightarrow> 'w globals" where
  "nvm_commit plat g =
     (case nvm_write plat 0 (params_bytes (g_nvm_shadow g)) (gl_world g) of
        (_, w) \<Rightarrow> g\<lparr>gl_world := w\<rparr>)"

definition iolink_params_set ::
  "'w platform \<Rightarrow> u16 \<Rightarrow> u8 \<Rightarrow> bytes ptr \<Rightarrow> nat \<Rightarrow> bool \<Rightarrow> 'w globals \<Rightarrow> (int \<times> 'w globals) option" where
  "iolink_params_set plat index subindex data len persist g =
     (if \<not> iolink_buf_is_valid data len then Some (-1, g)
      else if index = 0x0018 \<and> subindex = 0 then do {
        (r, ds) \<leftarrow> iolink_device_info_set_application_tag data (word_of_nat len) (gl_info g);
        let g = g\<lparr>gl_info := ds\<rparr>;
        if r = 0 then
          (if persist then do {
             tag \<leftarrow> store_tag (nv_application_tag (g_nvm_shadow g)) data len;
             Some (0, nvm_commit plat
                        (g\<lparr>g_nvm_shadow := (g_nvm_shadow g)\<lparr>nv_application_tag := tag\<rparr>\<rparr>)) }
           else Some (0, g))
        else Some (-1, g) }
      else if index = 0x0019 \<and> subindex = 0 then do {
        tag \<leftarrow> store_tag (nv_function_tag (g_nvm_shadow g)) data len;
        let g = g\<lparr>g_nvm_shadow := (g_nvm_shadow g)\<lparr>nv_function_tag := tag\<rparr>\<rparr>;
        Some (0, if persist then nvm_commit plat g else g) }
      else if index = 0x001A \<and> subindex = 0 then do {
        tag \<leftarrow> store_tag (nv_location_tag (g_nvm_shadow g)) data len;
        let g = g\<lparr>g_nvm_shadow := (g_nvm_shadow g)\<lparr>nv_location_tag := tag\<rparr>\<rparr>;
        Some (0, if persist then nvm_commit plat g else g) }
      else Some (-1, g))"

definition iolink_params_factory_reset :: "'w platform \<Rightarrow> 'w globals \<Rightarrow> 'w globals option" where
  "iolink_params_factory_reset plat g = do {
     app \<leftarrow> arr_set (nv_application_tag (g_nvm_shadow g)) 0 0;
     fun_tag \<leftarrow> arr_set (nv_function_tag (g_nvm_shadow g)) 0 0;
     loc_tag \<leftarrow> arr_set (nv_location_tag (g_nvm_shadow g)) 0 0;
     (_, ds) \<leftarrow> iolink_device_info_set_application_tag (Ref [0]) 0 (gl_info g);
     Some (nvm_commit plat
       (g\<lparr>gl_info := ds,
          g_nvm_shadow := (g_nvm_shadow g)\<lparr>nv_magic := PARAMS_NVM_MAGIC, nv_application_tag := app,
                             nv_function_tag := fun_tag, nv_location_tag := loc_tag\<rparr>\<rparr>)) }"

section \<open>Invariant\<close>

definition tag_wf :: "bytes \<Rightarrow> bool" where
  [wf_defs]: "tag_wf t \<longleftrightarrow> length t = TAG_SIZE \<and> 0 \<in> set t"

definition shadow_wf :: "iolink_params_nvm \<Rightarrow> bool" where
  [wf_defs]: "shadow_wf s \<longleftrightarrow>
     tag_wf (nv_application_tag s) \<and> tag_wf (nv_function_tag s) \<and> tag_wf (nv_location_tag s)"

definition globals_wf :: "'w globals \<Rightarrow> bool" where
  [wf_defs]: "globals_wf g \<longleftrightarrow> devinfo_wf (gl_info g) \<and> shadow_wf (g_nvm_shadow g)"

lemma globals_wf_static: "globals_wf (globals_static w)"
  by (simp add: globals_wf_def globals_static_def devinfo_wf_static shadow_wf_def tag_wf_def
      zero_params_nvm_def)

lemma globals_wf_simps [simp]:
  "globals_wf (g\<lparr>gl_world := w\<rparr>) \<longleftrightarrow> globals_wf g"
  "globals_wf (g\<lparr>gl_info := ds\<rparr>) \<longleftrightarrow> devinfo_wf ds \<and> shadow_wf (g_nvm_shadow g)"
  "globals_wf (g\<lparr>g_nvm_shadow := s\<rparr>) \<longleftrightarrow> devinfo_wf (gl_info g) \<and> shadow_wf s"
  by (simp_all add: globals_wf_def)

lemma nvm_commit_simps [simp]:
  "gl_info (nvm_commit plat g) = gl_info g"
  "g_nvm_shadow (nvm_commit plat g) = g_nvm_shadow g"
  "globals_wf (nvm_commit plat g) \<longleftrightarrow> globals_wf g"
  by (simp_all add: nvm_commit_def globals_wf_def split: prod.splits)

lemma tag_wf_set_0: "length t = TAG_SIZE \<Longrightarrow> tag_wf (t[0 := 0]) \<and> cstr_of (t[0 := 0]) = []"
  by (cases t) (simp_all add: tag_wf_def)

text \<open>A stored tag holds the first 32 bytes of the data, up to their first NUL.\<close>

lemma store_tag_law:
  assumes "length tag = TAG_SIZE" and "data = NULL \<Longrightarrow> len = 0" and "len \<le> length (deref data) \<or> data = NULL"
  shows "runs (store_tag tag data len)
    (\<lambda>t. tag_wf t \<and> cstr_of t = (case data of NULL \<Rightarrow> [] | Ref d \<Rightarrow> cstr_of (take (min 32 len) d)))"
proof (cases "len = 0")
  case True
  then show ?thesis
    using assms tag_wf_set_0 [OF assms(1)]
    by (auto simp: store_tag_def cstr_of_def split: ptr.splits)
next
  case False
  then obtain d where d: "data = Ref d" "len \<le> length d" using assms(2,3) by (cases data) auto
  let ?n = "min 32 len"
  have n: "(if len > 32 then 32 else len) = ?n" "0 < ?n" "?n < length tag" "?n \<le> length d"
    using False assms(1) d by auto
  have "(take ?n d @ drop ?n tag)[?n := 0] = take ?n d @ 0 # drop (Suc ?n) tag"
    using n by (simp add: list_update_append Cons_nth_drop_Suc [symmetric])
  with n d assms(1) show ?thesis
    by (simp add: store_tag_def Let_def tag_wf_def)
qed

section \<open>Laws of the operations\<close>

text \<open>The data argument of a write: NULL only with length 0, and never shorter than its length.\<close>

definition data_ok :: "bytes ptr \<Rightarrow> nat \<Rightarrow> bool" where
  "data_ok data len \<longleftrightarrow> (case data of NULL \<Rightarrow> len = 0 | Ref d \<Rightarrow> len \<le> length d)"

lemma store_tag_wf:
  "length tag = TAG_SIZE \<Longrightarrow> data_ok data len \<Longrightarrow> runs (store_tag tag data len) tag_wf"
  by (rule runs_mono [OF store_tag_law]) (auto simp: data_ok_def split: ptr.splits)

lemma set_application_tag_wf:
  assumes "devinfo_wf s" and "data_ok data n" and "unat len \<le> n"
  shows "runs (iolink_device_info_set_application_tag data len s) (\<lambda>(r, s'). devinfo_wf s')"
proof (cases data)
  case NULL
  then show ?thesis using assms by (simp add: iolink_device_info_set_application_tag_def)
next
  case (Ref d)
  then show ?thesis
    using assms by (auto simp: data_ok_def intro: runs_mono [OF iolink_device_info_set_application_tag_law])
qed

lemma shadow_wf_lengths:
  "shadow_wf s \<Longrightarrow> length (nv_application_tag s) = TAG_SIZE \<and> length (nv_function_tag s) = TAG_SIZE \<and>
     length (nv_location_tag s) = TAG_SIZE"
  by (simp add: shadow_wf_def tag_wf_def)

lemma unat_word_of_nat_le: "unat (word_of_nat n :: u8) \<le> n"
  by (simp add: unat_of_nat_u8_mod)

lemma iolink_params_set_wf:
  assumes "globals_wf g" and "data_ok data len"
  shows "runs (iolink_params_set plat index subindex data len persist g) (\<lambda>(r, g'). globals_wf g')"
proof -
  from assms(1) have ds: "devinfo_wf (gl_info g)" and sh: "shadow_wf (g_nvm_shadow g)"
    by (simp_all add: globals_wf_def)
  note lens = shadow_wf_lengths [OF sh]
  note tags = lens [THEN conjunct1, THEN store_tag_wf, OF assms(2)]
    lens [THEN conjunct2, THEN conjunct1, THEN store_tag_wf, OF assms(2)]
    lens [THEN conjunct2, THEN conjunct2, THEN store_tag_wf, OF assms(2)]
  note app = set_application_tag_wf [OF ds assms(2) unat_word_of_nat_le]
  show ?thesis
    unfolding iolink_params_set_def
    using assms(1) sh
    by (auto simp: Let_def shadow_wf_def globals_wf_def
        intro!: runs_mono [OF app] runs_mono [OF tags(1)] runs_mono [OF tags(2)] runs_mono [OF tags(3)]
        split: prod.splits)
qed

lemma iolink_params_factory_reset_law:
  assumes "globals_wf g"
  shows "runs (iolink_params_factory_reset plat g)
    (\<lambda>g'. globals_wf g' \<and> nv_magic (g_nvm_shadow g') = PARAMS_NVM_MAGIC \<and>
       cstr_of (nv_application_tag (g_nvm_shadow g')) = [] \<and>
       cstr_of (nv_function_tag (g_nvm_shadow g')) = [] \<and>
       cstr_of (nv_location_tag (g_nvm_shadow g')) = [] \<and>
       (g_device_info (gl_info g) = InfoDefault \<longrightarrow> cstr_of (g_app_tag_buffer (gl_info g')) = []))"
proof -
  from assms have ds: "devinfo_wf (gl_info g)" and sh: "shadow_wf (g_nvm_shadow g)"
    by (simp_all add: globals_wf_def)
  note lens = shadow_wf_lengths [OF sh]
  have app: "runs (iolink_device_info_set_application_tag (Ref [0]) 0 (gl_info g))
    (\<lambda>(r, s'). devinfo_wf s' \<and>
       (g_device_info (gl_info g) = InfoDefault \<longrightarrow> cstr_of (g_app_tag_buffer s') = []))"
    by (rule runs_mono [OF iolink_device_info_set_application_tag_law [OF ds]])
       (auto simp: cstr_of_def)
  show ?thesis
    unfolding iolink_params_factory_reset_def
    using lens tag_wf_set_0
    by (auto simp: shadow_wf_def globals_wf_def intro!: runs_mono [OF app])
qed

lemma copy_out_law:
  assumes "tag_wf tag \<or> 0 \<in> set tag" and "length (cstr_of tag) \<le> length buf \<or> max_len \<le> length buf"
  defines "len \<equiv> min (length (cstr_of tag)) max_len"
  shows "copy_out tag buf max_len = Some (int len, take len (cstr_of tag) @ drop len buf)"
proof -
  have nul: "0 \<in> set tag" using assms(1) by (auto simp: tag_wf_def)
  have "len \<le> length tag" using length_cstr_of_le [of tag] by (simp add: len_def)
  moreover have "take len tag = take len (cstr_of tag)"
    unfolding len_def by (metis min.cobounded1 min_def take_strlen take_take)
  ultimately show ?thesis
    using assms(2)
    by (auto simp: copy_out_def strlen_Some [OF nul] memcpy_def len_def Let_def min_def split: if_splits)
qed

lemma iolink_params_get_wf:
  assumes "globals_wf g" and "\<And>b. buf = Ref b \<Longrightarrow> max_len \<le> length b"
  shows "runs (iolink_params_get i sub buf max_len g) (\<lambda>(_, _, g'). globals_wf g')"
proof -
  from assms(1) have ds: "devinfo_wf (gl_info g)" and sh: "shadow_wf (g_nvm_shadow g)"
    by (simp_all add: globals_wf_def)
  obtain info ds' where get: "iolink_device_info_get (gl_info g) = (info, ds')" by fastforce
  note inf = iolink_device_info_get_wf [OF ds get]
  have app: "0 \<in> set t" if "str_array ds' (di_application_tag info) = Ref t" for t
    using that inf by (auto simp: info_wf_def intro: str_array_terminated)
  show ?thesis
    using assms app sh inf get
    by (auto simp: iolink_params_get_def Let_def copy_out_law shadow_wf_def globals_wf_def split: ptr.splits)
qed

lemma le32_roundtrip: "le32_word (le32_bytes m @ r) = m"
proof (rule bit_word_eqI)
  fix n assume "n < LENGTH(32)"
  then have "n < 8 \<or> 8 \<le> n \<and> n < 16 \<or> 16 \<le> n \<and> n < 24 \<or> 24 \<le> n \<and> n < 32" by auto
  then show "bit (le32_word (le32_bytes m @ r)) n = bit m n"
    by (auto simp: le32_word_def le32_bytes_def bit_simps)
qed

lemma length_params_bytes:
  "shadow_wf s \<Longrightarrow> length (params_bytes s) = 104"
  by (simp add: params_bytes_def le32_bytes_def shadow_wf_def tag_wf_def)

lemma params_bytes_roundtrip:
  assumes "shadow_wf s"
  shows "params_of_bytes (params_bytes s) = s"
proof -
  have len4: "length (le32_bytes m) = 4" for m by (simp add: le32_bytes_def)
  note lens = shadow_wf_lengths [OF assms]
  show ?thesis
    using lens le32_roundtrip [of "nv_magic s"]
    by (cases s) (simp add: params_of_bytes_def params_bytes_def len4 nth_append)
qed

text \<open>What start-up needs of the stored record: if it carries the magic number, its tags end.\<close>

definition nvm_sane :: "'w platform \<Rightarrow> 'w \<Rightarrow> bool" where
  "nvm_sane plat w \<longleftrightarrow>
     (\<forall>buf r b w'. length buf = 104 \<longrightarrow> nvm_read plat 0 buf w = (r, b, w') \<longrightarrow>
        length b = 104 \<and>
        (r = 0 \<and> nv_magic (params_of_bytes b) = PARAMS_NVM_MAGIC \<longrightarrow> shadow_wf (params_of_bytes b)))"

lemma params_of_bytes_lengths:
  "length b = 104 \<Longrightarrow>
     length (nv_application_tag (params_of_bytes b)) = 33 \<and>
     length (nv_function_tag (params_of_bytes b)) = 33 \<and>
     length (nv_location_tag (params_of_bytes b)) = 33"
  by (simp add: params_of_bytes_def)

lemma default_app_tag_wf:
  assumes "length app = TAG_SIZE" and "\<And>t. tag = Ref t \<Longrightarrow> 0 \<in> set t"
  shows "runs (default_app_tag app tag) tag_wf"
proof (cases tag)
  case NULL
  then show ?thesis using assms(1) tag_wf_set_0 by (simp add: default_app_tag_def)
next
  case (Ref t)
  let ?n = "if length (cstr_of t) > 32 then 32 else length (cstr_of t)"
  have n: "?n < 33" "?n \<le> length t" using length_cstr_of_le [of t] by auto
  with assms(1) have "(take ?n t @ drop ?n app)[?n := 0] = take ?n t @ 0 # drop (Suc ?n) app"
    by (simp add: list_update_append Cons_nth_drop_Suc [symmetric])
  with Ref assms n show ?thesis
    by (simp add: default_app_tag_def Let_def tag_wf_def)
qed

lemma iolink_params_init_wf:
  assumes "globals_wf g" and "nvm_sane plat (gl_world g)"
  shows "runs (iolink_params_init plat g) globals_wf"
proof -
  obtain r b w where rd: "nvm_read plat 0 (params_bytes (g_nvm_shadow g)) (gl_world g) = (r, b, w)"
    by (metis prod_cases3)
  from assms(1) have ds: "devinfo_wf (gl_info g)" and sh: "shadow_wf (g_nvm_shadow g)"
    by (simp_all add: globals_wf_def)
  from assms(2) rd length_params_bytes [OF sh]
  have b: "length b = 104" and
    ok: "r = 0 \<Longrightarrow> nv_magic (params_of_bytes b) = PARAMS_NVM_MAGIC \<Longrightarrow> shadow_wf (params_of_bytes b)"
    by (auto simp: nvm_sane_def)
  let ?s = "params_of_bytes b"
  note lens = params_of_bytes_lengths [OF b]
  obtain info ds' where get: "iolink_device_info_get (gl_info g) = (info, ds')" by fastforce
  note inf = iolink_device_info_get_wf [OF ds get]
  show ?thesis
  proof (cases "r = 0 \<and> nv_magic ?s = PARAMS_NVM_MAGIC")
    case True
    then have s: "shadow_wf ?s" using ok by blast
    let ?t = "nv_application_tag ?s"
    have t: "0 \<in> set ?t" "length (cstr_of ?t) < 33"
      using s length_cstr_of_less [of ?t] by (auto simp: shadow_wf_def tag_wf_def)
    have "runs (iolink_device_info_set_application_tag (Ref ?t) (word_of_nat (length (cstr_of ?t)))
            (gl_info g)) (\<lambda>(r, s'). devinfo_wf s')"
      by (rule set_application_tag_wf [OF ds, of _ "length ?t"])
         (use t lens in \<open>auto simp: data_ok_def\<close>)
    then show ?thesis
      using True s t by (simp add: iolink_params_init_def rd Let_def split_def)
  next
    case False
    have "runs (default_app_tag (nv_application_tag ?s) (str_array ds' (di_application_tag info))) tag_wf"
      using lens inf by (intro default_app_tag_wf) (auto simp: info_wf_def intro: str_array_terminated)
    with False lens inf tag_wf_set_0 show ?thesis
      by (auto simp: iolink_params_init_def rd get Let_def globals_wf_def shadow_wf_def)
  qed
qed

section \<open>Reading back what was written\<close>

text \<open>The value a tag index shows, as a function of the state.\<close>

definition tag_value :: "u16 \<Rightarrow> 'w globals \<Rightarrow> bytes" where
  "tag_value index g =
     (if index = 0x0018 then
        (case str_array (gl_info g) (di_application_tag (current_info (gl_info g))) of
           NULL \<Rightarrow> [] | Ref t \<Rightarrow> cstr_of t)
      else if index = 0x0019 then cstr_of (nv_function_tag (g_nvm_shadow g))
      else cstr_of (nv_location_tag (g_nvm_shadow g)))"

definition tag_index :: "u16 \<Rightarrow> bool" where
  "tag_index i \<longleftrightarrow> i = 0x0018 \<or> i = 0x0019 \<or> i = 0x001A"

definition has_app_tag :: "'w globals \<Rightarrow> bool" where
  "has_app_tag g \<longleftrightarrow> di_application_tag (current_info (gl_info g)) \<noteq> StrNull"

lemma iolink_params_get_law:
  assumes "globals_wf g" and "tag_index index" and "max_len \<le> length buf"
    and "index = 0x0018 \<Longrightarrow> has_app_tag g"
  defines "n \<equiv> min (length (tag_value index g)) max_len"
  shows "runs (iolink_params_get index 0 (Ref buf) max_len g)
    (\<lambda>(r, b, g'). r = int n \<and> b = Ref (take n (tag_value index g) @ drop n buf) \<and>
       globals_wf g' \<and> g_nvm_shadow g' = g_nvm_shadow g \<and> gl_world g' = gl_world g)"
proof (cases "index = 0x0018")
  case True
  from assms(1) have ds: "devinfo_wf (gl_info g)" and sh: "shadow_wf (g_nvm_shadow g)"
    by (simp_all add: globals_wf_def)
  obtain info ds' where get: "iolink_device_info_get (gl_info g) = (info, ds')" by fastforce
  note inf = iolink_device_info_get_wf [OF ds get]
  have cur: "info = current_info (gl_info g)"
    using get by (auto simp: iolink_device_info_get_def current_info_def Let_def split: if_splits)
  with assms(4) True obtain t where t: "str_array ds' (di_application_tag info) = Ref t"
    by (cases "di_application_tag info") (auto simp: has_app_tag_def str_array_def)
  then have tv: "tag_value index g = cstr_of t"
    using True cur inf by (auto simp: tag_value_def str_array_def split: c_str.splits)
  have "0 \<in> set t" using t inf by (auto simp: info_wf_def intro: str_array_terminated)
  with copy_out_law [of t buf max_len] assms(3)
  have "copy_out t buf max_len = Some (int n, take n (tag_value index g) @ drop n buf)"
    by (simp add: n_def tv)
  with True get t inf sh show ?thesis
    by (simp add: iolink_params_get_def Let_def)
next
  case False
  with assms(2) have i: "index = 0x0019 \<or> index = 0x001A" by (simp add: tag_index_def)
  let ?t = "if index = 0x0019 then nv_function_tag (g_nvm_shadow g) else nv_location_tag (g_nvm_shadow g)"
  from assms(1) have "tag_wf ?t" by (simp add: globals_wf_def shadow_wf_def)
  with copy_out_law [of ?t buf max_len] assms(3)
  have "copy_out ?t buf max_len = Some (int n, take n (tag_value index g) @ drop n buf)"
    using i by (auto simp: n_def tag_value_def)
  with i assms(1) show ?thesis
    by (auto simp: iolink_params_get_def)
qed

text \<open>When a write of a tag is accepted.\<close>

definition tag_write_ok :: "u16 \<Rightarrow> nat \<Rightarrow> 'w globals \<Rightarrow> bool" where
  "tag_write_ok index len g \<longleftrightarrow>
     tag_index index \<and> (index = 0x0018 \<longrightarrow> g_device_info (gl_info g) = InfoDefault \<and> len \<le> 32)"

lemma iolink_params_set_accepts:
  assumes "globals_wf g" and "tag_write_ok index len g" and "len \<le> length d"
  shows "runs (iolink_params_set plat index 0 (Ref d) len persist g)
    (\<lambda>(r, g'). r = 0 \<and> globals_wf g' \<and> tag_value index g' = cstr_of (take (min 32 len) d) \<and>
       (index = 0x0018 \<longrightarrow> has_app_tag g'))"
proof -
  from assms(1) have ds: "devinfo_wf (gl_info g)" and sh: "shadow_wf (g_nvm_shadow g)"
    by (simp_all add: globals_wf_def)
  note lens = shadow_wf_lengths [OF sh]
  have st: "runs (store_tag tag (Ref d) len) (\<lambda>t. tag_wf t \<and> cstr_of t = cstr_of (take (min 32 len) d))"
    if "length tag = 33" for tag
    using store_tag_law [of tag "Ref d" len] that assms(3) by simp
  show ?thesis
  proof (cases "index = 0x0018")
    case True
    with assms(2) have dflt: "g_device_info (gl_info g) = InfoDefault" and len: "len \<le> 32"
      by (simp_all add: tag_write_ok_def)
    have app: "runs (iolink_device_info_set_application_tag (Ref d) (word_of_nat len) (gl_info g))
      (\<lambda>(r, s'). r = 0 \<and> devinfo_wf s' \<and> g_device_info s' = InfoDefault \<and>
         di_application_tag (current_info s') = StrAppTag \<and>
         cstr_of (g_app_tag_buffer s') = cstr_of (take len d))"
      by (rule runs_mono [OF iolink_device_info_set_application_tag_law [OF ds]])
         (use len dflt assms(3) in auto)
    show ?thesis
      unfolding iolink_params_set_def
      using True lens sh len
      by (auto simp: iolink_buf_is_valid_def Let_def tag_value_def has_app_tag_def str_array_def
          globals_wf_def shadow_wf_def intro!: runs_mono [OF app] runs_mono [OF st])
  next
    case False
    with assms(2) have "index = 0x0019 \<or> index = 0x001A" by (simp add: tag_write_ok_def tag_index_def)
    then show ?thesis
      unfolding iolink_params_set_def
      using lens sh ds
      by (auto simp: iolink_buf_is_valid_def Let_def tag_value_def
          globals_wf_def shadow_wf_def intro!: runs_mono [OF st])
  qed
qed

lemma params_get_value:
  assumes "globals_wf g" and "tag_index index" and "max_len \<le> length buf" and "index = 0x0018 \<longrightarrow> has_app_tag g"
  shows "runs (iolink_params_get index 0 (Ref buf) max_len g)
    (\<lambda>(n, b, g'). let v = take max_len (tag_value index g) in
       n = int (length v) \<and> b = Ref (v @ drop (length v) buf) \<and> globals_wf g')"
proof -
  have "take (min n (length xs)) xs = take n xs" for n and xs :: bytes by (simp add: min_def)
  then show ?thesis
    by (intro runs_mono [OF iolink_params_get_law [OF assms(1-3)]])
       (use assms(4) in \<open>auto simp: Let_def min.commute\<close>)
qed

section \<open>Persistence\<close>

text \<open>The stored value of a tag index.\<close>

definition shadow_tag :: "u16 \<Rightarrow> iolink_params_nvm \<Rightarrow> bytes" where
  "shadow_tag index sh =
     cstr_of (if index = 0x0018 then nv_application_tag sh else if index = 0x0019 then nv_function_tag sh
              else nv_location_tag sh)"

text \<open>A restart: static state, the application selects the default record, the memory is as it was left.\<close>

definition restarted :: "'w \<Rightarrow> 'w globals" where
  "restarted w = (globals_static w)\<lparr>gl_info := iolink_device_info_init NULL device_info_static\<rparr>"

lemma restarted_wf: "globals_wf (restarted w)" "gl_world (restarted w) = w" "g_device_info (gl_info (restarted w)) = InfoDefault"
proof -
  have "devinfo_wf (iolink_device_info_init NULL device_info_static)"
    by (rule iolink_device_info_init_wf [OF devinfo_wf_static]) simp
  then show "globals_wf (restarted w)" using globals_wf_static [of w] by (simp add: restarted_def globals_wf_def)
qed (simp_all add: restarted_def globals_static_def iolink_device_info_init_def)

lemma cstr_of_cstr_of [simp]: "cstr_of (cstr_of t) = cstr_of t"
  by (simp add: cstr_of_def)

lemma params_init_stored:
  assumes "globals_wf g" and "g_device_info (gl_info g) = InfoDefault" and "shadow_wf sh" and "nv_magic sh = PARAMS_NVM_MAGIC"
    and "nvm_read plat 0 (params_bytes (g_nvm_shadow g)) (gl_world g) = (0, params_bytes sh, w')"
  shows "runs (iolink_params_init plat g) (\<lambda>g'. globals_wf g' \<and> g_nvm_shadow g' = sh \<and> gl_world g' = w' \<and>
     has_app_tag g' \<and> (\<forall>i. tag_value i g' = shadow_tag i sh))"
proof -
  have ds: "devinfo_wf (gl_info g)" using assms(1) by (simp add: globals_wf_def)
  let ?t = "nv_application_tag sh"
  let ?n = "length (cstr_of ?t)"
  have t: "0 \<in> set ?t" "?n < 33" "?n \<le> length ?t"
    using assms(3) length_cstr_of_less [of ?t] length_cstr_of_le [of ?t] by (auto simp: shadow_wf_def tag_wf_def)
  have app: "runs (iolink_device_info_set_application_tag (Ref ?t) (word_of_nat ?n) (gl_info g))
      (\<lambda>(r, s'). devinfo_wf s' \<and> g_device_info s' = InfoDefault \<and> di_application_tag (current_info s') = StrAppTag \<and>
         cstr_of (g_app_tag_buffer s') = cstr_of ?t)"
    by (rule runs_mono [OF iolink_device_info_set_application_tag_law [OF ds]])
       (use t assms(2) take_strlen [of ?t] in auto)
  show ?thesis
    using assms(3,4) t
    by (auto simp: iolink_params_init_def assms(5) params_bytes_roundtrip [OF assms(3)] Let_def
        globals_wf_def has_app_tag_def tag_value_def shadow_tag_def str_array_def intro!: runs_mono [OF app])
qed

lemma params_set_stores:
  assumes "globals_wf g" and "tag_write_ok index len g" and "len \<le> length d"
  shows "runs (iolink_params_set plat index 0 (Ref d) len True g)
    (\<lambda>(r, g'). r = 0 \<and> globals_wf g' \<and> (\<exists>sh. g_nvm_shadow g' = sh \<and> shadow_wf sh \<and> nv_magic sh = nv_magic (g_nvm_shadow g) \<and>
       gl_world g' = snd (nvm_write plat 0 (params_bytes sh) (gl_world g)) \<and>
       shadow_tag index sh = cstr_of (take (min 32 len) d) \<and>
       g_device_info (gl_info g') = g_device_info (gl_info g)))"
proof -
  from assms(1) have ds: "devinfo_wf (gl_info g)" and sh: "shadow_wf (g_nvm_shadow g)"
    by (simp_all add: globals_wf_def)
  note lens = shadow_wf_lengths [OF sh]
  have st: "runs (store_tag tag (Ref d) len) (\<lambda>t. tag_wf t \<and> cstr_of t = cstr_of (take (min 32 len) d))"
    if "length tag = 33" for tag
    using store_tag_law [of tag "Ref d" len] that assms(3) by simp
  have commit: "gl_world (nvm_commit plat g') = snd (nvm_write plat 0 (params_bytes (g_nvm_shadow g')) (gl_world g'))" for g'
    by (simp add: nvm_commit_def split: prod.splits)
  have app: "runs (iolink_device_info_set_application_tag (Ref d) (word_of_nat len) (gl_info g))
      (\<lambda>(r, s'). r = 0 \<and> devinfo_wf s' \<and> g_device_info s' = g_device_info (gl_info g))"
    if "index = 0x0018"
    by (rule runs_mono [OF iolink_device_info_set_application_tag_law [OF ds]])
       (use that assms(2,3) in \<open>auto simp: tag_write_ok_def\<close>)
  show ?thesis
    using assms(2) unfolding iolink_params_set_def tag_write_ok_def tag_index_def
    using lens sh ds
    by (auto simp: iolink_buf_is_valid_def Let_def shadow_tag_def commit globals_wf_def shadow_wf_def
        intro!: runs_mono [OF app] runs_mono [OF st])
qed

context nvm_store
begin

text \<open>A persisted write into a blank memory survives a restart.\<close>

lemma set_restart:
  assumes "globals_wf g" and "nv_magic (g_nvm_shadow g) = PARAMS_NVM_MAGIC" and "blank (gl_world g)"
    and "\<And>b. length b = 104 \<Longrightarrow> fst (nvm_write plat 0 b (gl_world g)) = 0"
    and "tag_write_ok index len g" and "len \<le> length d"
  shows "runs (iolink_params_set plat index 0 (Ref d) len True g) (\<lambda>(r, g1).
     runs (iolink_params_init plat (restarted (gl_world g1)))
       (\<lambda>g2. globals_wf g2 \<and> has_app_tag g2 \<and> tag_value index g2 = cstr_of (take (min 32 len) d)))"
proof -
  have init: "runs (iolink_params_init plat (restarted (snd (nvm_write plat 0 (params_bytes sh) (gl_world g)))))
     (\<lambda>g2. globals_wf g2 \<and> has_app_tag g2 \<and> tag_value index g2 = shadow_tag index sh)"
    if sh: "shadow_wf sh" "nv_magic sh = PARAMS_NVM_MAGIC" for sh
  proof -
    obtain w' where w': "nvm_write plat 0 (params_bytes sh) (gl_world g) = (0, w')"
      using assms(4) [OF length_params_bytes [OF sh(1)]] by (cases "nvm_write plat 0 (params_bytes sh) (gl_world g)") simp
    have "length (params_bytes (g_nvm_shadow (restarted w'))) = length (params_bytes sh)"
      using restarted_wf(1) [of w'] length_params_bytes sh(1) by (simp add: globals_wf_def)
    from read_written [OF assms(3) w' this] obtain w'' where
      "nvm_read plat 0 (params_bytes (g_nvm_shadow (restarted w'))) (gl_world (restarted w')) = (0, params_bytes sh, w'')"
      by (auto simp: restarted_wf(2))
    from params_init_stored [OF restarted_wf(1,3) sh this] show ?thesis
      by (auto simp: w' elim!: runs_mono)
  qed
  show ?thesis
    using assms(2) by (auto intro!: runs_mono [OF params_set_stores [OF assms(1,5,6)]] runs_mono [OF init])
qed

end

section \<open>Correctness of the parameter manager\<close>

text \<open>A device that has started with the default record and an erased memory.\<close>

definition demo_linux :: linux_world where
  "demo_linux = \<lparr>lw_nvm_file = None, lw_stdio = stdio_ok, lw_clock = [(0, 1, 0)]\<rparr>"

definition demo_globals :: "linux_world globals" where
  "demo_globals = (restarted demo_linux)\<lparr>g_nvm_shadow := zero_params_nvm\<lparr>nv_magic := PARAMS_NVM_MAGIC\<rparr>\<rparr>"

lemma demo_globals_simps:
  "globals_wf demo_globals" "nv_magic (g_nvm_shadow demo_globals) = PARAMS_NVM_MAGIC" "linux_nvm_blank (gl_world demo_globals)"
  "tag_write_ok 0x0018 3 demo_globals" "tag_write_ok 0x0019 3 demo_globals"
  using restarted_wf [of demo_linux]
  by (simp_all add: demo_globals_def globals_wf_def shadow_wf_def tag_wf_def zero_params_nvm_def demo_linux_def linux_nvm_blank_def
      tag_write_ok_def tag_index_def)

lemma linux_write_ok: "linux_nvm_blank w \<Longrightarrow> fst (nvm_write linux_platform 0 b w) = 0"
  by (auto simp: linux_platform_def linux_nvm_write_def linux_nvm_blank_def iolink_buf_is_valid_def Let_def)

text \<open>
  What is written to a tag is what a read returns.  A write of a tag that the device accepts,
  cut to 32 bytes and ended at its first zero byte, is returned by the next read of the same index,
  clipped to the reader's buffer, the rest of which is untouched; with and without persistence.
\<close>

theorem params_set_get:
  assumes "globals_wf g" and "tag_write_ok index len g" and "len \<le> length d" and "max_len \<le> length buf"
  shows "runs (do { (r, g1) \<leftarrow> iolink_params_set plat index 0 (Ref d) len persist g;
                    iolink_params_get index 0 (Ref buf) max_len g1 })
    (\<lambda>(n, b, g2). let v = take max_len (cstr_of (take (min 32 len) d)) in
       n = int (length v) \<and> b = Ref (v @ drop (length v) buf) \<and> globals_wf g2)"
proof -
  have idx: "tag_index index" using assms(2) by (simp add: tag_write_ok_def)
  show ?thesis
    by (auto intro!: runs_mono [OF iolink_params_set_accepts [OF assms(1-3)]] runs_mono [OF params_get_value [OF _ idx assms(4)]])
qed

lemma params_set_get_witness:
  "runs (do { (r, g1) \<leftarrow> iolink_params_set linux_platform 0x0018 0 (Ref [65, 66, 67]) 3 True demo_globals;
              iolink_params_get 0x0018 0 (Ref [0, 0, 0, 0]) 4 g1 }) (\<lambda>(n, b, g2). n = 3 \<and> b = Ref [65, 66, 67, 0])"
  by (rule runs_mono [OF params_set_get [OF demo_globals_simps(1,4)]]) (auto simp: cstr_of_def)

text \<open>
  A persisted tag survives a restart.  If the memory was blank, a persisted write of a tag on
  the Linux port is found again by the initialisation after a restart: every read of that index then shows
  the written value.
\<close>

theorem params_survive_restart:
  assumes "globals_wf g" and "nv_magic (g_nvm_shadow g) = PARAMS_NVM_MAGIC" and "linux_nvm_blank (gl_world g)"
    and "tag_write_ok index len g" and "len \<le> length d" and "max_len \<le> length buf"
  shows "runs (do { (r, g1) \<leftarrow> iolink_params_set linux_platform index 0 (Ref d) len True g;
                    g2 \<leftarrow> iolink_params_init linux_platform (restarted (gl_world g1));
                    iolink_params_get index 0 (Ref buf) max_len g2 })
    (\<lambda>(n, b, g3). let v = take max_len (cstr_of (take (min 32 len) d)) in
       n = int (length v) \<and> b = Ref (v @ drop (length v) buf))"
proof -
  have idx: "tag_index index" using assms(4) by (simp add: tag_write_ok_def)
  show ?thesis
    by (auto intro!: runs_mono [OF linux_nvm.set_restart [OF assms(1-3) linux_write_ok [OF assms(3)] assms(4,5)]]
        elim!: runs_mono intro!: runs_mono [OF params_get_value [OF _ idx assms(6)]])
qed

lemma params_survive_restart_witness:
  "runs (do { (r, g1) \<leftarrow> iolink_params_set linux_platform 0x0018 0 (Ref [65, 66, 67]) 3 True demo_globals;
              g2 \<leftarrow> iolink_params_init linux_platform (restarted (gl_world g1));
              iolink_params_get 0x0018 0 (Ref [0, 0, 0, 0]) 4 g2 }) (\<lambda>(n, b, g2). b = Ref [65, 66, 67, 0])"
  by (rule runs_mono [OF params_survive_restart [OF demo_globals_simps(1-4)]]) (auto simp: cstr_of_def)

text \<open>
  C40: On the Linux port only the first persisted write counts.  The file is opened for appending, so
  every later record lands behind the first one, and the initialisation after a restart reads the first: the
  second of two persisted writes to the same tag is lost.
\<close>

theorem linux_second_write_lost:
  assumes "globals_wf g" and "nv_magic (g_nvm_shadow g) = PARAMS_NVM_MAGIC" and "linux_nvm_blank (gl_world g)"
    and "tag_write_ok index len g" and "len \<le> length d" and "tag_write_ok index len' g" and "len' \<le> length d'"
  shows "runs (do { (r, g1) \<leftarrow> iolink_params_set linux_platform index 0 (Ref d) len True g;
                    (r, g2) \<leftarrow> iolink_params_set linux_platform index 0 (Ref d') len' True g1;
                    iolink_params_init linux_platform (restarted (gl_world g2)) })
    (\<lambda>g3. tag_value index g3 = cstr_of (take (min 32 len) d))"
proof -
  have again: "runs (iolink_params_set linux_platform index 0 (Ref d') len' True g1)
      (\<lambda>(r, g2). runs (iolink_params_init linux_platform (restarted (gl_world g2))) (\<lambda>g3. tag_value index g3 = shadow_tag index sh))"
    if g1: "globals_wf g1" "gl_world g1 = snd (nvm_write linux_platform 0 (params_bytes sh) (gl_world g))"
      "g_device_info (gl_info g1) = g_device_info (gl_info g)" and sh: "shadow_wf sh" "nv_magic sh = PARAMS_NVM_MAGIC" for g1 sh
  proof -
    have ok: "tag_write_ok index len' g1" using assms(6) g1(3) by (simp add: tag_write_ok_def)
    have read: "\<exists>w'. nvm_read linux_platform 0 (params_bytes (g_nvm_shadow (restarted w2))) (gl_world (restarted w2)) = (0, params_bytes sh, w')"
      if "w2 = snd (nvm_write linux_platform 0 (params_bytes sh2) (gl_world g1))" for w2 sh2
    proof -
      have "length (params_bytes (g_nvm_shadow (restarted w2))) = 104" "length (params_bytes sh) = 104"
        using restarted_wf(1) [of w2] length_params_bytes sh(1) by (simp_all add: globals_wf_def)
      then show ?thesis
        using assms(3) that g1(2)
        by (auto simp: restarted_wf(2) linux_platform_def linux_nvm_read_def linux_nvm_write_def linux_nvm_blank_def
            iolink_buf_is_valid_def Let_def)
    qed
    show ?thesis
      by (auto intro!: runs_mono [OF params_set_stores [OF g1(1) ok assms(7)]]
          dest!: read intro: runs_mono [OF params_init_stored [OF restarted_wf(1,3) sh]])
  qed
  show ?thesis
    using assms(2) by (auto intro!: runs_mono [OF params_set_stores [OF assms(1,4,5)]] runs_mono [OF again])
qed

lemma linux_second_write_lost_witness:
  "runs (do { (r, g1) \<leftarrow> iolink_params_set linux_platform 0x0019 0 (Ref [65, 65, 65]) 3 True demo_globals;
              (r, g2) \<leftarrow> iolink_params_set linux_platform 0x0019 0 (Ref [66, 66, 66]) 3 True g1;
              iolink_params_init linux_platform (restarted (gl_world g2)) }) (\<lambda>g3. tag_value 0x0019 g3 = [65, 65, 65])"
  by (rule runs_mono [OF linux_second_write_lost [OF demo_globals_simps(1-3,5) _ demo_globals_simps(5)]]) (auto simp: cstr_of_def)

end
