(* ===== verification/Isdu_Services.thy ===== *)
theory Isdu_Services
  imports Isdu Events Data_Storage Params
begin

text \<open>
  \<^verbatim>\<open>src/isdu.c\<close>, the service half: \<^verbatim>\<open>iolink_isdu_process\<close> and the handlers behind it.  They work
  on the engine and on what its pointers are bound to: the event queue, the Data Storage engine,
  the statistics of the data link layer, and the file-scope state of the parameter manager and
  the device record.  \<open>isdu_sys\<close> is that whole state; a handler maps it to the state at its return.
\<close>

section \<open>Data\<close>

text \<open>The statistics \<^verbatim>\<open>iolink_dll_get_stats\<close> reports.\<close>

record iolink_dll_stats =
  st_crc_errors :: u32
  st_timeout_errors :: u32
  st_framing_errors :: u32
  st_timing_errors :: u32
  st_t_ren_violations :: u32
  st_t_cycle_violations :: u32
  st_t_byte_violations :: u32
  st_t_pd_violations :: u32
  st_total_retries :: u32
  st_voltage_faults :: u32
  st_short_circuits :: u32

record 'w isdu_sys =
  sy_isdu :: iolink_isdu_ctx
  sy_events :: iolink_events_ctx
  sy_ds :: iolink_ds_ctx
  sy_stats :: iolink_dll_stats
  sy_globals :: "'w globals"

definition on_isdu ::
  "(iolink_isdu_ctx \<Rightarrow> iolink_isdu_ctx option) \<Rightarrow> 'w isdu_sys \<Rightarrow> 'w isdu_sys option" where
  "on_isdu f s = map_option (\<lambda>c. s\<lparr>sy_isdu := c\<rparr>) (f (sy_isdu s))"

text \<open>A pointer field, resolved to the object it is bound to.\<close>

definition bound :: "unit ptr \<Rightarrow> 'a \<Rightarrow> 'a ptr" where
  "bound p x = (case p of NULL \<Rightarrow> NULL | Ref _ \<Rightarrow> Ref x)"

section \<open>Replies\<close>

text \<open>Big-endian bytes, a reply that also restarts the segment numbers, and the empty reply.\<close>

definition u16_be :: "u16 \<Rightarrow> bytes" where
  "u16_be w = [ucast (drop_bit 8 w), ucast (w AND 0xFF)]"

definition u32_be :: "u32 \<Rightarrow> bytes" where
  "u32_be w = [ucast (drop_bit 24 w), ucast (drop_bit 16 w), ucast (drop_bit 8 w), ucast (w AND 0xFF)]"

definition isdu_reply_seq0 :: "bytes \<Rightarrow> iolink_isdu_ctx \<Rightarrow> iolink_isdu_ctx option" where
  "isdu_reply_seq0 bs c = map_option (\<lambda>c. c\<lparr>is_segment_seq := 0\<rparr>) (isdu_reply bs c)"

definition isdu_error :: "u8 \<Rightarrow> iolink_isdu_ctx \<Rightarrow> iolink_isdu_ctx option" where
  "isdu_error code = isdu_reply [0x80, code]"

definition is_write :: "iolink_isdu_ctx \<Rightarrow> bool" where
  "is_write c \<longleftrightarrow> hdr_type (is_header c) = IOLINK_ISDU_SERVICE_TYPE_WRITE"

definition is_read :: "iolink_isdu_ctx \<Rightarrow> bool" where
  "is_read c \<longleftrightarrow> hdr_type (is_header c) = IOLINK_ISDU_SERVICE_TYPE_READ"

section \<open>The identification indices\<close>

text \<open>
  The tag indices.  A rejected access leaves the switch with no string selected, so nothing is
  prepared.  The location tag does not restart the segment numbers (\<open>seq0\<close>).
\<close>

definition handle_tag_write ::
  "'w platform \<Rightarrow> u16 \<Rightarrow> bool \<Rightarrow> 'w isdu_sys \<Rightarrow> 'w isdu_sys option" where
  "handle_tag_write plat index seq0 s =
     (let c = sy_isdu s in do {
        (r, g) \<leftarrow> iolink_params_set plat index 0 (Ref (is_buffer c)) (is_buffer_idx c) True (sy_globals s);
        let s = s\<lparr>sy_globals := g\<rparr>;
        if r = 0 then on_isdu (if seq0 then isdu_reply_seq0 [] else isdu_reply []) s
        else Some s })"

definition handle_tag_read :: "u16 \<Rightarrow> bool \<Rightarrow> 'w isdu_sys \<Rightarrow> 'w isdu_sys option" where
  "handle_tag_read index seq0 s =
     (let c = sy_isdu s in do {
        (res, buf, g) \<leftarrow> iolink_params_get index 0 (Ref (is_response_buf c)) IOLINK_ISDU_BUFFER_SIZE
                            (sy_globals s);
        let s = s\<lparr>sy_globals := g, sy_isdu := c\<lparr>is_response_buf := deref buf\<rparr>\<rparr>;
        if res \<ge> 0 then
          on_isdu (\<lambda>c. Some ((isdu_ready (c\<lparr>is_response_len := nat res mod 256\<rparr>))
                             \<lparr>is_segment_seq := if seq0 then 0 else is_segment_seq c\<rparr>)) s
        else Some s })"

definition handle_tag ::
  "'w platform \<Rightarrow> u16 \<Rightarrow> bool \<Rightarrow> 'w isdu_sys \<Rightarrow> 'w isdu_sys option" where
  "handle_tag plat index seq0 s =
     (if is_write (sy_isdu s) then handle_tag_write plat index seq0 s
      else handle_tag_read index seq0 s)"

text \<open>The string of an identification index, and its transfer to the response buffer.\<close>

definition mandatory_string :: "iolink_device_info \<Rightarrow> u16 \<Rightarrow> c_str option" where
  "mandatory_string info index =
     (if index = IOLINK_IDX_VENDOR_NAME then Some (di_vendor_name info)
      else if index = IOLINK_IDX_VENDOR_TEXT then Some (di_vendor_text info)
      else if index = IOLINK_IDX_PRODUCT_NAME then Some (di_product_name info)
      else if index = IOLINK_IDX_PRODUCT_ID then Some (di_product_id info)
      else if index = IOLINK_IDX_PRODUCT_TEXT then Some (di_product_text info)
      else if index = IOLINK_IDX_SERIAL_NUMBER then Some (di_serial_number info)
      else if index = IOLINK_IDX_HARDWARE_REVISION then Some (di_hardware_revision info)
      else if index = IOLINK_IDX_FIRMWARE_REVISION then Some (di_firmware_revision info)
      else None)"

definition reply_string :: "bytes ptr \<Rightarrow> iolink_isdu_ctx \<Rightarrow> iolink_isdu_ctx option" where
  "reply_string str_data c =
     (case str_data of NULL \<Rightarrow> Some c
      | Ref str \<Rightarrow> do {
          n \<leftarrow> strlen str;
          let len_sz = (if n > IOLINK_ISDU_BUFFER_SIZE then IOLINK_ISDU_BUFFER_SIZE else n);
          buf \<leftarrow> memcpy (is_response_buf c) 0 str 0 len_sz;
          Some (isdu_ready (c\<lparr>is_response_buf := buf, is_response_len := len_sz mod 256\<rparr>)) })"

text \<open>Three bytes of an event at slot \<open>i\<close> of the response.\<close>

definition put_event :: "u8 \<Rightarrow> iolink_event \<Rightarrow> nat \<Rightarrow> bytes \<Rightarrow> bytes option" where
  "put_event qualifier ev i buf = do {
     buf \<leftarrow> arr_set buf (i * 3) qualifier;
     buf \<leftarrow> arr_set buf (i * 3 + 1) (ucast (drop_bit 8 (ev_code ev)));
     arr_set buf (i * 3 + 2) (ucast (ev_code ev AND 0xFF)) }"

text \<open>
  The detailed device status as this switch has it.  \<^verbatim>\<open>handle_standard_commands\<close> takes the index
  before it, so the case is never reached from there.
\<close>

definition status_qualifier :: "iolink_event_type \<Rightarrow> u8" where
  "status_qualifier ty =
     (case ty of IOLINK_EVENT_TYPE_NOTIFICATION \<Rightarrow> 0x40
      | IOLINK_EVENT_TYPE_WARNING \<Rightarrow> 0x80
      | IOLINK_EVENT_TYPE_ERROR \<Rightarrow> 0xC0)"

definition mandatory_detailed_status :: "'w isdu_sys \<Rightarrow> 'w isdu_sys option" where
  "mandatory_detailed_status s =
     (let c = sy_isdu s in do {
        (count, events) \<leftarrow> iolink_events_get_all (bound (is_event_ctx c) (sy_events s))
                              (Ref (replicate 8 zero_event)) 8;
        if count = 0 then Some (s\<lparr>sy_isdu := isdu_ready (c\<lparr>is_response_len := 0\<rparr>)\<rparr>)
        else do {
          buf \<leftarrow> for_loop (unat count)
            (\<lambda>i buf. do { ev \<leftarrow> arr_get (deref events) i; put_event (status_qualifier (ev_type ev)) ev i buf })
            (is_response_buf c);
          Some (s\<lparr>sy_isdu := isdu_ready (c\<lparr>is_response_buf := buf,
                                              is_response_len := (unat count * 3) mod 256\<rparr>)\<rparr>) } })"

definition device_status :: "'w isdu_sys \<Rightarrow> 'w isdu_sys option" where
  "device_status s = do {
     sev \<leftarrow> iolink_events_get_highest_severity (bound (is_event_ctx (sy_isdu s)) (sy_events s));
     on_isdu (isdu_reply [sev]) s }"

text \<open>
  \<^verbatim>\<open>iolink_device_info_get\<close> never returns NULL: it installs the built-in record first.  The reply
  with an error for a missing record that follows the call is dead code and has no branch here.
\<close>

definition handle_mandatory_indices :: "'w platform \<Rightarrow> 'w isdu_sys \<Rightarrow> 'w isdu_sys option" where
  "handle_mandatory_indices plat s =
     (case iolink_device_info_get (gl_info (sy_globals s)) of (info, ds) \<Rightarrow>
      let s = s\<lparr>sy_globals := (sy_globals s)\<lparr>gl_info := ds\<rparr>\<rparr>;
          index = hdr_index (is_header (sy_isdu s)) in
      if index = IOLINK_IDX_VENDOR_ID then on_isdu (isdu_reply_seq0 (u16_be (di_vendor_id info))) s
      else if index = IOLINK_IDX_DEVICE_ID then on_isdu (isdu_reply_seq0 (u32_be (di_device_id info))) s
      else if index = IOLINK_IDX_PROFILE_CHARACTERISTIC then
        on_isdu (isdu_reply_seq0 (u16_be (di_profile_characteristic info))) s
      else if index = IOLINK_IDX_APPLICATION_TAG then handle_tag plat IOLINK_IDX_APPLICATION_TAG True s
      else if index = IOLINK_IDX_FUNCTION_TAG then handle_tag plat IOLINK_IDX_FUNCTION_TAG True s
      else if index = IOLINK_IDX_LOCATION_TAG then handle_tag plat IOLINK_IDX_LOCATION_TAG False s
      else if index = IOLINK_IDX_PDIN_DESCRIPTOR then
        (if is_write (sy_isdu s) then on_isdu (isdu_error IOLINK_ISDU_ERROR_WRITE_PROTECTED) s
         else on_isdu (isdu_reply [2]) s)
      else if index = IOLINK_IDX_DEVICE_STATUS then device_status s
      else if index = IOLINK_IDX_DETAILED_DEVICE_STATUS then mandatory_detailed_status s
      else if index = IOLINK_IDX_REVISION_ID then on_isdu (isdu_reply (u16_be (di_revision_id info))) s
      else if index = IOLINK_IDX_MIN_CYCLE_TIME then on_isdu (isdu_reply [di_min_cycle_time info]) s
      else (case mandatory_string info index of
              Some str \<Rightarrow> on_isdu (reply_string (str_array ds str)) s
            | None \<Rightarrow> on_isdu (isdu_error IOLINK_ISDU_ERROR_SERVICE_NOT_AVAIL) s))"

section \<open>System commands and the remaining indices\<close>

definition ds_error_code :: "int \<Rightarrow> u8" where
  "ds_error_code ret =
     (if ret = -1 then IOLINK_ISDU_ERROR_BUSY
      else if ret = -2 then IOLINK_ISDU_ERROR_WRITE_PROTECTED
      else IOLINK_ISDU_ERROR_SERVICE_NOT_AVAIL)"

text \<open>A Data Storage call: nothing without an engine, an error reply on a non-zero code, else success.\<close>

definition ds_command ::
  "(iolink_ds_ctx \<Rightarrow> int \<times> iolink_ds_ctx) \<Rightarrow> (int \<Rightarrow> u8) \<Rightarrow> 'w isdu_sys \<Rightarrow> 'w isdu_sys option" where
  "ds_command f err s =
     (if is_ds_ctx (sy_isdu s) = NULL then on_isdu (isdu_reply []) s
      else (case f (sy_ds s) of (ret, ds) \<Rightarrow>
              on_isdu (if ret \<noteq> 0 then isdu_error (err ret) else isdu_reply []) (s\<lparr>sy_ds := ds\<rparr>)))"

definition get_access_locks :: "'w isdu_sys \<Rightarrow> u16 \<times> 'w isdu_sys" where
  "get_access_locks s =
     (case iolink_device_info_get_access_locks (gl_info (sy_globals s)) of
        (locks, ds) \<Rightarrow> (locks, s\<lparr>sy_globals := (sy_globals s)\<lparr>gl_info := ds\<rparr>\<rparr>))"

definition handle_system_command ::
  "'w platform \<Rightarrow> u8 \<Rightarrow> 'w isdu_sys \<Rightarrow> 'w isdu_sys option" where
  "handle_system_command plat cmd s =
     (if cmd = IOLINK_CMD_DEVICE_RESET then
        on_isdu (\<lambda>c. isdu_reply [] (c\<lparr>is_reset_pending := True\<rparr>)) s
      else if cmd = IOLINK_CMD_APPLICATION_RESET then
        on_isdu (\<lambda>c. isdu_reply [] (c\<lparr>is_app_reset_pending := True\<rparr>)) s
      else if cmd = IOLINK_CMD_RESTORE_FACTORY_SETTINGS \<or> cmd = IOLINK_CMD_RESTORE_APP_DEFAULTS then do {
        g \<leftarrow> iolink_params_factory_reset plat (sy_globals s);
        on_isdu (isdu_reply []) (s\<lparr>sy_globals := g\<rparr>) }
      else if cmd = IOLINK_CMD_SET_COMM_MODE then on_isdu (isdu_reply []) s
      else if cmd = IOLINK_CMD_PARAM_DOWNLOAD_START \<or> cmd = IOLINK_CMD_PARAM_DOWNLOAD_END \<or>
              cmd = IOLINK_CMD_PARAM_UPLOAD_START \<or> cmd = IOLINK_CMD_PARAM_UPLOAD_END then
        (if is_ds_ctx (sy_isdu s) = NULL then on_isdu (isdu_reply []) s
         else (case get_access_locks s of (locks, s) \<Rightarrow>
                 ds_command (\<lambda>d. iolink_ds_handle_command d cmd locks) ds_error_code s))
      else if cmd = IOLINK_CMD_PARAM_UPLOAD then
        ds_command iolink_ds_start_upload (\<lambda>_. IOLINK_ISDU_ERROR_BUSY) s
      else if cmd = IOLINK_CMD_PARAM_DOWNLOAD then
        ds_command iolink_ds_start_download (\<lambda>_. IOLINK_ISDU_ERROR_BUSY) s
      else if cmd = IOLINK_CMD_PARAM_BREAK then
        ds_command (\<lambda>d. (0, snd (iolink_ds_abort d))) (\<lambda>_. 0) s
      else on_isdu (isdu_error IOLINK_ISDU_ERROR_SERVICE_NOT_AVAIL) s)"

definition handle_access_locks :: "'w isdu_sys \<Rightarrow> 'w isdu_sys option" where
  "handle_access_locks s =
     (if is_read (sy_isdu s) then
        (case get_access_locks s of (locks, s) \<Rightarrow> on_isdu (isdu_reply (u16_be locks)) s)
      else if is_buffer_idx (sy_isdu s) \<ge> 2 then do {
        hi \<leftarrow> arr_get (is_buffer (sy_isdu s)) 0;
        lo \<leftarrow> arr_get (is_buffer (sy_isdu s)) 1;
        let new_locks = push_bit 8 (ucast hi) OR ucast lo;
        let g = sy_globals s;
        on_isdu (isdu_reply [])
          (s\<lparr>sy_globals := g\<lparr>gl_info := iolink_device_info_set_access_locks new_locks (gl_info g)\<rparr>\<rparr>) }
      else on_isdu (isdu_reply []) s)"

definition event_qualifier :: "iolink_event_type \<Rightarrow> u8" where
  "event_qualifier ty =
     0x80 OR (case ty of IOLINK_EVENT_TYPE_NOTIFICATION \<Rightarrow> push_bit 3 0x01
              | IOLINK_EVENT_TYPE_WARNING \<Rightarrow> push_bit 3 0x02
              | IOLINK_EVENT_TYPE_ERROR \<Rightarrow> push_bit 3 0x03) OR 0x02"

text \<open>The error and the unbound case return without making the response ready.\<close>

definition handle_detailed_device_status :: "'w isdu_sys \<Rightarrow> 'w isdu_sys option" where
  "handle_detailed_device_status s =
     (let c = sy_isdu s; q = sy_events s in
      if \<not> is_read c then on_isdu (isdu_store [0x80, IOLINK_ISDU_ERROR_WRITE_PROTECTED]) s
      else if is_event_ctx c = NULL then Some (s\<lparr>sy_isdu := c\<lparr>is_response_len := 0\<rparr>\<rparr>)
      else (let count = min (unat (ev_count q)) 8 in do {
        buf \<leftarrow> for_loop count
          (\<lambda>i buf. do {
             ev \<leftarrow> arr_get (ev_queue q) (unat (ev_slot (ev_head q) i));
             put_event (event_qualifier (ev_type ev)) ev i buf }) (is_response_buf c);
        Some (s\<lparr>sy_isdu := isdu_ready (c\<lparr>is_response_buf := buf,
                                            is_response_len := (count * 3) mod 256\<rparr>)\<rparr>) }))"

definition isdu_write_u32_be :: "bytes \<times> nat \<Rightarrow> u32 \<Rightarrow> (bytes \<times> nat) option" where
  "isdu_write_u32_be bi value = (case bi of (buf, idx) \<Rightarrow> do {
     buf \<leftarrow> arr_set buf idx (ucast (drop_bit 24 value AND 0xFF));
     buf \<leftarrow> arr_set buf (idx + 1) (ucast (drop_bit 16 value AND 0xFF));
     buf \<leftarrow> arr_set buf (idx + 2) (ucast (drop_bit 8 value AND 0xFF));
     buf \<leftarrow> arr_set buf (idx + 3) (ucast (value AND 0xFF));
     Some (buf, idx + 4) })"

definition handle_error_stats :: "'w isdu_sys \<Rightarrow> 'w isdu_sys option" where
  "handle_error_stats s =
     (let c = sy_isdu s; stats = sy_stats s in
      if \<not> is_read c then on_isdu (isdu_store [0x80, IOLINK_ISDU_ERROR_WRITE_PROTECTED]) s
      else if hdr_subindex (is_header c) \<noteq> 0 then
        on_isdu (isdu_store [0x80, IOLINK_ISDU_ERROR_SUBINDEX_NOT_AVAIL]) s
      else if is_dll_ctx c = NULL then
        on_isdu (isdu_store [0x80, IOLINK_ISDU_ERROR_SERVICE_NOT_AVAIL]) s
      else do {
        p \<leftarrow> isdu_write_u32_be (is_response_buf c, 0) (st_crc_errors stats);
        p \<leftarrow> isdu_write_u32_be p (st_timeout_errors stats);
        p \<leftarrow> isdu_write_u32_be p (st_framing_errors stats);
        (buf, idx) \<leftarrow> isdu_write_u32_be p (st_timing_errors stats);
        Some (s\<lparr>sy_isdu := isdu_ready (c\<lparr>is_response_buf := buf, is_response_len := idx mod 256\<rparr>)\<rparr>) })"

text \<open>A read of the system command index takes the oldest event off the queue.\<close>

definition read_event_code :: "'w isdu_sys \<Rightarrow> 'w isdu_sys option" where
  "read_event_code s = do {
     (e, q) \<leftarrow> (if is_event_ctx (sy_isdu s) \<noteq> NULL then iolink_events_pop (sy_events s)
               else Some (None, sy_events s));
     on_isdu (isdu_reply (case e of Some ev \<Rightarrow> u16_be (ev_code ev) | None \<Rightarrow> [0, 0]))
       (s\<lparr>sy_events := q\<rparr>) }"

definition handle_standard_commands :: "'w platform \<Rightarrow> 'w isdu_sys \<Rightarrow> 'w isdu_sys option" where
  "handle_standard_commands plat s =
     (let c = sy_isdu s; index = hdr_index (is_header c) in
      if index = IOLINK_IDX_SYSTEM_COMMAND then
        (if is_write c then
           (if is_buffer_idx c > 0 then do {
              cmd \<leftarrow> arr_get (is_buffer c) 0;
              handle_system_command plat cmd s }
            else on_isdu (isdu_error IOLINK_ISDU_ERROR_SERVICE_NOT_AVAIL) s)
         else read_event_code s)
      else if index = IOLINK_IDX_DEVICE_ACCESS_LOCKS then handle_access_locks s
      else if index = IOLINK_IDX_DETAILED_DEVICE_STATUS then handle_detailed_device_status s
      else if index = IOLINK_IDX_ERROR_STATS then do {
        s \<leftarrow> handle_error_stats s;
        Some (s\<lparr>sy_isdu := isdu_ready (sy_isdu s)\<rparr>) }
      else handle_mandatory_indices plat s)"

definition iolink_isdu_process :: "'w platform \<Rightarrow> 'w isdu_sys \<Rightarrow> 'w isdu_sys option" where
  "iolink_isdu_process plat s =
     (if is_state (sy_isdu s) = ISDU_STATE_BUSY then Some s
      else if is_state (sy_isdu s) = ISDU_STATE_SERVICE_EXECUTE then do {
        s \<leftarrow> handle_standard_commands plat s;
        let c = sy_isdu s;
        Some (s\<lparr>sy_isdu :=
          if is_state c \<noteq> ISDU_STATE_RESPONSE_READY then c\<lparr>is_state := ISDU_STATE_IDLE\<rparr>
          else c\<lparr>is_segment_seq := 0, is_response_control_sent := False\<rparr>\<rparr>) }
      else Some s)"

end
