(* ===== verification/Dll.thy ===== *)
theory Dll
  imports Crc Phy Isdu_Services
begin

text \<open>
  \<^verbatim>\<open>src/dll.c\<close> and \<^verbatim>\<open>include/iolinki/dll.h\<close>: the data link layer.  The context is one record with
  the fields of \<^verbatim>\<open>iolink_dll_ctx_t\<close>; \<open>stack\<close> joins it with the file-scope state of the other
  modules and with the outside state the PHY and the platform act on.  \<^verbatim>\<open>iolink_dll_process\<close> is
  split into the phases of its body, in their order.  The two receive loops end only if the PHY
  stops delivering bytes, so they are partial functions with \<open>None\<close> for a run that never ends; the
  locale \<open>link_env\<close> gives the bound from which termination is proved.
  \<^verbatim>\<open>DLL_LOG\<close> and \<^verbatim>\<open>printf\<close> output is not represented.
\<close>

section \<open>Data\<close>

datatype iolink_dll_state =
    IOLINK_DLL_STATE_STARTUP
  | IOLINK_DLL_STATE_AWAITING_COMM
  | IOLINK_DLL_STATE_PREOPERATE
  | IOLINK_DLL_STATE_ESTAB_COM
  | IOLINK_DLL_STATE_OPERATE
  | IOLINK_DLL_STATE_FALLBACK

text \<open>The codes of \<^verbatim>\<open>iolink_m_seq_type_t\<close>, as the context stores them in a byte.\<close>

definition IOLINK_M_SEQ_TYPE_0 :: u8 where [simp]: "IOLINK_M_SEQ_TYPE_0 = 0"
definition IOLINK_M_SEQ_TYPE_1_1 :: u8 where [simp]: "IOLINK_M_SEQ_TYPE_1_1 = 1"
definition IOLINK_M_SEQ_TYPE_1_2 :: u8 where [simp]: "IOLINK_M_SEQ_TYPE_1_2 = 2"
definition IOLINK_M_SEQ_TYPE_1_V :: u8 where [simp]: "IOLINK_M_SEQ_TYPE_1_V = 3"
definition IOLINK_M_SEQ_TYPE_2_1 :: u8 where [simp]: "IOLINK_M_SEQ_TYPE_2_1 = 4"
definition IOLINK_M_SEQ_TYPE_2_2 :: u8 where [simp]: "IOLINK_M_SEQ_TYPE_2_2 = 5"
definition IOLINK_M_SEQ_TYPE_2_V :: u8 where [simp]: "IOLINK_M_SEQ_TYPE_2_V = 6"

text \<open>Frame lengths, \<^verbatim>\<open>src/dll_internal.h\<close>.\<close>

definition IOLINK_M_SEQ_TYPE1_LEN :: "nat \<Rightarrow> nat" where
  "IOLINK_M_SEQ_TYPE1_LEN pd_len = 4 + pd_len"

definition IOLINK_M_SEQ_TYPE2_LEN :: "nat \<Rightarrow> nat \<Rightarrow> nat" where
  "IOLINK_M_SEQ_TYPE2_LEN pd_len od_len = 3 + pd_len + od_len"

text \<open>The two structures of \<^verbatim>\<open>src/dll_internal.h\<close>; the code never uses them and indexes the bytes instead.\<close>

record iolink_m_seq_type0 =
  m0_master_command :: u8
  m0_ck :: u8

record iolink_od_req =
  odr_od_data :: u8
  odr_valid :: u8

record 'w iolink_dll_ctx =
  dll_state :: iolink_dll_state
  dll_phy :: "'w iolink_phy_api ptr"
  dll_last_activity_ms :: u32
  dll_wakeup_seen :: bool
  dll_m_seq_type :: u8
  dll_pd_in_len :: u8
  dll_pd_out_len :: u8
  dll_od_len :: u8
  dll_pd_valid :: bool
  dll_pd_in_toggle :: bool
  dll_min_cycle_time_us :: u32
  dll_enforce_timing :: bool
  dll_t_ren_limit_us :: u32
  dll_t_ren_override :: bool
  dll_t_pd_delay_us :: u32
  dll_pd_in_len_current :: u8
  dll_pd_out_len_current :: u8
  dll_pd_in_len_max :: u8
  dll_pd_out_len_max :: u8
  dll_phy_mode :: iolink_phy_mode
  dll_baudrate :: iolink_baudrate
  dll_frame_buf :: bytes
  dll_frame_index :: u8
  dll_req_len :: u8
  dll_last_frame_us :: u64
  dll_last_byte_us :: u64
  dll_last_cycle_start_us :: u64
  dll_t_byte_limit_us :: u32
  dll_wakeup_deadline_us :: u64
  dll_t_pd_deadline_us :: u64
  dll_pd_in :: bytes
  dll_pd_out :: bytes
  dll_crc_errors :: u32
  dll_timeout_errors :: u32
  dll_framing_errors :: u32
  dll_timing_errors :: u32
  dll_t_ren_violations :: u32
  dll_t_cycle_violations :: u32
  dll_t_byte_violations :: u32
  dll_t_pd_violations :: u32
  dll_retry_count :: u8
  dll_total_retries :: u32
  dll_max_retries :: u8
  dll_voltage_faults :: u32
  dll_short_circuits :: u32
  dll_fallback_count :: u8
  dll_sio_fallback_threshold :: u8
  dll_last_response_us :: u64
  dll_response_time_us :: u32
  dll_events :: iolink_events_ctx
  dll_isdu :: iolink_isdu_ctx
  dll_ds :: iolink_ds_ctx

definition FRAME_BUF_SIZE :: nat where
  [simp]: "FRAME_BUF_SIZE = 48"

definition zero_dll_ctx :: "'w iolink_dll_ctx" where
  "zero_dll_ctx =
     \<lparr>dll_state = IOLINK_DLL_STATE_STARTUP, dll_phy = NULL, dll_last_activity_ms = 0,
      dll_wakeup_seen = False, dll_m_seq_type = 0, dll_pd_in_len = 0, dll_pd_out_len = 0,
      dll_od_len = 0, dll_pd_valid = False, dll_pd_in_toggle = False, dll_min_cycle_time_us = 0,
      dll_enforce_timing = False, dll_t_ren_limit_us = 0, dll_t_ren_override = False,
      dll_t_pd_delay_us = 0, dll_pd_in_len_current = 0, dll_pd_out_len_current = 0,
      dll_pd_in_len_max = 0, dll_pd_out_len_max = 0, dll_phy_mode = IOLINK_PHY_MODE_INACTIVE,
      dll_baudrate = IOLINK_BAUDRATE_COM1, dll_frame_buf = replicate FRAME_BUF_SIZE 0,
      dll_frame_index = 0, dll_req_len = 0, dll_last_frame_us = 0, dll_last_byte_us = 0,
      dll_last_cycle_start_us = 0, dll_t_byte_limit_us = 0, dll_wakeup_deadline_us = 0,
      dll_t_pd_deadline_us = 0, dll_pd_in = replicate IOLINK_PD_IN_MAX_SIZE 0,
      dll_pd_out = replicate IOLINK_PD_OUT_MAX_SIZE 0, dll_crc_errors = 0, dll_timeout_errors = 0,
      dll_framing_errors = 0, dll_timing_errors = 0, dll_t_ren_violations = 0,
      dll_t_cycle_violations = 0, dll_t_byte_violations = 0, dll_t_pd_violations = 0,
      dll_retry_count = 0, dll_total_retries = 0, dll_max_retries = 0, dll_voltage_faults = 0,
      dll_short_circuits = 0, dll_fallback_count = 0, dll_sio_fallback_threshold = 0,
      dll_last_response_us = 0, dll_response_time_us = 0, dll_events = zero_events_ctx,
      dll_isdu = zero_isdu_ctx, dll_ds = zero_ds_ctx\<rparr>"

section \<open>The stack state and its primitives\<close>

record 'w stack =
  sk_dll :: "'w iolink_dll_ctx"
  sk_globals :: "'w globals"

definition mod_dll :: "('w iolink_dll_ctx \<Rightarrow> 'w iolink_dll_ctx) \<Rightarrow> 'w stack \<Rightarrow> 'w stack" where
  "mod_dll f s = s\<lparr>sk_dll := f (sk_dll s)\<rparr>"

definition world :: "'w stack \<Rightarrow> 'w" where
  "world s = gl_world (sk_globals s)"

definition set_world :: "'w \<Rightarrow> 'w stack \<Rightarrow> 'w stack" where
  "set_world w s = s\<lparr>sk_globals := (sk_globals s)\<lparr>gl_world := w\<rparr>\<rparr>"

definition iolink_time_get_us :: "'w platform \<Rightarrow> 'w stack \<Rightarrow> u64 \<times> 'w stack" where
  "iolink_time_get_us plat s = (case time_get_us plat (world s) of (t, w) \<Rightarrow> (t, set_world w s))"

definition iolink_time_get_ms :: "'w platform \<Rightarrow> 'w stack \<Rightarrow> u32 \<times> 'w stack" where
  "iolink_time_get_ms plat s = (case time_get_ms plat (world s) of (t, w) \<Rightarrow> (t, set_world w s))"

text \<open>The bound PHY; using it through a NULL pointer is undefined.\<close>

definition the_phy :: "'w stack \<Rightarrow> 'w iolink_phy_api option" where
  "the_phy s = (case dll_phy (sk_dll s) of NULL \<Rightarrow> None | Ref p \<Rightarrow> Some p)"

definition dll_trigger :: "u16 \<Rightarrow> iolink_event_type \<Rightarrow> 'w stack \<Rightarrow> 'w stack option" where
  "dll_trigger code ty s =
     map_option (\<lambda>q. mod_dll (dll_events_update (\<lambda>_. q)) s)
       (iolink_event_trigger (dll_events (sk_dll s)) code ty)"

section \<open>Limits, modes, baudrate\<close>

definition dll_get_t_ren_limit_us :: "'w iolink_dll_ctx \<Rightarrow> u32" where
  "dll_get_t_ren_limit_us ctx =
     (if dll_t_ren_override ctx then dll_t_ren_limit_us ctx
      else (case dll_baudrate ctx of
              IOLINK_BAUDRATE_COM1 \<Rightarrow> IOLINK_T_REN_COM1_US
            | IOLINK_BAUDRATE_COM2 \<Rightarrow> IOLINK_T_REN_COM2_US
            | IOLINK_BAUDRATE_COM3 \<Rightarrow> IOLINK_T_REN_COM3_US))"

definition dll_get_t_byte_limit_us :: "'w iolink_dll_ctx \<Rightarrow> u32" where
  "dll_get_t_byte_limit_us ctx =
     (case dll_baudrate ctx of
        IOLINK_BAUDRATE_COM1 \<Rightarrow> 208 | IOLINK_BAUDRATE_COM2 \<Rightarrow> 26 | IOLINK_BAUDRATE_COM3 \<Rightarrow> 4) * 16"

definition iolink_dll_set_baudrate :: "iolink_baudrate \<Rightarrow> 'w stack \<Rightarrow> 'w stack option" where
  "iolink_dll_set_baudrate baudrate s = do {
     phy \<leftarrow> the_phy s;
     let s = mod_dll (\<lambda>c. c\<lparr>dll_baudrate := baudrate\<rparr>) s;
     let s = (case phy_set_baudrate phy of NULL \<Rightarrow> s | Ref f \<Rightarrow> set_world (f baudrate (world s)) s);
     let s = mod_dll (\<lambda>c. c\<lparr>dll_t_ren_limit_us := dll_get_t_ren_limit_us c\<rparr>) s;
     Some (mod_dll (\<lambda>c. c\<lparr>dll_t_byte_limit_us := dll_get_t_byte_limit_us c\<rparr>) s) }"

definition dll_set_mode :: "iolink_phy_mode \<Rightarrow> 'w stack \<Rightarrow> 'w stack option" where
  "dll_set_mode mode s = do {
     phy \<leftarrow> the_phy s;
     let s = (case phy_set_mode phy of NULL \<Rightarrow> s | Ref f \<Rightarrow> set_world (f mode (world s)) s);
     Some (mod_dll (\<lambda>c. c\<lparr>dll_phy_mode := mode\<rparr>) s) }"

definition iolink_dll_set_sio_mode :: "'w stack \<Rightarrow> 'w stack option" where
  "iolink_dll_set_sio_mode s = dll_set_mode IOLINK_PHY_MODE_SIO s"

definition iolink_dll_set_sdci_mode :: "'w stack \<Rightarrow> 'w stack option" where
  "iolink_dll_set_sdci_mode s = dll_set_mode IOLINK_PHY_MODE_SDCI s"

definition iolink_dll_set_pd_length :: "u8 \<Rightarrow> u8 \<Rightarrow> 'w iolink_dll_ctx \<Rightarrow> int \<times> 'w iolink_dll_ctx" where
  "iolink_dll_set_pd_length pd_in_len pd_out_len ctx =
     (if unat pd_in_len > IOLINK_PD_IN_MAX_SIZE \<or> unat pd_out_len > IOLINK_PD_OUT_MAX_SIZE then (-1, ctx)
      else (0, ctx\<lparr>dll_pd_in_len_current := pd_in_len, dll_pd_out_len_current := pd_out_len\<rparr>))"

definition iolink_dll_get_pd_length :: "'w iolink_dll_ctx \<Rightarrow> u8 \<times> u8" where
  "iolink_dll_get_pd_length ctx = (dll_pd_in_len_current ctx, dll_pd_out_len_current ctx)"

definition iolink_dll_get_stats :: "'w iolink_dll_ctx \<Rightarrow> iolink_dll_stats" where
  "iolink_dll_get_stats ctx =
     \<lparr>st_crc_errors = dll_crc_errors ctx, st_timeout_errors = dll_timeout_errors ctx,
      st_framing_errors = dll_framing_errors ctx, st_timing_errors = dll_timing_errors ctx,
      st_t_ren_violations = dll_t_ren_violations ctx, st_t_cycle_violations = dll_t_cycle_violations ctx,
      st_t_byte_violations = dll_t_byte_violations ctx, st_t_pd_violations = dll_t_pd_violations ctx,
      st_total_retries = dll_total_retries ctx, st_voltage_faults = dll_voltage_faults ctx,
      st_short_circuits = dll_short_circuits ctx\<rparr>"

definition iolink_dll_set_timing_enforcement :: "bool \<Rightarrow> 'w iolink_dll_ctx \<Rightarrow> 'w iolink_dll_ctx" where
  "iolink_dll_set_timing_enforcement enable ctx = ctx\<lparr>dll_enforce_timing := enable\<rparr>"

definition iolink_dll_set_t_ren_limit_us :: "u32 \<Rightarrow> 'w iolink_dll_ctx \<Rightarrow> 'w iolink_dll_ctx" where
  "iolink_dll_set_t_ren_limit_us limit_us ctx =
     ctx\<lparr>dll_t_ren_limit_us := limit_us, dll_t_ren_override := limit_us \<noteq> 0\<rparr>"

text \<open>The getters on a possibly-NULL context.\<close>

definition iolink_dll_get_state :: "'w iolink_dll_ctx ptr \<Rightarrow> iolink_dll_state" where
  "iolink_dll_get_state ctx = (case ctx of NULL \<Rightarrow> IOLINK_DLL_STATE_STARTUP | Ref c \<Rightarrow> dll_state c)"

definition iolink_dll_get_phy_mode :: "'w iolink_dll_ctx ptr \<Rightarrow> iolink_phy_mode" where
  "iolink_dll_get_phy_mode ctx = (case ctx of NULL \<Rightarrow> IOLINK_PHY_MODE_SIO | Ref c \<Rightarrow> dll_phy_mode c)"

definition iolink_dll_get_baudrate :: "'w iolink_dll_ctx ptr \<Rightarrow> iolink_baudrate" where
  "iolink_dll_get_baudrate ctx = (case ctx of NULL \<Rightarrow> IOLINK_BAUDRATE_COM2 | Ref c \<Rightarrow> dll_baudrate c)"

section \<open>Fallback and frame handlers\<close>

definition dll_enter_fallback :: "'w stack \<Rightarrow> 'w stack option" where
  "dll_enter_fallback s =
     (let s = mod_dll (\<lambda>c. c\<lparr>dll_fallback_count := dll_fallback_count c + 1,
                             dll_total_retries := dll_total_retries c + 1\<rparr>) s;
          c = sk_dll s in
      if dll_fallback_count c \<ge> dll_sio_fallback_threshold c then do {
        s \<leftarrow> iolink_dll_set_sio_mode s;
        s \<leftarrow> iolink_dll_set_baudrate IOLINK_BAUDRATE_COM1 s;
        let s = mod_dll (\<lambda>c. c\<lparr>dll_state := IOLINK_DLL_STATE_STARTUP, dll_fallback_count := 0,
                               dll_frame_index := 0\<rparr>) s;
        dll_trigger IOLINK_EVENT_CODE_COMM_ERR_FRAMING IOLINK_EVENT_TYPE_WARNING s }
      else if dll_state c \<noteq> IOLINK_DLL_STATE_OPERATE \<and> dll_state c \<noteq> IOLINK_DLL_STATE_ESTAB_COM then do {
        s \<leftarrow> iolink_dll_set_baudrate IOLINK_BAUDRATE_COM1 s;
        Some (mod_dll (\<lambda>c. c\<lparr>dll_state := IOLINK_DLL_STATE_STARTUP\<rparr>) s) }
      else Some s)"

definition dll_handle_preoperate :: "u8 \<Rightarrow> 'w stack \<Rightarrow> 'w stack" where
  "dll_handle_preoperate mc s =
     (if mc = IOLINK_MC_TRANSITION_COMMAND
      then mod_dll (\<lambda>c. c\<lparr>dll_state := IOLINK_DLL_STATE_ESTAB_COM, dll_fallback_count := 0\<rparr>) s
      else s)"

text \<open>
  One byte of on-request data: collect it, then fetch the byte to answer with (0 when the engine
  has none).
\<close>

definition od_exchange :: "u8 \<Rightarrow> iolink_isdu_ctx \<Rightarrow> (u8 \<times> iolink_isdu_ctx) option" where
  "od_exchange b isdu = do {
     (_, isdu) \<leftarrow> iolink_isdu_collect_byte isdu b;
     (r, isdu) \<leftarrow> iolink_isdu_get_response_byte isdu;
     Some (case r of None \<Rightarrow> 0 | Some x \<Rightarrow> x, isdu) }"

definition dll_send :: "bytes \<Rightarrow> 'w stack \<Rightarrow> 'w stack option" where
  "dll_send data s = do {
     phy \<leftarrow> the_phy s;
     Some (case phy_send phy of NULL \<Rightarrow> s | Ref f \<Rightarrow> set_world (snd (f data (world s))) s) }"

definition dll_handle_operate_type0 :: "u8 \<Rightarrow> 'w stack \<Rightarrow> 'w stack option" where
  "dll_handle_operate_type0 mc s = do {
     (od_resp, isdu) \<leftarrow> od_exchange mc (dll_isdu (sk_dll s));
     let s = mod_dll (\<lambda>c. c\<lparr>dll_isdu := isdu\<rparr>) s;
     ck \<leftarrow> iolink_checksum_ck od_resp 0;
     dll_send [od_resp, ck] s }"

text \<open>The loop over the on-request bytes of a frame.\<close>

definition od_loop :: "nat \<Rightarrow> bytes \<Rightarrow> iolink_isdu_ctx \<Rightarrow> (bytes \<times> iolink_isdu_ctx) option" where
  "od_loop od_len od_in isdu =
     for_loop od_len (\<lambda>i (od_out, isdu). do {
       b \<leftarrow> arr_get od_in i;
       (r, isdu) \<leftarrow> od_exchange b isdu;
       od_out \<leftarrow> arr_set od_out i r;
       Some (od_out, isdu) }) ([0, 0], isdu)"

definition dll_status_byte :: "'w iolink_dll_ctx \<Rightarrow> u8" where
  "dll_status_byte c =
     (if iolink_events_pending (Ref (dll_events c)) then IOLINK_OD_STATUS_EVENT else 0)
     OR (if dll_pd_in_toggle c then IOLINK_OD_STATUS_PD_TOGGLE else 0)
     OR (if dll_pd_valid c then IOLINK_OD_STATUS_PD_VALID else 0)"

text \<open>
  Building the response frame in an array of \<^verbatim>\<open>IOLINK_PD_IN_MAX_SIZE + 5\<close> bytes; the bytes that
  go out are all written, so the array's initial contents do not matter.
\<close>

definition dll_build_response :: "bytes \<Rightarrow> 'w iolink_dll_ctx \<Rightarrow> bytes option" where
  "dll_build_response od_out c = do {
     let pd_len = unat (dll_pd_in_len_current c);
     let od_len = unat (dll_od_len c);
     resp \<leftarrow> arr_set (replicate (IOLINK_PD_IN_MAX_SIZE + 5) 0) 0 (dll_status_byte c);
     resp \<leftarrow> (if pd_len > 0 then memcpy resp 1 (dll_pd_in c) 0 pd_len else Some resp);
     resp \<leftarrow> memcpy resp (1 + pd_len) od_out 0 od_len;
     let pos = 1 + pd_len + od_len;
     crc \<leftarrow> iolink_crc6 (Ref resp) (word_of_nat pos);
     resp \<leftarrow> arr_set resp pos crc;
     Some (take (pos + 1) resp) }"

text \<open>What follows a transmission: response time and its limit.\<close>

definition dll_after_send :: "'w platform \<Rightarrow> 'w stack \<Rightarrow> 'w stack option" where
  "dll_after_send plat s =
     (case iolink_time_get_us plat (mod_dll (\<lambda>c. c\<lparr>dll_fallback_count := 0\<rparr>) s) of (t, s) \<Rightarrow>
      let end_tx_us = ucast t :: u32;
          s = mod_dll (\<lambda>c. c\<lparr>dll_response_time_us := end_tx_us - ucast (dll_last_cycle_start_us c)\<rparr>) s;
          c = sk_dll s;
          limit = dll_get_t_ren_limit_us c in
      if dll_enforce_timing c \<and> limit > 0 \<and> dll_response_time_us c > limit then
        dll_trigger IOLINK_EVENT_COMM_TIMING IOLINK_EVENT_TYPE_WARNING
          (mod_dll (\<lambda>c. c\<lparr>dll_timing_errors := dll_timing_errors c + 1,
                          dll_t_ren_violations := dll_t_ren_violations c + 1\<rparr>) s)
      else Some s)"

text \<open>Taking a frame apart: process data out, and the exchange of its on-request bytes.\<close>

definition dll_receive_frame :: "'w iolink_dll_ctx \<Rightarrow> (bytes \<times> 'w iolink_dll_ctx) option" where
  "dll_receive_frame c = do {
     let pd_offset = unat IOLINK_M_SEQ_HEADER_LEN;
     let od_offset = pd_offset + unat (dll_pd_out_len_current c);
     pd_out \<leftarrow> (if dll_pd_out_len_current c > 0
               then memcpy (dll_pd_out c) 0 (dll_frame_buf c) pd_offset (unat (dll_pd_out_len_current c))
               else Some (dll_pd_out c));
     od_in \<leftarrow> memcpy [0, 0] 0 (dll_frame_buf c) od_offset (unat (dll_od_len c));
     (od_out, isdu) \<leftarrow> od_loop (unat (dll_od_len c)) od_in (dll_isdu c);
     Some (od_out, c\<lparr>dll_pd_out := pd_out, dll_isdu := isdu\<rparr>) }"

definition dll_transmit :: "'w platform \<Rightarrow> bytes \<Rightarrow> 'w stack \<Rightarrow> 'w stack option" where
  "dll_transmit plat resp s = do {
     phy \<leftarrow> the_phy s;
     s \<leftarrow> (case phy_send phy of NULL \<Rightarrow> Some s
          | Ref f \<Rightarrow> dll_after_send plat (set_world (snd (f resp (world s))) s));
     (case iolink_time_get_us plat s of (t, s) \<Rightarrow>
        Some (mod_dll (\<lambda>c. c\<lparr>dll_last_response_us := t\<rparr>) s)) }"

definition dll_handle_operate_type1_2 :: "'w platform \<Rightarrow> 'w stack \<Rightarrow> 'w stack option" where
  "dll_handle_operate_type1_2 plat s = do {
     (od_out, c) \<leftarrow> dll_receive_frame (sk_dll s);
     resp \<leftarrow> dll_build_response od_out c;
     dll_transmit plat resp (s\<lparr>sk_dll := c\<rparr>) }"

section \<open>Diagnostics and initialisation\<close>

definition dll_poll_voltage :: "'w iolink_phy_api \<Rightarrow> 'w stack \<Rightarrow> 'w stack option" where
  "dll_poll_voltage phy s =
     (case phy_get_voltage_mv phy of NULL \<Rightarrow> Some s
      | Ref f \<Rightarrow> (case f (world s) of (voltage, w) \<Rightarrow>
          if voltage < 18000 \<or> voltage > 30000 then
            dll_trigger IOLINK_EVENT_PHY_VOLTAGE_FAULT IOLINK_EVENT_TYPE_WARNING
              (mod_dll (\<lambda>c. c\<lparr>dll_voltage_faults := dll_voltage_faults c + 1\<rparr>) (set_world w s))
          else Some (set_world w s)))"

definition dll_poll_short :: "'w iolink_phy_api \<Rightarrow> 'w stack \<Rightarrow> 'w stack option" where
  "dll_poll_short phy s =
     (case phy_is_short_circuit phy of NULL \<Rightarrow> Some s
      | Ref f \<Rightarrow> (case f (world s) of (short, w) \<Rightarrow>
          if short then
            dll_trigger IOLINK_EVENT_PHY_SHORT_CIRCUIT IOLINK_EVENT_TYPE_ERROR
              (mod_dll (\<lambda>c. c\<lparr>dll_short_circuits := dll_short_circuits c + 1\<rparr>) (set_world w s))
          else Some (set_world w s)))"

definition dll_poll_diagnostics :: "'w stack \<Rightarrow> 'w stack option" where
  "dll_poll_diagnostics s =
     (case dll_phy (sk_dll s) of NULL \<Rightarrow> Some s
      | Ref phy \<Rightarrow> dll_poll_voltage phy s \<bind> dll_poll_short phy)"

definition od_len_of :: "u8 \<Rightarrow> u8" where
  "od_len_of m_seq_type =
     (if m_seq_type = IOLINK_M_SEQ_TYPE_2_1 \<or> m_seq_type = IOLINK_M_SEQ_TYPE_2_2 \<or>
         m_seq_type = IOLINK_M_SEQ_TYPE_2_V then 2 else 1)"

text \<open>The context of a \<^verbatim>\<open>memset\<close>, with the fields set before the PHY is first called.\<close>

definition dll_init_fields :: "'w iolink_phy_api \<Rightarrow> 'w iolink_dll_ctx \<Rightarrow> 'w iolink_dll_ctx" where
  "dll_init_fields phy c =
     c\<lparr>dll_state := IOLINK_DLL_STATE_STARTUP, dll_phy := Ref phy,
       dll_enforce_timing := IOLINK_TIMING_ENFORCE_DEFAULT \<noteq> 0, dll_sio_fallback_threshold := 3,
       dll_od_len := od_len_of (dll_m_seq_type c),
       dll_pd_in_len_current := dll_pd_in_len c, dll_pd_out_len_current := dll_pd_out_len c,
       dll_pd_in_len_max := dll_pd_in_len c, dll_pd_out_len_max := dll_pd_out_len c,
       dll_pd_valid := True, dll_baudrate := IOLINK_BAUDRATE_COM2\<rparr>"

definition dll_init_modules :: "'w iolink_dll_ctx \<Rightarrow> 'w iolink_dll_ctx" where
  "dll_init_modules c =
     (let events = deref (iolink_events_init (Ref (dll_events c)));
          isdu = deref (iolink_isdu_init (Ref (dll_isdu c)));
          ds = deref (iolink_ds_init (Ref (dll_ds c)) NULL);
          c = c\<lparr>dll_events := events,
                dll_isdu := isdu\<lparr>is_event_ctx := Ref (), is_dll_ctx := Ref ()\<rparr>,
                dll_ds := ds\<rparr>;
          c = c\<lparr>dll_t_ren_limit_us := dll_get_t_ren_limit_us c\<rparr>
      in c\<lparr>dll_t_byte_limit_us := dll_get_t_byte_limit_us c\<rparr>)"

definition iolink_dll_init :: "'w iolink_phy_api ptr \<Rightarrow> 'w stack \<Rightarrow> 'w stack option" where
  "iolink_dll_init phy s =
     (case phy of NULL \<Rightarrow> Some s
      | Ref p \<Rightarrow>
          (let s = s\<lparr>sk_dll := dll_init_fields p zero_dll_ctx\<rparr>;
               s = (case phy_set_baudrate p of NULL \<Rightarrow> s
                    | Ref f \<Rightarrow> set_world (f IOLINK_BAUDRATE_COM2 (world s)) s)
           in iolink_dll_set_sio_mode (mod_dll dll_init_modules s)))"

section \<open>The process function, phase by phase\<close>

text \<open>The ISDU engine with the objects it is bound to, as parts of the stack.\<close>

definition isdu_view :: "'w stack \<Rightarrow> 'w isdu_sys" where
  "isdu_view s =
     \<lparr>sy_isdu = dll_isdu (sk_dll s), sy_events = dll_events (sk_dll s), sy_ds = dll_ds (sk_dll s),
      sy_stats = iolink_dll_get_stats (sk_dll s), sy_globals = sk_globals s\<rparr>"

definition dll_isdu_process :: "'w platform \<Rightarrow> 'w stack \<Rightarrow> 'w stack option" where
  "dll_isdu_process plat s = do {
     y \<leftarrow> iolink_isdu_process plat (isdu_view s);
     Some (s\<lparr>sk_dll := (sk_dll s)\<lparr>dll_isdu := sy_isdu y, dll_events := sy_events y, dll_ds := sy_ds y\<rparr>,
             sk_globals := sy_globals y\<rparr>) }"

text \<open>One second without a received byte: back to start-up.\<close>

definition dll_inactivity :: "'w platform \<Rightarrow> 'w stack \<Rightarrow> 'w stack option" where
  "dll_inactivity plat s =
     (case iolink_time_get_ms plat s of (now_ms, s) \<Rightarrow>
      let c = sk_dll s in
      if dll_last_activity_ms c \<noteq> 0 \<and> now_ms - dll_last_activity_ms c > 1000 then do {
        let s = mod_dll (\<lambda>c. c\<lparr>dll_last_activity_ms := 0\<rparr>) s;
        s \<leftarrow> (if dll_phy_mode c \<noteq> IOLINK_PHY_MODE_SIO
             then iolink_dll_set_baudrate IOLINK_BAUDRATE_COM1 s \<bind> iolink_dll_set_sio_mode
             else Some s);
        Some (mod_dll (\<lambda>c. c\<lparr>dll_state := IOLINK_DLL_STATE_STARTUP, dll_frame_index := 0\<rparr>) s) }
      else Some s)"

definition dll_t_pd_active :: "'w platform \<Rightarrow> 'w stack \<Rightarrow> bool \<times> 'w stack" where
  "dll_t_pd_active plat s =
     (if dll_t_pd_deadline_us (sk_dll s) = 0 then (False, s)
      else case iolink_time_get_us plat s of (t, s) \<Rightarrow> (t < dll_t_pd_deadline_us (sk_dll s), s))"

partial_function (option) drain_rx_loop ::
  "(u8 \<Rightarrow> 'w \<Rightarrow> int \<times> u8 \<times> 'w) \<Rightarrow> u8 \<Rightarrow> bool \<Rightarrow> 'w \<Rightarrow> (bool \<times> 'w) option" where
  "drain_rx_loop recv byte saw_byte w =
     (case recv byte w of (n, byte, w) \<Rightarrow>
        if n > 0 then drain_rx_loop recv byte True w else Some (saw_byte, w))"

definition dll_drain_rx :: "'w stack \<Rightarrow> (bool \<times> 'w stack) option" where
  "dll_drain_rx s =
     (case dll_phy (sk_dll s) of NULL \<Rightarrow> Some (False, s)
      | Ref phy \<Rightarrow> (case phy_recv_byte phy of NULL \<Rightarrow> Some (False, s)
          | Ref recv \<Rightarrow> map_option (\<lambda>(saw, w). (saw, set_world w s)) (drain_rx_loop recv 0 False (world s))))"

text \<open>Bytes received before the power-on delay is over are dropped and counted.\<close>

definition dll_t_pd_phase :: "'w stack \<Rightarrow> 'w stack option" where
  "dll_t_pd_phase s = do {
     (saw, s) \<leftarrow> dll_drain_rx s;
     if saw then
       dll_trigger IOLINK_EVENT_COMM_TIMING IOLINK_EVENT_TYPE_WARNING
         (mod_dll (\<lambda>c. c\<lparr>dll_timing_errors := dll_timing_errors c + 1,
                         dll_t_pd_violations := dll_t_pd_violations c + 1\<rparr>) s)
     else Some s }"

definition dll_sio_phase :: "'w platform \<Rightarrow> 'w stack \<Rightarrow> 'w stack option" where
  "dll_sio_phase plat s = do {
     phy \<leftarrow> the_phy s;
     (case phy_detect_wakeup phy of NULL \<Rightarrow> Some s
      | Ref f \<Rightarrow>
          if dll_frame_index (sk_dll s) = 0 then
            (case f (world s) of (r, w) \<Rightarrow>
             let s = set_world w s in
             if r > 0 then
               (case iolink_time_get_us plat
                       (mod_dll (\<lambda>c. c\<lparr>dll_wakeup_seen := True, dll_state := IOLINK_DLL_STATE_AWAITING_COMM\<rparr>) s) of
                  (t, s) \<Rightarrow> iolink_dll_set_sdci_mode
                    (mod_dll (\<lambda>c. c\<lparr>dll_wakeup_deadline_us := t + IOLINK_T_DWU_US\<rparr>) s))
             else Some s)
          else Some s) }"

text \<open>The inter-byte limit: exceeded when a frame is open and the last byte is too long ago.\<close>

definition byte_limit_checked :: "'w iolink_dll_ctx \<Rightarrow> bool" where
  "byte_limit_checked c \<longleftrightarrow> dll_frame_index c > 0 \<and> dll_enforce_timing c \<and> dll_t_byte_limit_us c > 0 \<and>
     dll_last_byte_us c \<noteq> 0"

definition byte_late :: "u64 \<Rightarrow> 'w iolink_dll_ctx \<Rightarrow> bool" where
  "byte_late now_us c \<longleftrightarrow> now_us - dll_last_byte_us c > ucast (dll_t_byte_limit_us c)"

definition dll_byte_violation :: "'w stack \<Rightarrow> 'w stack option" where
  "dll_byte_violation s = do {
     s \<leftarrow> dll_trigger IOLINK_EVENT_COMM_TIMING IOLINK_EVENT_TYPE_WARNING
       (mod_dll (\<lambda>c. c\<lparr>dll_timing_errors := dll_timing_errors c + 1,
                       dll_t_byte_violations := dll_t_byte_violations c + 1,
                       dll_framing_errors := dll_framing_errors c + 1\<rparr>) s);
     Some (mod_dll (\<lambda>c. c\<lparr>dll_frame_index := 0\<rparr>) s) }"

definition dll_byte_timeout :: "'w platform \<Rightarrow> 'w stack \<Rightarrow> 'w stack option" where
  "dll_byte_timeout plat s =
     (if byte_limit_checked (sk_dll s) then
        (case iolink_time_get_us plat s of (now_us, s) \<Rightarrow>
           if byte_late now_us (sk_dll s) then dll_byte_violation s \<bind> dll_enter_fallback else Some s)
      else Some s)"

definition dll_wakeup_wait :: "'w platform \<Rightarrow> 'w stack \<Rightarrow> bool \<times> 'w stack" where
  "dll_wakeup_wait plat s =
     (let c = sk_dll s in
      if dll_state c = IOLINK_DLL_STATE_AWAITING_COMM \<and> dll_enforce_timing c \<and> dll_wakeup_deadline_us c \<noteq> 0
      then (case iolink_time_get_us plat s of (t, s) \<Rightarrow> (t < dll_wakeup_deadline_us c, s))
      else (False, s))"

subsection \<open>One received byte\<close>

definition dll_rx_timing :: "u64 \<Rightarrow> 'w stack \<Rightarrow> 'w stack option" where
  "dll_rx_timing now_us s = do {
     s \<leftarrow> (if byte_limit_checked (sk_dll s) \<and> byte_late now_us (sk_dll s) then dll_byte_violation s else Some s);
     Some (mod_dll (\<lambda>c. c\<lparr>dll_last_byte_us := now_us\<rparr>) s) }"

text \<open>The length of the frame a first byte opens.\<close>

definition multi_req_len :: "'w iolink_dll_ctx \<Rightarrow> u8" where
  "multi_req_len c = IOLINK_M_SEQ_HEADER_LEN + dll_pd_out_len_current c + dll_od_len c + 1"

definition dll_req_len_for :: "u8 \<Rightarrow> 'w iolink_dll_ctx \<Rightarrow> u8" where
  "dll_req_len_for byte c =
     (if dll_baudrate c = IOLINK_BAUDRATE_COM1 then 2
      else let can_be_multi = (dll_m_seq_type c \<noteq> IOLINK_M_SEQ_TYPE_0) in
        if can_be_multi \<and> dll_state c = IOLINK_DLL_STATE_OPERATE then multi_req_len c
        else if can_be_multi \<and> dll_state c = IOLINK_DLL_STATE_ESTAB_COM \<and>
                byte \<noteq> IOLINK_MC_TRANSITION_COMMAND then multi_req_len c
        else 2)"

definition dll_store_byte :: "u64 \<Rightarrow> u8 \<Rightarrow> 'w iolink_dll_ctx \<Rightarrow> 'w iolink_dll_ctx option" where
  "dll_store_byte now_us byte c =
     (if dll_frame_index c = 0 then do {
        buf \<leftarrow> arr_set (dll_frame_buf c) 0 byte;
        Some (c\<lparr>dll_frame_buf := buf, dll_frame_index := 1, dll_last_frame_us := now_us,
                dll_req_len := dll_req_len_for byte c\<rparr>) }
      else if unat (dll_frame_index c) < FRAME_BUF_SIZE then do {
        buf \<leftarrow> arr_set (dll_frame_buf c) (unat (dll_frame_index c)) byte;
        Some (c\<lparr>dll_frame_buf := buf, dll_frame_index := dll_frame_index c + 1\<rparr>) }
      else Some (c\<lparr>dll_frame_index := 0, dll_framing_errors := dll_framing_errors c + 1\<rparr>))"

definition dll_cycle_timing :: "'w platform \<Rightarrow> 'w stack \<Rightarrow> 'w stack option" where
  "dll_cycle_timing plat s =
     (case iolink_time_get_us plat s of (now_us_proc, s) \<Rightarrow>
      let c = sk_dll s in do {
        s \<leftarrow> (if dll_enforce_timing c \<and> dll_min_cycle_time_us c > 0 \<and> dll_last_cycle_start_us c \<noteq> 0 \<and>
                now_us_proc - dll_last_cycle_start_us c < ucast (dll_min_cycle_time_us c)
             then dll_trigger IOLINK_EVENT_COMM_TIMING IOLINK_EVENT_TYPE_WARNING
                    (mod_dll (\<lambda>c. c\<lparr>dll_timing_errors := dll_timing_errors c + 1,
                                    dll_t_cycle_violations := dll_t_cycle_violations c + 1\<rparr>) s)
             else Some s);
        Some (mod_dll (\<lambda>c. c\<lparr>dll_last_cycle_start_us := now_us_proc\<rparr>) s) })"

definition dll_crc_ok :: "'w iolink_dll_ctx \<Rightarrow> bool option" where
  "dll_crc_ok c =
     (if dll_req_len c = 2 then do {
        b0 \<leftarrow> arr_get (dll_frame_buf c) 0;
        b1 \<leftarrow> arr_get (dll_frame_buf c) 1;
        ck \<leftarrow> iolink_checksum_ck b0 0;
        Some (ck = b1) }
      else do {
        crc \<leftarrow> iolink_crc6 (Ref (dll_frame_buf c)) (dll_req_len c - 1);
        last_byte \<leftarrow> arr_get (dll_frame_buf c) (unat (dll_req_len c - 1));
        Some (crc = last_byte) })"

definition dll_reject :: "'w stack \<Rightarrow> 'w stack option" where
  "dll_reject s = dll_enter_fallback (mod_dll (\<lambda>c. c\<lparr>dll_framing_errors := dll_framing_errors c + 1\<rparr>) s)"

definition forbidden_channel :: "u8 \<Rightarrow> bool" where
  "forbidden_channel mc \<longleftrightarrow> mc AND 0x60 = 0x20 \<or> mc AND 0x60 = 0x60"

definition dll_dispatch_preoperate :: "u8 \<Rightarrow> 'w stack \<Rightarrow> 'w stack option" where
  "dll_dispatch_preoperate mc s =
     (if dll_req_len (sk_dll s) = 2 then
        (if mc = IOLINK_MC_TRANSITION_COMMAND then Some (dll_handle_preoperate mc s)
         else dll_handle_operate_type0 mc s)
      else Some s)"

definition dll_dispatch_estab_com :: "'w platform \<Rightarrow> u8 \<Rightarrow> 'w stack \<Rightarrow> 'w stack option" where
  "dll_dispatch_estab_com plat mc s =
     (if dll_req_len (sk_dll s) > 2 then
        (if forbidden_channel mc then dll_reject s
         else dll_handle_operate_type1_2 plat (mod_dll (\<lambda>c. c\<lparr>dll_state := IOLINK_DLL_STATE_OPERATE\<rparr>) s))
      else if mc = IOLINK_MC_TRANSITION_COMMAND then Some (dll_handle_preoperate mc s)
      else dll_handle_operate_type0 mc s)"

definition dll_dispatch_operate :: "'w platform \<Rightarrow> u8 \<Rightarrow> 'w stack \<Rightarrow> 'w stack option" where
  "dll_dispatch_operate plat mc s =
     (if mc = IOLINK_MC_TRANSITION_COMMAND \<or> forbidden_channel mc then dll_reject s
      else if dll_req_len (sk_dll s) = 2 then dll_handle_operate_type0 mc s
      else dll_handle_operate_type1_2 plat s)"

text \<open>A frame with a good checksum, by state; the first one ends start-up.\<close>

definition dll_first_frame :: "'w stack \<Rightarrow> 'w stack" where
  "dll_first_frame s =
     (if dll_state (sk_dll s) = IOLINK_DLL_STATE_AWAITING_COMM \<or> dll_state (sk_dll s) = IOLINK_DLL_STATE_STARTUP
      then mod_dll (\<lambda>c. c\<lparr>dll_state := IOLINK_DLL_STATE_PREOPERATE\<rparr>) s else s)"

definition dll_dispatch :: "'w platform \<Rightarrow> 'w stack \<Rightarrow> 'w stack option" where
  "dll_dispatch plat s = do {
     let s = dll_first_frame s;
     mc \<leftarrow> arr_get (dll_frame_buf (sk_dll s)) 0;
     if dll_state (sk_dll s) = IOLINK_DLL_STATE_PREOPERATE then dll_dispatch_preoperate mc s
     else if dll_state (sk_dll s) = IOLINK_DLL_STATE_ESTAB_COM then dll_dispatch_estab_com plat mc s
     else if dll_state (sk_dll s) = IOLINK_DLL_STATE_OPERATE then dll_dispatch_operate plat mc s
     else Some s }"

definition dll_bad_crc :: "'w stack \<Rightarrow> 'w stack option" where
  "dll_bad_crc s =
     dll_enter_fallback (mod_dll (\<lambda>c. c\<lparr>dll_crc_errors := dll_crc_errors c + 1,
                                        dll_framing_errors := dll_framing_errors c + 1\<rparr>) s)"

definition dll_frame_complete :: "'w platform \<Rightarrow> 'w stack \<Rightarrow> 'w stack option" where
  "dll_frame_complete plat s = do {
     s \<leftarrow> dll_cycle_timing plat s;
     crc_ok \<leftarrow> dll_crc_ok (sk_dll s);
     s \<leftarrow> (if crc_ok then dll_dispatch plat s else dll_bad_crc s);
     Some (mod_dll (\<lambda>c. c\<lparr>dll_frame_index := 0\<rparr>) s) }"

definition dll_rx_byte :: "'w platform \<Rightarrow> u8 \<Rightarrow> 'w stack \<Rightarrow> 'w stack option" where
  "dll_rx_byte plat byte s =
     (case iolink_time_get_us plat s of (now_us, s) \<Rightarrow>
      case iolink_time_get_ms plat s of (now_ms, s) \<Rightarrow> do {
        s \<leftarrow> dll_rx_timing now_us (mod_dll (\<lambda>c. c\<lparr>dll_last_activity_ms := now_ms\<rparr>) s);
        c \<leftarrow> dll_store_byte now_us byte (sk_dll s);
        let s = s\<lparr>sk_dll := c\<rparr>;
        if dll_frame_index c > 0 \<and> dll_frame_index c \<ge> dll_req_len c then dll_frame_complete plat s
        else Some s })"

text \<open>The receive loop; \<open>byte\<close> is the C variable of that name, its first value is never read.\<close>

partial_function (option) dll_rx_loop :: "'w platform \<Rightarrow> u8 \<Rightarrow> 'w stack \<Rightarrow> 'w stack option" where
  "dll_rx_loop plat byte s =
     Option.bind (the_phy s) (\<lambda>phy.
       case phy_recv_byte phy of NULL \<Rightarrow> Some s
       | Ref recv \<Rightarrow>
           (case recv byte (world s) of (n, byte, w) \<Rightarrow>
              if n > 0 then Option.bind (dll_rx_byte plat byte (set_world w s)) (dll_rx_loop plat byte)
              else Some (set_world w s)))"

definition dll_communicate :: "'w platform \<Rightarrow> 'w stack \<Rightarrow> 'w stack option" where
  "dll_communicate plat s = do {
     s \<leftarrow> dll_byte_timeout plat s;
     case dll_wakeup_wait plat s of (wait, s) \<Rightarrow>
       if wait then Some s else dll_rx_loop plat 0 s }"

definition iolink_dll_process :: "'w platform \<Rightarrow> 'w stack \<Rightarrow> 'w stack option" where
  "iolink_dll_process plat s =
     (case dll_phy (sk_dll s) of NULL \<Rightarrow> Some s
      | Ref _ \<Rightarrow> do {
        s \<leftarrow> dll_isdu_process plat s;
        s \<leftarrow> dll_poll_diagnostics s;
        s \<leftarrow> dll_inactivity plat s;
        case dll_t_pd_active plat s of (active, s) \<Rightarrow>
          if active then dll_t_pd_phase s
          else if dll_phy_mode (sk_dll s) = IOLINK_PHY_MODE_SIO then dll_sio_phase plat s
          else dll_communicate plat s })"

declare drain_rx_loop.simps [code] dll_rx_loop.simps [code]

end
