(* ===== verification/Isdu_Refinement.thy ===== *)
theory Isdu_Refinement
  imports Isdu_Services
begin

text \<open>
  Correctness of the ISDU services.  The handlers keep the invariant; a read shows the bytes of the
  abstract \<open>read_spec\<close>; together with the transport this holds end to end on the wire, from the
  bytes of the request to the bytes of the response.
\<close>

section \<open>Invariant\<close>

definition sys_wf :: "'w isdu_sys \<Rightarrow> bool" where
  [wf_defs]: "sys_wf s \<longleftrightarrow> isdu_wf (sy_isdu s) \<and> events_wf (sy_events s) \<and> globals_wf (sy_globals s)"

text \<open>An engine with the response \<open>bs\<close> ready, and one a handler may leave behind.\<close>

definition prepared :: "bytes \<Rightarrow> iolink_isdu_ctx \<Rightarrow> bool" where
  "prepared bs c \<longleftrightarrow> isdu_wf c \<and> is_state c = ISDU_STATE_RESPONSE_READY \<and> is_response_idx c = 0 \<and>
     is_response_len c = length bs \<and> take (length bs) (is_response_buf c) = bs"

definition handled :: "'w isdu_sys \<Rightarrow> bool" where
  "handled s \<longleftrightarrow> sys_wf s \<and>
     (is_state (sy_isdu s) = ISDU_STATE_SERVICE_EXECUTE \<or>
      is_state (sy_isdu s) = ISDU_STATE_RESPONSE_READY \<and> is_response_idx (sy_isdu s) = 0)"

lemma runs_on_isdu:
  "runs (on_isdu f s) P \<longleftrightarrow> runs (f (sy_isdu s)) (\<lambda>c. P (s\<lparr>sy_isdu := c\<rparr>))"
  by (simp add: on_isdu_def)

lemma sys_wf_upd [simp]:
  "sys_wf (s\<lparr>sy_isdu := c\<rparr>) \<longleftrightarrow> isdu_wf c \<and> events_wf (sy_events s) \<and> globals_wf (sy_globals s)"
  "sys_wf (s\<lparr>sy_events := q\<rparr>) \<longleftrightarrow> isdu_wf (sy_isdu s) \<and> events_wf q \<and> globals_wf (sy_globals s)"
  "sys_wf (s\<lparr>sy_ds := d\<rparr>) \<longleftrightarrow> sys_wf s"
  "sys_wf (s\<lparr>sy_globals := g\<rparr>) \<longleftrightarrow> isdu_wf (sy_isdu s) \<and> events_wf (sy_events s) \<and> globals_wf g"
  by (simp_all add: sys_wf_def)

lemma sys_wfD:
  assumes "sys_wf s"
  shows "isdu_wf (sy_isdu s)" "events_wf (sy_events s)" "globals_wf (sy_globals s)"
    "devinfo_wf (gl_info (sy_globals s))" "shadow_wf (g_nvm_shadow (sy_globals s))"
    "length (is_buffer (sy_isdu s)) = 256" "length (is_response_buf (sy_isdu s)) = 256"
    "is_buffer_idx (sy_isdu s) \<le> 255"
  using assms by (simp_all add: sys_wf_def globals_wf_def isdu_wf_def)

lemma isdu_reply_prepared:
  "isdu_wf c \<Longrightarrow> length bs \<le> 255 \<Longrightarrow> runs (isdu_reply bs c) (prepared bs)"
  by (subst isdu_reply_eq) (auto simp: prepared_def isdu_wf_unfold)

lemma isdu_reply_seq0_prepared:
  "isdu_wf c \<Longrightarrow> length bs \<le> 255 \<Longrightarrow> runs (isdu_reply_seq0 bs c) (prepared bs)"
  unfolding isdu_reply_seq0_def
  by (subst isdu_reply_eq) (auto simp: prepared_def isdu_wf_unfold)

lemma isdu_ready_prepared:
  assumes "isdu_wf c" and "length buf = 256" and "n \<le> 255"
  shows "prepared (take n buf) (isdu_ready (c\<lparr>is_response_buf := buf, is_response_len := n\<rparr>))"
  using assms by (auto simp: prepared_def isdu_ready_def isdu_wf_unfold)

lemma prepared_handled:
  "prepared bs c \<Longrightarrow> sys_wf s \<Longrightarrow> handled (s\<lparr>sy_isdu := c\<rparr>)"
  by (simp add: prepared_def handled_def sys_wf_def)

lemma reply_handled:
  assumes "sys_wf s" and "length bs \<le> 255"
  shows "runs (on_isdu (isdu_reply bs) s) handled" and "runs (on_isdu (isdu_reply_seq0 bs) s) handled"
  using assms isdu_reply_prepared [of "sy_isdu s" bs] isdu_reply_seq0_prepared [of "sy_isdu s" bs]
  by (auto simp: sys_wfD runs_on_isdu elim!: runs_mono intro: prepared_handled)

lemma error_handled: "sys_wf s \<Longrightarrow> runs (on_isdu (isdu_error e) s) handled"
  unfolding isdu_error_def by (rule reply_handled) simp_all

lemma ready_handled:
  assumes "sys_wf s" and "length buf = 256" and "n \<le> 255"
  shows "handled (s\<lparr>sy_isdu := isdu_ready ((sy_isdu s)\<lparr>is_response_buf := buf, is_response_len := n\<rparr>)\<rparr>)"
  using assms isdu_ready_prepared [of "sy_isdu s" buf n] by (auto simp: sys_wfD intro: prepared_handled)

section \<open>Loops that fill the response\<close>

definition event_bytes :: "(iolink_event_type \<Rightarrow> u8) \<Rightarrow> iolink_event \<Rightarrow> bytes" where
  "event_bytes q ev = [q (ev_type ev), ucast (drop_bit 8 (ev_code ev)), ucast (ev_code ev AND 0xFF)]"

lemma length_concat_event_bytes [simp]: "length (concat (map (event_bytes q) evs)) = 3 * length evs"
  by (induction evs) (simp_all add: event_bytes_def)

lemma put_event_eq:
  assumes "length pre = 3 * i" and "3 * i + 3 \<le> length (pre @ rest)"
  shows "put_event (q (ev_type ev)) ev i (pre @ rest) = Some (pre @ event_bytes q ev @ drop 3 rest)"
proof -
  obtain x y z r where "rest = x # y # z # r"
    using assms by (cases rest; cases "tl rest"; cases "tl (tl rest)") auto
  with assms(1) show ?thesis
    by (simp add: put_event_def event_bytes_def list_update_append mult.commute)
qed

lemma put_events_loop:
  assumes "\<And>i. i < n \<Longrightarrow> f i = Some (evs ! i)" and "n \<le> length evs" and "3 * n \<le> length buf"
  shows "for_loop n (\<lambda>i buf. do { ev \<leftarrow> f i; put_event (q (ev_type ev)) ev i buf }) buf
    = Some (concat (map (event_bytes q) (take n evs)) @ drop (3 * n) buf)"
  using assms
proof (induction n)
  case (Suc n)
  have "drop (3 * Suc n) buf = drop 3 (drop (3 * n) buf)" by simp
  with Suc show ?case
    by (simp add: put_event_eq take_Suc_conv_app_nth del: drop_drop)
qed simp

lemma isdu_write_u32_be_eq:
  assumes "length pre = idx" and "4 \<le> length rest"
  shows "isdu_write_u32_be (pre @ rest, idx) v = Some ((pre @ u32_be v) @ drop 4 rest, idx + 4)"
proof -
  obtain w x y z r where "rest = w # x # y # z # r"
    using assms by (cases rest; cases "tl rest"; cases "tl (tl rest)"; cases "tl (tl (tl rest))") auto
  moreover have "ucast (x AND 0xFF) = (ucast x :: u8)" for x :: u32
  proof -
    have "x AND 0xFF = take_bit 8 x" by (simp add: take_bit_eq_mask mask_eq_exp_minus_1)
    then show ?thesis by (intro bit_word_eqI) (simp add: bit_simps)
  qed
  ultimately show ?thesis
    using assms(1) by (simp add: isdu_write_u32_be_def list_update_append u32_be_def)
qed

section \<open>Every handler is safe\<close>

text \<open>A string longer than 255 bytes is reported as an empty response.\<close>

definition clip_response :: "bytes \<Rightarrow> bytes" where
  "clip_response str = (if length str < 256 then str else [])"

lemma clipped_prepared:
  assumes "isdu_wf c" and "n = min (length str) 256" and "buf = take n str @ drop n (is_response_buf c)"
  shows "prepared (clip_response str)
           (isdu_ready (c\<lparr>is_response_buf := buf, is_response_len := n mod 256\<rparr>))"
proof -
  have "prepared (take (n mod 256) buf) (isdu_ready (c\<lparr>is_response_buf := buf, is_response_len := n mod 256\<rparr>))"
    using assms mod_less_divisor [of 256 n] by (intro isdu_ready_prepared) (auto simp: isdu_wf_def)
  moreover have "take (n mod 256) buf = clip_response str"
    using assms by (auto simp: clip_response_def min_def)
  ultimately show ?thesis by simp
qed

lemma prepared_seq: "prepared bs (c\<lparr>is_segment_seq := q\<rparr>) \<longleftrightarrow> prepared bs c"
  by (auto simp: prepared_def isdu_wf_unfold)

lemma take_cstr: 
  assumes "n \<le> length (cstr_of s)"
  shows "take n s = take n (cstr_of s)"
proof -
  have "take n (take (length (cstr_of s)) s) = take n s"
    unfolding take_take using assms by (simp add: min_def)
  then show ?thesis by simp
qed

lemma reply_string_prepared:
  assumes "isdu_wf c" and "0 \<in> set str"
  shows "runs (reply_string (Ref str) c) (prepared (clip_response (cstr_of str)))"
proof -
  let ?n = "if length (cstr_of str) > 256 then 256 else length (cstr_of str)"
  have n: "?n = min (length (cstr_of str)) 256" "?n \<le> length str"
    using length_cstr_of_le [of str] by auto
  have "take ?n str = take ?n (cstr_of str)"
    by (rule take_cstr) simp
  moreover have "length (is_response_buf c) = 256" using assms(1) by (simp add: isdu_wf_def)
  ultimately show ?thesis
    using assms n clipped_prepared [OF assms(1) n(1) refl]
    by (cases "256 < length (cstr_of str)") (simp_all add: reply_string_def Let_def)
qed

text \<open>The state in which a handler is entered.\<close>

definition executing :: "'w isdu_sys \<Rightarrow> bool" where
  "executing s \<longleftrightarrow> sys_wf s \<and> is_state (sy_isdu s) = ISDU_STATE_SERVICE_EXECUTE"

lemma executing_sys_wf: "executing s \<Longrightarrow> sys_wf s"
  by (simp add: executing_def)

lemma executing_handled: "executing s \<Longrightarrow> handled s"
  by (simp add: executing_def handled_def)

lemma executing_upd [simp]:
  "executing (s\<lparr>sy_ds := d\<rparr>) \<longleftrightarrow> executing s"
  "executing s \<Longrightarrow> executing (s\<lparr>sy_globals := g\<rparr>) \<longleftrightarrow> globals_wf g"
  "executing s \<Longrightarrow> executing (s\<lparr>sy_events := q\<rparr>) \<longleftrightarrow> events_wf q"
  by (auto simp: executing_def sys_wf_def)

lemmas handledI = executing_handled reply_handled [OF executing_sys_wf]
  error_handled [OF executing_sys_wf] ready_handled [OF executing_sys_wf]

lemma handle_tag_write_handled:
  assumes "executing s"
  shows "runs (handle_tag_write plat index seq0 s) handled"
proof -
  note wf = sys_wfD [OF executing_sys_wf [OF assms]]
  have "data_ok (Ref (is_buffer (sy_isdu s))) (is_buffer_idx (sy_isdu s))"
    using wf by (simp add: data_ok_def)
  note set = iolink_params_set_wf [OF wf(3) this]
  show ?thesis
    unfolding handle_tag_write_def Let_def
    using assms by (auto intro!: runs_mono [OF set] handledI)
qed

lemma iolink_device_info_get_installed:
  "g_device_info ds \<noteq> InfoNull \<Longrightarrow> iolink_device_info_get ds = (current_info ds, ds)"
  by (simp add: iolink_device_info_get_def)

lemma iolink_params_get_installed:
  assumes "g_device_info (gl_info g) \<noteq> InfoNull"
    and "runs (iolink_params_get index sub buf n g) (\<lambda>(r, b, g'). P r b)"
  shows "runs (iolink_params_get index sub buf n g) (\<lambda>(r, b, g'). P r b \<and> g' = g)"
proof -
  obtain r b g' where eq: "iolink_params_get index sub buf n g = Some (r, b, g')" and P: "P r b"
    using assms(2) by (auto elim!: runsE)
  then have "g' = g"
    using assms(1)
    by (auto simp: iolink_params_get_def iolink_device_info_get_installed Let_def
        split: ptr.splits if_splits)
  with eq P show ?thesis by simp
qed

text \<open>The value a read of a tag index shows, if it shows one.\<close>

definition tag_shown :: "u16 \<Rightarrow> 'w globals \<Rightarrow> bytes option" where
  "tag_shown index g =
     (if index = 0x0018 \<and> \<not> has_app_tag g then None else Some (clip_response (tag_value index g)))"

lemma handle_tag_read_law:
  assumes "executing s" and "tag_index index" and "g_device_info (gl_info (sy_globals s)) \<noteq> InfoNull"
  shows "runs (handle_tag_read index seq0 s) (\<lambda>s'. handled s' \<and>
     (case tag_shown index (sy_globals s) of
        None \<Rightarrow> is_state (sy_isdu s') = ISDU_STATE_SERVICE_EXECUTE
      | Some bs \<Rightarrow> prepared bs (sy_isdu s')) \<and>
     sy_events s' = sy_events s \<and> sy_ds s' = sy_ds s \<and> sy_globals s' = sy_globals s)"
proof (cases "index = 0x0018 \<and> \<not> has_app_tag (sy_globals s)")
  case True
  then have "iolink_params_get index 0 (Ref buf) 256 (sy_globals s) = Some (-1, Ref buf, sy_globals s)" for buf
    using assms(3)
    by (simp add: iolink_params_get_def iolink_device_info_get_installed has_app_tag_def str_array_def Let_def)
  with True assms(1) show ?thesis
    by (auto simp: handle_tag_read_def Let_def tag_shown_def executing_def handled_def sys_wf_def)
next
  case False
  note wf = sys_wfD [OF executing_sys_wf [OF assms(1)]]
  let ?str = "tag_value index (sy_globals s)" and ?buf = "is_response_buf (sy_isdu s)"
  let ?n = "min (length ?str) 256"
  have "runs (iolink_params_get index 0 (Ref ?buf) 256 (sy_globals s))
    (\<lambda>(r, b, g'). r = int ?n \<and> b = Ref (take ?n ?str @ drop ?n ?buf))"
    using False wf assms(2) by (intro runs_mono [OF iolink_params_get_law]) auto
  note get = iolink_params_get_installed [OF assms(3) this]
  have prep: "prepared (clip_response ?str) (isdu_ready ((sy_isdu s)
      \<lparr>is_response_buf := take ?n ?str @ drop ?n ?buf, is_response_len := ?n mod 256\<rparr>))"
    by (rule clipped_prepared [OF wf(1) refl refl])
  then show ?thesis
    unfolding handle_tag_read_def Let_def
    using False wf
    by (auto simp: tag_shown_def runs_on_isdu prepared_seq sys_wf_def intro!: runs_mono [OF get] prepared_handled)
qed

lemma handle_tag_handled:
  "executing s \<Longrightarrow> tag_index index \<Longrightarrow> g_device_info (gl_info (sy_globals s)) \<noteq> InfoNull \<Longrightarrow>
     runs (handle_tag plat index seq0 s) handled"
  unfolding handle_tag_def
  by (auto intro: handle_tag_write_handled runs_mono [OF handle_tag_read_law])

text \<open>The highest severity among the pending events of a bound queue.\<close>

definition pending_severity :: "unit ptr \<Rightarrow> iolink_events_ctx \<Rightarrow> u8" where
  "pending_severity p q =
     (case p of NULL \<Rightarrow> 0 | Ref _ \<Rightarrow> Max (insert 0 ((event_severity \<circ> ev_type) ` set (events_list q))))"

lemma device_status_law:
  assumes "executing s"
  shows "runs (device_status s) (\<lambda>s'. handled s' \<and>
     prepared [pending_severity (is_event_ctx (sy_isdu s)) (sy_events s)] (sy_isdu s') \<and>
     sy_events s' = sy_events s \<and> sy_ds s' = sy_ds s \<and> sy_globals s' = sy_globals s)"
proof -
  note wf = executing_sys_wf [OF assms]
  have sev: "iolink_events_get_highest_severity (bound (is_event_ctx (sy_isdu s)) (sy_events s))
    = Some (pending_severity (is_event_ctx (sy_isdu s)) (sy_events s))"
    using iolink_events_get_highest_severity_eq [OF sys_wfD(2) [OF wf]]
    by (cases "is_event_ctx (sy_isdu s)")
       (simp_all add: bound_def pending_severity_def iolink_events_get_highest_severity_def [of NULL])
  show ?thesis
    unfolding device_status_def sev
    by (auto simp: runs_on_isdu intro!: runs_mono [OF isdu_reply_prepared] prepared_handled sys_wfD wf)
qed

lemma events_count_le4: "events_wf q \<Longrightarrow> unat (ev_count q) \<le> 4"
  by (simp add: events_wf_def)

lemma mandatory_detailed_status_handled:
  assumes "executing s"
  shows "runs (mandatory_detailed_status s) handled"
proof -
  note wf = executing_sys_wf [OF assms]
  let ?q = "sy_events s" and ?c = "sy_isdu s"
  show ?thesis
  proof (cases "is_event_ctx ?c")
    case NULL
    then show ?thesis
      using assms ready_handled [OF wf sys_wfD(7) [OF wf], of 0]
      by (simp add: mandatory_detailed_status_def bound_def iolink_events_get_all_def Let_def)
  next
    case (Ref x)
    let ?n = "unat (ev_count ?q)"
    have n: "?n \<le> 4" by (rule events_count_le4 [OF sys_wfD(2) [OF wf]])
    define evs where "evs = take ?n (events_list ?q) @ drop ?n (replicate 8 zero_event)"
    then have len: "length evs = 8" using n by simp
    have all: "iolink_events_get_all (bound (is_event_ctx ?c) ?q) (Ref (replicate 8 zero_event)) 8
      = Some (ev_count ?q, Ref evs)"
      using iolink_events_get_all_eq [OF sys_wfD(2) [OF wf], of 8 "replicate 8 zero_event"] n Ref
      by (simp add: bound_def min_def evs_def)
    have loop: "for_loop ?n (\<lambda>i buf. do { ev \<leftarrow> arr_get evs i; put_event (status_qualifier (ev_type ev)) ev i buf })
        (is_response_buf ?c)
      = Some (concat (map (event_bytes status_qualifier) (take ?n evs)) @ drop (3 * ?n) (is_response_buf ?c))"
      using n len sys_wfD(7) [OF wf] by (intro put_events_loop) auto
    show ?thesis
      using n len sys_wfD(7) [OF wf] assms ready_handled [OF wf sys_wfD(7) [OF wf], of 0]
      by (auto simp: mandatory_detailed_status_def all loop Let_def intro!: ready_handled executing_sys_wf)
  qed
qed

lemma handle_detailed_device_status_read:
  assumes "executing s" and "is_read (sy_isdu s)" and "is_event_ctx (sy_isdu s) \<noteq> NULL"
  shows "runs (handle_detailed_device_status s) (\<lambda>s'. handled s' \<and>
    prepared (concat (map (event_bytes event_qualifier) (events_list (sy_events s)))) (sy_isdu s') \<and>
    sy_events s' = sy_events s \<and> sy_ds s' = sy_ds s \<and> sy_globals s' = sy_globals s)"
proof -
  note wf = executing_sys_wf [OF assms(1)]
  let ?q = "sy_events s" and ?c = "sy_isdu s"
  let ?n = "unat (ev_count ?q)"
  have n: "?n \<le> 4" by (rule events_count_le4 [OF sys_wfD(2) [OF wf]])
  let ?bs = "concat (map (event_bytes event_qualifier) (events_list ?q))"
  have loop: "for_loop ?n (\<lambda>i buf. do {
       ev \<leftarrow> arr_get (ev_queue ?q) (unat (ev_slot (ev_head ?q) i));
       put_event (event_qualifier (ev_type ev)) ev i buf }) (is_response_buf ?c)
     = Some (?bs @ drop (3 * ?n) (is_response_buf ?c))"
    using n sys_wfD(7) [OF wf] events_slot_nth [OF sys_wfD(2) [OF wf]]
    by (subst put_events_loop [where evs = "events_list ?q"]) auto
  have "prepared (take (3 * ?n) (?bs @ drop (3 * ?n) (is_response_buf ?c)))
     (isdu_ready (?c\<lparr>is_response_buf := ?bs @ drop (3 * ?n) (is_response_buf ?c), is_response_len := 3 * ?n\<rparr>))"
    using n sys_wfD(1,7) [OF wf] by (intro isdu_ready_prepared) auto
  then show ?thesis
    using n assms(2,3) wf loop prepared_handled
    by (auto simp: handle_detailed_device_status_def Let_def min_def mult.commute)
qed

section \<open>Identification\<close>

text \<open>The module state once the default record has been installed.\<close>

definition installed :: "'w isdu_sys \<Rightarrow> 'w isdu_sys" where
  "installed s = s\<lparr>sy_globals := (sy_globals s)\<lparr>gl_info := snd (iolink_device_info_get (gl_info (sy_globals s)))\<rparr>\<rparr>"

lemma installed_simps [simp]:
  "sy_isdu (installed s) = sy_isdu s" "sy_events (installed s) = sy_events s" "sy_ds (installed s) = sy_ds s"
  "sy_stats (installed s) = sy_stats s"
  "g_nvm_shadow (sy_globals (installed s)) = g_nvm_shadow (sy_globals s)"
  "gl_world (sy_globals (installed s)) = gl_world (sy_globals s)"
  "g_device_info (gl_info (sy_globals (installed s))) \<noteq> InfoNull"
  "current_info (gl_info (sy_globals (installed s))) = current_info (gl_info (sy_globals s))"
  "g_app_tag_buffer (gl_info (sy_globals (installed s))) = g_app_tag_buffer (gl_info (sy_globals s))"
  by (simp_all add: installed_def iolink_device_info_get_def Let_def current_info_def split: info_ptr.splits)

lemma executing_installed:
  assumes "executing s"
  shows "executing (installed s)"
proof -
  obtain i ds where get: "iolink_device_info_get (gl_info (sy_globals s)) = (i, ds)" by fastforce
  with iolink_device_info_get_wf [OF _ this] assms show ?thesis
    by (auto simp: installed_def executing_def sys_wf_def globals_wf_def)
qed

lemma fst_iolink_device_info_get [simp]: "fst (iolink_device_info_get ds) = current_info ds"
  by (simp add: iolink_device_info_get_def Let_def current_info_def split: info_ptr.splits)

text \<open>What a read of an identification index shows; \<open>None\<close> when no response is prepared.\<close>

definition mandatory_spec :: "'w isdu_sys \<Rightarrow> u16 \<Rightarrow> bytes option" where
  "mandatory_spec s index =
     (let g = sy_globals s; info = current_info (gl_info g) in
      if index = IOLINK_IDX_VENDOR_ID then Some (u16_be (di_vendor_id info))
      else if index = IOLINK_IDX_DEVICE_ID then Some (u32_be (di_device_id info))
      else if index = IOLINK_IDX_PROFILE_CHARACTERISTIC then Some (u16_be (di_profile_characteristic info))
      else if tag_index index then tag_shown index g
      else if index = IOLINK_IDX_PDIN_DESCRIPTOR then Some [2]
      else if index = IOLINK_IDX_DEVICE_STATUS then
        Some [pending_severity (is_event_ctx (sy_isdu s)) (sy_events s)]
      else if index = IOLINK_IDX_REVISION_ID then Some (u16_be (di_revision_id info))
      else if index = IOLINK_IDX_MIN_CYCLE_TIME then Some [di_min_cycle_time info]
      else (case mandatory_string info index of
              Some p \<Rightarrow> (case str_array (gl_info g) p of NULL \<Rightarrow> None
                         | Ref str \<Rightarrow> Some (clip_response (cstr_of str)))
            | None \<Rightarrow> Some [0x80, IOLINK_ISDU_ERROR_SERVICE_NOT_AVAIL]))"

definition shows_read :: "'w isdu_sys \<Rightarrow> bytes option \<Rightarrow> 'w isdu_sys \<Rightarrow> bool" where
  "shows_read s r = (\<lambda>s'. handled s' \<and>
     (case r of None \<Rightarrow> is_state (sy_isdu s') = ISDU_STATE_SERVICE_EXECUTE
      | Some bs \<Rightarrow> prepared bs (sy_isdu s')) \<and>
     sy_events s' = sy_events s \<and> sy_ds s' = sy_ds s \<and> sy_globals s' = sy_globals s)"

lemma reply_shows:
  assumes "executing s" and "length bs \<le> 255"
  shows "runs (on_isdu (isdu_reply bs) s) (shows_read s (Some bs))"
    and "runs (on_isdu (isdu_reply_seq0 bs) s) (shows_read s (Some bs))"
  using assms executing_sys_wf [OF assms(1)]
  by (auto simp: runs_on_isdu shows_read_def sys_wfD intro!: prepared_handled
      runs_mono [OF isdu_reply_prepared] runs_mono [OF isdu_reply_seq0_prepared])

lemma reply_string_shows:
  assumes "executing s" and "str_ok p"
  shows "runs (on_isdu (reply_string (str_array (gl_info (sy_globals s)) p)) s)
    (shows_read s (case str_array (gl_info (sy_globals s)) p of NULL \<Rightarrow> None
                   | Ref str \<Rightarrow> Some (clip_response (cstr_of str))))"
proof -
  note wf = sys_wfD [OF executing_sys_wf [OF assms(1)]]
  show ?thesis
  proof (cases "str_array (gl_info (sy_globals s)) p")
    case NULL
    then show ?thesis
      using assms by (simp add: runs_on_isdu reply_string_def shows_read_def executing_handled)
        (simp add: executing_def)
  next
    case (Ref str)
    then show ?thesis
      using wf str_array_terminated [OF wf(4) assms(2) Ref] prepared_handled [OF _ executing_sys_wf [OF assms(1)]]
      by (auto simp: runs_on_isdu shows_read_def intro!: runs_mono [OF reply_string_prepared])
  qed
qed

lemma mandatory_string_ok: "info_wf info \<Longrightarrow> mandatory_string info i = Some p \<Longrightarrow> str_ok p"
  by (auto simp: mandatory_string_def info_wf_def split: if_splits)

lemma mandatory_read_law:
  assumes "executing s" and "\<not> is_write (sy_isdu s)"
    and "hdr_index (is_header (sy_isdu s)) = index" and "index \<noteq> IOLINK_IDX_DETAILED_DEVICE_STATUS"
  shows "runs (handle_mandatory_indices plat s) (shows_read (installed s) (mandatory_spec (installed s) index))"
proof -
  obtain info ds where get: "iolink_device_info_get (gl_info (sy_globals s)) = (info, ds)" by fastforce
  have info: "info = current_info (gl_info (sy_globals (installed s)))"
    using fst_iolink_device_info_get [of "gl_info (sy_globals s)"] by (simp add: get)
  have ds: "ds = gl_info (sy_globals (installed s))" by (simp add: installed_def get)
  have s1: "s\<lparr>sy_globals := (sy_globals s)\<lparr>gl_info := ds\<rparr>\<rparr> = installed s" by (simp add: installed_def get)
  note ex = executing_installed [OF assms(1)]
  have wf: "info_wf info"
    using sys_wfD(4) [OF executing_sys_wf [OF ex]] by (simp add: info devinfo_wf_def)
  have tag: "runs (handle_tag plat i q (installed s)) (shows_read (installed s) (tag_shown i (sy_globals (installed s))))"
    if "tag_index i" for i q
    using handle_tag_read_law [OF ex that, of q] assms(2) by (simp add: handle_tag_def shows_read_def)
  have str: "runs (on_isdu (reply_string (str_array ds p)) (installed s))
     (shows_read (installed s) (case str_array ds p of NULL \<Rightarrow> None | Ref str \<Rightarrow> Some (clip_response (cstr_of str))))"
    if "mandatory_string info index = Some p" for p
    using reply_string_shows [OF ex mandatory_string_ok [OF wf that]] by (simp add: ds)
  have status: "runs (device_status (installed s)) (shows_read (installed s)
     (Some [pending_severity (is_event_ctx (sy_isdu s)) (sy_events s)]))"
    using device_status_law [OF ex] by (simp add: shows_read_def)
  note rep = reply_shows [OF ex]
  show ?thesis
    unfolding handle_mandatory_indices_def get prod.case Let_def s1
    using assms(2-4)
    by (auto simp: mandatory_spec_def tag_index_def Let_def u16_be_def u32_be_def isdu_error_def info
        ds intro!: rep tag str [simplified info ds installed_simps] status split: option.splits)
qed

lemma handle_mandatory_indices_handled:
  assumes "executing s"
  shows "runs (handle_mandatory_indices plat s) handled"
proof -
  obtain info ds where get: "iolink_device_info_get (gl_info (sy_globals s)) = (info, ds)" by fastforce
  have s1: "s\<lparr>sy_globals := (sy_globals s)\<lparr>gl_info := ds\<rparr>\<rparr> = installed s" by (simp add: installed_def get)
  have ds: "ds = gl_info (sy_globals (installed s))" by (simp add: installed_def get)
  have info: "info = current_info (gl_info (sy_globals s))"
    using fst_iolink_device_info_get [of "gl_info (sy_globals s)"] by (simp add: get)
  note ex = executing_installed [OF assms]
  have wf: "info_wf (current_info (gl_info (sy_globals s)))"
    using sys_wfD(4) [OF executing_sys_wf [OF ex]] by (simp add: devinfo_wf_def)
  have str: "runs (on_isdu (reply_string (str_array (gl_info (sy_globals (installed s))) p)) (installed s)) handled"
    if "mandatory_string (current_info (gl_info (sy_globals s))) index = Some p" for p index
    by (rule runs_mono [OF reply_string_shows [OF ex mandatory_string_ok [OF wf that]]]) (simp add: shows_read_def)
  note rep = reply_handled [OF executing_sys_wf [OF ex]] error_handled [OF executing_sys_wf [OF ex]]
  show ?thesis
    unfolding handle_mandatory_indices_def get prod.case Let_def s1
    by (auto simp: tag_index_def u16_be_def u32_be_def info ds
        intro!: rep str handle_tag_handled [OF ex] mandatory_detailed_status_handled [OF ex]
          runs_mono [OF device_status_law [OF ex]] split: option.splits)
qed

lemma ds_command_handled: "executing s \<Longrightarrow> runs (ds_command f err s) handled"
  unfolding ds_command_def
  by (auto intro!: handledI split: prod.splits)

lemma get_access_locks_eq:
  "get_access_locks s = (di_access_locks (current_info (gl_info (sy_globals s))), installed s)"
  using fst_iolink_device_info_get [of "gl_info (sy_globals s)"]
  by (cases "iolink_device_info_get (gl_info (sy_globals s))")
     (simp add: get_access_locks_def iolink_device_info_get_access_locks_def installed_def)

lemma handle_system_command_handled:
  assumes "executing s"
  shows "runs (handle_system_command plat cmd s) handled"
proof -
  have flag: "runs (on_isdu (\<lambda>c. isdu_reply [] (f c)) s) handled" if "isdu_wf (f (sy_isdu s))" for f
    using that executing_sys_wf [OF assms]
    by (auto simp: runs_on_isdu intro!: runs_mono [OF isdu_reply_prepared] prepared_handled)
  have wf: "isdu_wf (sy_isdu s)" by (rule sys_wfD [OF executing_sys_wf [OF assms]])
  then have flags: "isdu_wf ((sy_isdu s)\<lparr>is_reset_pending := True\<rparr>)" "isdu_wf ((sy_isdu s)\<lparr>is_app_reset_pending := True\<rparr>)"
    by (simp_all add: isdu_wf_unfold)
  show ?thesis
    unfolding handle_system_command_def get_access_locks_eq
    using assms sys_wfD(3) [OF executing_sys_wf [OF assms]]
    by (auto intro!: flag flags wf handledI ds_command_handled executing_installed
        runs_mono [OF iolink_params_factory_reset_law])
qed

lemma handle_access_locks_handled:
  assumes "executing s"
  shows "runs (handle_access_locks s) handled"
  unfolding handle_access_locks_def get_access_locks_eq
  using assms sys_wfD [OF executing_sys_wf [OF assms]]
  by (auto simp: u16_be_def Let_def globals_wf_def iolink_device_info_set_access_locks_wf
      intro!: handledI executing_installed)

lemma store_handled:
  assumes "executing s" and "length bs \<le> 255"
  shows "runs (on_isdu (isdu_store bs) s) (\<lambda>s'. executing s' \<and> is_response_len (sy_isdu s') = length bs \<and>
    take (length bs) (is_response_buf (sy_isdu s')) = bs \<and>
    sy_events s' = sy_events s \<and> sy_ds s' = sy_ds s \<and> sy_globals s' = sy_globals s)"
  using assms sys_wfD [OF executing_sys_wf [OF assms(1)]]
  by (auto simp: runs_on_isdu isdu_store_eq executing_def sys_wf_def isdu_wf_unfold)

lemma handle_detailed_device_status_handled:
  assumes "executing s"
  shows "runs (handle_detailed_device_status s) handled"
proof (cases "is_read (sy_isdu s) \<and> is_event_ctx (sy_isdu s) \<noteq> NULL")
  case True
  then show ?thesis
    by (intro runs_mono [OF handle_detailed_device_status_read [OF assms]]) auto
next
  case False
  have "executing (s\<lparr>sy_isdu := (sy_isdu s)\<lparr>is_response_len := 0\<rparr>\<rparr>)"
    using assms by (auto simp: executing_def sys_wf_def isdu_wf_unfold)
  with False assms show ?thesis
    by (auto simp: handle_detailed_device_status_def Let_def
        intro!: executing_handled runs_mono [OF store_handled])
qed

text \<open>The statistics response.\<close>

definition stats_bytes :: "iolink_dll_stats \<Rightarrow> bytes" where
  "stats_bytes st = u32_be (st_crc_errors st) @ u32_be (st_timeout_errors st) @
     u32_be (st_framing_errors st) @ u32_be (st_timing_errors st)"

definition stats_spec :: "'w isdu_sys \<Rightarrow> u8 \<Rightarrow> bytes" where
  "stats_spec s sub =
     (if sub \<noteq> 0 then [0x80, IOLINK_ISDU_ERROR_SUBINDEX_NOT_AVAIL]
      else if is_dll_ctx (sy_isdu s) = NULL then [0x80, IOLINK_ISDU_ERROR_SERVICE_NOT_AVAIL]
      else stats_bytes (sy_stats s))"

lemma length_be [simp]: "length (u16_be w) = 2" "length (u32_be v) = 4"
  by (simp_all add: u16_be_def u32_be_def)

lemma stats_writes:
  assumes "length buf = 256"
  shows "do { p \<leftarrow> isdu_write_u32_be (buf, 0) a; p \<leftarrow> isdu_write_u32_be p b;
              p \<leftarrow> isdu_write_u32_be p c; isdu_write_u32_be p d }
       = Some ((u32_be a @ u32_be b @ u32_be c @ u32_be d) @ drop 16 buf, 16)"
  using assms isdu_write_u32_be_eq [of "[]" 0 buf a]
  by (simp add: isdu_write_u32_be_eq del: append_assoc)

lemma isdu_ready_wf: "isdu_wf c \<Longrightarrow> isdu_wf (isdu_ready c)"
  by (auto simp: isdu_ready_def isdu_wf_unfold)

lemma isdu_ready_stored:
  "isdu_wf c \<Longrightarrow> is_response_len c = length bs \<Longrightarrow> take (length bs) (is_response_buf c) = bs \<Longrightarrow>
     prepared bs (isdu_ready c)"
  by (simp add: prepared_def isdu_ready_wf) (simp add: isdu_ready_def)

lemma handle_error_stats_law:
  assumes "executing s"
  shows "runs (do { s \<leftarrow> handle_error_stats s; Some (s\<lparr>sy_isdu := isdu_ready (sy_isdu s)\<rparr>) })
    (shows_read s (Some (if is_read (sy_isdu s) then stats_spec s (hdr_subindex (is_header (sy_isdu s)))
                         else [0x80, IOLINK_ISDU_ERROR_WRITE_PROTECTED])))"
proof -
  note wf = executing_sys_wf [OF assms]
  let ?c = "sy_isdu s" and ?st = "sy_stats s"
  have st: "runs (on_isdu (isdu_store bs) s)
      (\<lambda>s'. shows_read s (Some bs) (s'\<lparr>sy_isdu := isdu_ready (sy_isdu s')\<rparr>))" if "length bs \<le> 255" for bs
    by (rule runs_mono [OF store_handled [OF assms that]])
       (use sys_wfD(1) [OF executing_sys_wf] executing_sys_wf in
         \<open>auto simp: shows_read_def intro: isdu_ready_stored prepared_handled\<close>)
  have "prepared (take 16 (stats_bytes ?st @ drop 16 (is_response_buf ?c)))
     (isdu_ready (?c\<lparr>is_response_buf := stats_bytes ?st @ drop 16 (is_response_buf ?c), is_response_len := 16\<rparr>))"
    using sys_wfD [OF wf] by (intro isdu_ready_prepared) (auto simp: stats_bytes_def)
  moreover have "take 16 (stats_bytes ?st @ r) = stats_bytes ?st" for r by (simp add: stats_bytes_def)
  ultimately have ok: "shows_read s (Some (stats_bytes ?st)) (s\<lparr>sy_isdu := isdu_ready
      (?c\<lparr>is_response_buf := stats_bytes ?st @ drop 16 (is_response_buf ?c), is_response_len := 16\<rparr>)\<rparr>)"
    using wf by (simp add: shows_read_def prepared_handled)
  have ready2: "isdu_ready (isdu_ready c) = isdu_ready c" for c by (simp add: isdu_ready_def)
  show ?thesis
  proof (cases "is_read ?c \<and> hdr_subindex (is_header ?c) = 0 \<and> is_dll_ctx ?c \<noteq> NULL")
    case True
    have "handle_error_stats s = Some (s\<lparr>sy_isdu := isdu_ready
      (?c\<lparr>is_response_buf := stats_bytes ?st @ drop 16 (is_response_buf ?c), is_response_len := 16\<rparr>)\<rparr>)"
      using True stats_writes [OF sys_wfD(7) [OF wf], of "st_crc_errors ?st" "st_timeout_errors ?st"
          "st_framing_errors ?st" "st_timing_errors ?st"]
      by (auto simp: handle_error_stats_def Let_def stats_bytes_def bind_eq_Some_conv)
    with True ok show ?thesis by (simp add: ready2 stats_spec_def)
  next
    case False
    then show ?thesis using st by (auto simp: handle_error_stats_def Let_def stats_spec_def)
  qed
qed

lemma read_event_code_law:
  assumes "executing s"
  shows "runs (read_event_code s) (\<lambda>s'. handled s' \<and>
     (let pending = (if is_event_ctx (sy_isdu s) = NULL then [] else events_list (sy_events s)) in
      prepared (case front pending of Some ev \<Rightarrow> u16_be (ev_code ev) | None \<Rightarrow> [0, 0]) (sy_isdu s') \<and>
      (if is_event_ctx (sy_isdu s) = NULL then sy_events s' = sy_events s
       else events_list (sy_events s') = tl (events_list (sy_events s)))) \<and>
     sy_ds s' = sy_ds s \<and> sy_globals s' = sy_globals s)"
proof -
  note wf = executing_sys_wf [OF assms]
  have len: "length (case e of Some ev \<Rightarrow> u16_be (ev_code ev) | None \<Rightarrow> [0, 0]) \<le> 255" for e
    by (cases e) simp_all
  show ?thesis
    unfolding read_event_code_def Let_def
    using sys_wfD [OF wf] wf len
    by (auto simp: runs_on_isdu intro!: runs_mono [OF isdu_reply_prepared] prepared_handled
        runs_mono [OF iolink_events_pop_law])
qed

lemma handle_standard_commands_handled:
  assumes "executing s"
  shows "runs (handle_standard_commands plat s) handled"
proof -
  note wf = executing_sys_wf [OF assms]
  have stats: "runs (do { s \<leftarrow> handle_error_stats s; Some (s\<lparr>sy_isdu := isdu_ready (sy_isdu s)\<rparr>) }) handled"
    by (rule runs_mono [OF handle_error_stats_law [OF assms]]) (simp add: shows_read_def)
  have ev: "runs (read_event_code s) handled"
    by (rule runs_mono [OF read_event_code_law [OF assms]]) simp
  show ?thesis
    unfolding handle_standard_commands_def Let_def runs_if
    using sys_wfD(6) [OF wf]
    by (auto intro!: ev stats [simplified] handle_system_command_handled error_handled wf
        handle_access_locks_handled handle_detailed_device_status_handled handle_mandatory_indices_handled assms)
qed

section \<open>The process step\<close>

definition answered :: "bytes \<Rightarrow> iolink_isdu_ctx \<Rightarrow> bool" where
  "answered bs c \<longleftrightarrow> prepared bs c \<and> is_segment_seq c = 0 \<and> \<not> is_response_control_sent c"

definition finish :: "'w isdu_sys \<Rightarrow> 'w isdu_sys" where
  "finish s = s\<lparr>sy_isdu :=
     if is_state (sy_isdu s) \<noteq> ISDU_STATE_RESPONSE_READY then (sy_isdu s)\<lparr>is_state := ISDU_STATE_IDLE\<rparr>
     else (sy_isdu s)\<lparr>is_segment_seq := 0, is_response_control_sent := False\<rparr>\<rparr>"

lemma iolink_isdu_process_executing:
  "executing s \<Longrightarrow> iolink_isdu_process plat s = map_option finish (handle_standard_commands plat s)"
  by (cases "handle_standard_commands plat s")
     (simp_all add: iolink_isdu_process_def executing_def finish_def Let_def)

lemma finish_simps [simp]:
  "sy_events (finish s) = sy_events s" "sy_ds (finish s) = sy_ds s" "sy_globals (finish s) = sy_globals s"
  "sy_stats (finish s) = sy_stats s"
  by (simp_all add: finish_def)

lemma finish_wf: "handled s \<Longrightarrow> sys_wf (finish s) \<and>
    (is_state (sy_isdu (finish s)) = ISDU_STATE_IDLE \<or> is_state (sy_isdu (finish s)) = ISDU_STATE_RESPONSE_READY)"
  by (auto simp: handled_def finish_def sys_wf_def isdu_wf_unfold)

lemma finish_answered: "prepared bs (sy_isdu s) \<Longrightarrow> answered bs (sy_isdu (finish s))"
  by (auto simp: prepared_def answered_def finish_def isdu_wf_unfold)

lemma finish_idle:
  "is_state (sy_isdu s) = ISDU_STATE_SERVICE_EXECUTE \<Longrightarrow> is_state (sy_isdu (finish s)) = ISDU_STATE_IDLE"
  by (simp add: finish_def)

lemma iolink_isdu_process_wf:
  assumes "sys_wf s"
  shows "runs (iolink_isdu_process plat s) (\<lambda>s'. sys_wf s' \<and> is_state (sy_isdu s') \<noteq> ISDU_STATE_SERVICE_EXECUTE)"
proof (cases "is_state (sy_isdu s) = ISDU_STATE_SERVICE_EXECUTE")
  case True
  then have ex: "executing s" using assms by (simp add: executing_def)
  show ?thesis
    unfolding iolink_isdu_process_executing [OF ex] runs_map_option
    by (rule runs_mono [OF handle_standard_commands_handled [OF ex]]) (use finish_wf in force)
next
  case False
  then show ?thesis using assms by (simp add: iolink_isdu_process_def)
qed

section \<open>Reads\<close>

definition pending :: "'w isdu_sys \<Rightarrow> iolink_event list" where
  "pending s = (if is_event_ctx (sy_isdu s) = NULL then [] else events_list (sy_events s))"

text \<open>
  The abstract specification of a read: the bytes shown for an index and subindex, as a function
  of the event queue, the statistics, the device record and the tags.
\<close>

definition read_spec :: "'w isdu_sys \<Rightarrow> u16 \<Rightarrow> u8 \<Rightarrow> bytes option" where
  "read_spec s index sub =
     (if index = IOLINK_IDX_SYSTEM_COMMAND then
        Some (case front (pending s) of Some ev \<Rightarrow> u16_be (ev_code ev) | None \<Rightarrow> [0, 0])
      else if index = IOLINK_IDX_DEVICE_ACCESS_LOCKS then
        Some (u16_be (di_access_locks (current_info (gl_info (sy_globals s)))))
      else if index = IOLINK_IDX_DETAILED_DEVICE_STATUS then
        (if is_event_ctx (sy_isdu s) = NULL then None
         else Some (concat (map (event_bytes event_qualifier) (pending s))))
      else if index = IOLINK_IDX_ERROR_STATS then Some (stats_spec s sub)
      else mandatory_spec s index)"

lemma mandatory_spec_installed: "mandatory_spec (installed s) index = mandatory_spec s index"
proof -
  have "str_array (gl_info (sy_globals (installed s))) = str_array (gl_info (sy_globals s))"
    by (rule ext) (simp add: str_array_def split: c_str.splits)
  then show ?thesis
    by (simp add: mandatory_spec_def Let_def tag_shown_def tag_value_def has_app_tag_def
        split: option.split)
qed

text \<open>A read changes no parameter: at most the default record is installed, and index 2 pops an event.\<close>

definition read_effect :: "u16 \<Rightarrow> 'w isdu_sys \<Rightarrow> 'w isdu_sys \<Rightarrow> bool" where
  "read_effect index s s' \<longleftrightarrow> sy_ds s' = sy_ds s \<and>
     (sy_globals s' = sy_globals s \<or> sy_globals s' = sy_globals (installed s)) \<and>
     (if index = IOLINK_IDX_SYSTEM_COMMAND \<and> is_event_ctx (sy_isdu s) \<noteq> NULL
      then events_list (sy_events s') = tl (events_list (sy_events s)) else sy_events s' = sy_events s)"

lemma isdu_read_process:
  assumes "executing s" and "is_read (sy_isdu s)"
  defines "index \<equiv> hdr_index (is_header (sy_isdu s))" and "sub \<equiv> hdr_subindex (is_header (sy_isdu s))"
  shows "runs (iolink_isdu_process plat s) (\<lambda>s'. sys_wf s' \<and> read_effect index s s' \<and>
     (case read_spec s index sub of
        None \<Rightarrow> is_state (sy_isdu s') = ISDU_STATE_IDLE | Some bs \<Rightarrow> answered bs (sy_isdu s')))"
proof -
  have nw: "\<not> is_write (sy_isdu s)" using assms(2) by (simp add: is_read_def is_write_def)
  have fin: "runs (handle_standard_commands plat s) (\<lambda>s'. handled s' \<and> read_effect index s s' \<and>
     (case read_spec s index sub of
        None \<Rightarrow> is_state (sy_isdu s') = ISDU_STATE_SERVICE_EXECUTE | Some bs \<Rightarrow> prepared bs (sy_isdu s')))"
  proof -
    consider (cmd) "index = 2" | (locks) "index = 0xC" | (status) "index = 0x1C" | (stats) "index = 0x25"
      | (ident) "index \<notin> {2, 0xC, 0x1C, 0x25}" by auto
    then show ?thesis
    proof cases
      case cmd
      then show ?thesis
        using read_event_code_law [OF assms(1)] nw
        by (auto simp: handle_standard_commands_def index_def Let_def read_spec_def read_effect_def pending_def
            elim!: runs_mono)
    next
      case locks
      then show ?thesis
        using reply_shows(1) [OF executing_installed [OF assms(1)], of
            "u16_be (di_access_locks (current_info (gl_info (sy_globals s))))"] assms(2)
        by (auto simp: handle_standard_commands_def handle_access_locks_def index_def Let_def read_spec_def
            get_access_locks_eq read_effect_def shows_read_def elim!: runs_mono)
    next
      case status
      then show ?thesis
        using handle_detailed_device_status_read [OF assms(1,2)] assms(1,2)
        by (cases "is_event_ctx (sy_isdu s) = NULL")
           (auto simp: handle_standard_commands_def index_def Let_def read_spec_def read_effect_def pending_def
             handle_detailed_device_status_def executing_def handled_def sys_wf_def isdu_wf_unfold
             elim!: runs_mono)
    next
      case stats
      then show ?thesis
        using handle_error_stats_law [OF assms(1)] assms(2)
        by (auto simp: handle_standard_commands_def index_def sub_def Let_def read_spec_def read_effect_def
            shows_read_def elim!: runs_mono)
    next
      case ident
      then show ?thesis
        using mandatory_read_law [OF assms(1) nw, of index plat]
        by (auto simp: handle_standard_commands_def index_def Let_def read_spec_def read_effect_def
            shows_read_def mandatory_spec_installed elim!: runs_mono)
    qed
  qed
  show ?thesis
    unfolding iolink_isdu_process_executing [OF assms(1)] runs_map_option
    by (rule runs_mono [OF fin])
       (use finish_wf finish_answered finish_idle in \<open>fastforce simp: read_effect_def split: option.splits\<close>)
qed

section \<open>Writes\<close>

lemma handle_tag_write_accepts:
  assumes "executing s" and "tag_write_ok index (is_buffer_idx (sy_isdu s)) (sy_globals s)"
  shows "runs (handle_tag_write plat index seq0 s) (\<lambda>s'. handled s' \<and> prepared [] (sy_isdu s') \<and>
     tag_value index (sy_globals s') = cstr_of (take (min 32 (is_buffer_idx (sy_isdu s))) (is_buffer (sy_isdu s))) \<and>
     (index = 0x0018 \<longrightarrow> has_app_tag (sy_globals s')) \<and> sy_events s' = sy_events s \<and> sy_ds s' = sy_ds s)"
proof -
  note wf = executing_sys_wf [OF assms(1)]
  have set: "runs (iolink_params_set plat index 0 (Ref (is_buffer (sy_isdu s))) (is_buffer_idx (sy_isdu s)) True (sy_globals s))
    (\<lambda>(r, g'). r = 0 \<and> globals_wf g' \<and>
       tag_value index g' = cstr_of (take (min 32 (is_buffer_idx (sy_isdu s))) (is_buffer (sy_isdu s))) \<and>
       (index = 0x0018 \<longrightarrow> has_app_tag g'))"
    using sys_wfD [OF wf] by (intro iolink_params_set_accepts assms(2)) auto
  show ?thesis
    unfolding handle_tag_write_def Let_def
    using sys_wfD [OF wf]
    by (auto simp: runs_on_isdu sys_wf_def
        intro!: runs_mono [OF set] runs_mono [OF isdu_reply_prepared] runs_mono [OF isdu_reply_seq0_prepared]
          prepared_handled)
qed

lemma tag_write_handler:
  assumes "is_write (sy_isdu s)" and "hdr_index (is_header (sy_isdu s)) = index" and "tag_index index"
  shows "handle_standard_commands plat s = handle_tag_write plat index (index \<noteq> 0x1A) (installed s)"
proof -
  obtain info ds where get: "iolink_device_info_get (gl_info (sy_globals s)) = (info, ds)" by fastforce
  have s1: "s\<lparr>sy_globals := (sy_globals s)\<lparr>gl_info := ds\<rparr>\<rparr> = installed s" by (simp add: installed_def get)
  show ?thesis
    using assms
    by (auto simp: handle_standard_commands_def handle_mandatory_indices_def get s1 Let_def handle_tag_def tag_index_def)
qed

lemma isdu_tag_write_process:
  assumes "executing s" and "is_write (sy_isdu s)" and "hdr_index (is_header (sy_isdu s)) = index"
    and "tag_write_ok index (is_buffer_idx (sy_isdu s)) (sy_globals (installed s))"
  shows "runs (iolink_isdu_process plat s) (\<lambda>s'. sys_wf s' \<and> answered [] (sy_isdu s') \<and>
     tag_value index (sy_globals s') = cstr_of (take (min 32 (is_buffer_idx (sy_isdu s))) (is_buffer (sy_isdu s))) \<and>
     (index = 0x0018 \<longrightarrow> has_app_tag (sy_globals s')))"
proof -
  have "tag_index index" using assms(4) by (simp add: tag_write_ok_def)
  then have "handle_standard_commands plat s = handle_tag_write plat index (index \<noteq> 0x1A) (installed s)"
    by (rule tag_write_handler [OF assms(2,3)])
  then show ?thesis
    unfolding iolink_isdu_process_executing [OF assms(1)] runs_map_option
    using handle_tag_write_accepts [OF executing_installed [OF assms(1)], of index plat "index \<noteq> 0x1A"] assms(4)
    by (auto elim!: runs_mono simp: finish_answered dest: finish_wf)
qed

section \<open>Complete transactions\<close>

text \<open>The master sends a request byte by byte, the device executes it, the master reads \<open>n\<close> bytes.\<close>

definition isdu_transaction ::
  "'w platform \<Rightarrow> 'w isdu_sys \<Rightarrow> bytes \<Rightarrow> nat \<Rightarrow> (u8 option list \<times> 'w isdu_sys) option" where
  "isdu_transaction plat s request n = do {
     c \<leftarrow> collect_all (sy_isdu s) request;
     s \<leftarrow> iolink_isdu_process plat (s\<lparr>sy_isdu := c\<rparr>);
     (out, c) \<leftarrow> drain iolink_isdu_get_response_byte n (sy_isdu s);
     Some (out, s\<lparr>sy_isdu := c\<rparr>) }"

definition can_start :: "'w isdu_sys \<Rightarrow> bool" where
  "can_start s \<longleftrightarrow> sys_wf s \<and>
     (is_state (sy_isdu s) = ISDU_STATE_IDLE \<or> is_state (sy_isdu s) = ISDU_STATE_RESPONSE_READY)"

lemma collect_request_executing:
  assumes "can_start s" and "request_ok r"
  shows "runs (collect_all (sy_isdu s) (encode_request seq r)) (\<lambda>c. executing (s\<lparr>sy_isdu := c\<rparr>) \<and>
     holds_request r c \<and> isdu_bindings c = isdu_bindings (sy_isdu s))"
  using assms
  by (auto simp: can_start_def sys_wf_def executing_def intro!: runs_mono [OF collect_request])

lemma drain_answered:
  assumes "answered bs c" and "bs \<noteq> []"
  shows "runs (drain iolink_isdu_get_response_byte (2 * length bs) c) (\<lambda>(out, c').
     out = map Some (encode_segments True 0 bs) \<and> is_state c' = ISDU_STATE_IDLE \<and> isdu_bindings c' = isdu_bindings c)"
proof -
  have "runs (drain iolink_isdu_get_response_byte (2 * length bs) c) (\<lambda>(out, c').
     out = map Some (encode_segments (is_response_idx c = 0) (is_segment_seq c) bs) \<and>
     is_state c' = ISDU_STATE_IDLE \<and> isdu_bindings c' = isdu_bindings c)"
    using assms by (intro drain_response) (auto simp: answered_def prepared_def isdu_wf_def)
  then show ?thesis using assms by (auto simp: answered_def prepared_def elim!: runs_mono)
qed

lemma drain_response_wf:
  "isdu_wf c \<Longrightarrow> runs (drain iolink_isdu_get_response_byte n c) (\<lambda>(out, c'). isdu_wf c')"
proof (induction n arbitrary: c)
  case (Suc n)
  then show ?case
    by (auto simp: split_def intro!: runs_mono [OF iolink_isdu_get_response_byte_wf] elim!: runs_mono)
qed simp

text \<open>The specification sees the engine only through its bindings.\<close>

lemma read_spec_isdu:
  "isdu_bindings c = isdu_bindings (sy_isdu s) \<Longrightarrow> read_spec (s\<lparr>sy_isdu := c\<rparr>) i sub = read_spec s i sub"
  by (simp add: read_spec_def pending_def stats_spec_def mandatory_spec_def isdu_bindings_def Let_def)

lemma read_transaction:
  assumes "can_start s" and "read_spec s i sub = Some bs" and "bs \<noteq> []"
  shows "runs (isdu_transaction plat s (encode_request seq (ReadReq i sub)) (2 * length bs))
    (\<lambda>(out, s'). can_start s' \<and> out = map Some (encode_segments True 0 bs))"
proof -
  have ex: "runs (collect_all (sy_isdu s) (encode_request seq (ReadReq i sub))) (\<lambda>c.
     executing (s\<lparr>sy_isdu := c\<rparr>) \<and> holds_request (ReadReq i sub) c \<and> isdu_bindings c = isdu_bindings (sy_isdu s))"
    by (rule collect_request_executing [OF assms(1)]) simp
  have proc: "runs (iolink_isdu_process plat (s\<lparr>sy_isdu := c\<rparr>)) (\<lambda>s'. sys_wf s' \<and> answered bs (sy_isdu s'))"
    if "executing (s\<lparr>sy_isdu := c\<rparr>)" "holds_request (ReadReq i sub) c" "isdu_bindings c = isdu_bindings (sy_isdu s)" for c
    using isdu_read_process [OF that(1), of plat] that(2) assms(2) read_spec_isdu [OF that(3)]
    by (auto simp: is_read_def elim!: runs_mono)
  have out: "runs (drain iolink_isdu_get_response_byte (2 * length bs) (sy_isdu s')) (\<lambda>(out, c').
     can_start (s'\<lparr>sy_isdu := c'\<rparr>) \<and> out = map Some (encode_segments True 0 bs))"
    if "sys_wf s'" "answered bs (sy_isdu s')" for s' :: "'a isdu_sys"
    by (rule runs_mono [OF runs_conj [OF drain_answered [OF that(2) assms(3)] drain_response_wf [OF sys_wfD(1) [OF that(1)]]]])
       (use that in \<open>auto simp: can_start_def sys_wf_def\<close>)
  show ?thesis
    unfolding isdu_transaction_def
    by (auto intro!: runs_mono [OF ex] runs_mono [OF proc] runs_mono [OF out])
qed

lemma drain_empty:
  assumes "answered [] c"
  shows "runs (drain iolink_isdu_get_response_byte 2 c) (\<lambda>(out, c').
     out = [Some (mk_ctrl True True 0), None] \<and> is_state c' = ISDU_STATE_IDLE)"
  using assms
  by (simp add: numeral_2_eq_2 iolink_isdu_get_response_byte_def answered_def prepared_def mk_ctrl_def Let_def)

lemma tag_write_transaction:
  assumes "can_start s" and "1 \<le> length d" and "length d \<le> 255"
    and "tag_write_ok i (length d) (sy_globals (installed s))"
  shows "runs (isdu_transaction plat s (encode_request seq (WriteReq i sub d)) 2)
    (\<lambda>(out, s'). can_start s' \<and> out = [Some (mk_ctrl True True 0), None] \<and>
       tag_shown i (sy_globals s') = Some (cstr_of (take 32 d)))"
proof -
  have ex: "runs (collect_all (sy_isdu s) (encode_request seq (WriteReq i sub d))) (\<lambda>c.
     executing (s\<lparr>sy_isdu := c\<rparr>) \<and> holds_request (WriteReq i sub d) c \<and> isdu_bindings c = isdu_bindings (sy_isdu s))"
    using assms by (intro collect_request_executing) simp_all
  have proc: "runs (iolink_isdu_process plat (s\<lparr>sy_isdu := c\<rparr>)) (\<lambda>s'. sys_wf s' \<and> answered [] (sy_isdu s') \<and>
       tag_shown i (sy_globals s') = Some (cstr_of (take 32 d)))"
    if ex: "executing (s\<lparr>sy_isdu := c\<rparr>)" and h: "holds_request (WriteReq i sub d) c" for c
  proof -
    have "take (min 32 (length d)) (is_buffer c) = take 32 (take (length d) (is_buffer c))" by simp
    also have "take (length d) (is_buffer c) = d" using h by simp
    finally have buf: "take (min 32 (length d)) (is_buffer c) = take 32 d" .
    have glob: "sy_globals (installed (s\<lparr>sy_isdu := c\<rparr>)) = sy_globals (installed s)" by (simp add: installed_def)
    have len: "length (cstr_of (take 32 d)) < 256" using length_cstr_of_le [of "take 32 d"] by simp
    have "runs (iolink_isdu_process plat (s\<lparr>sy_isdu := c\<rparr>)) (\<lambda>s'. sys_wf s' \<and> answered [] (sy_isdu s') \<and>
       tag_value i (sy_globals s') = cstr_of (take 32 d) \<and> (i = 0x0018 \<longrightarrow> has_app_tag (sy_globals s')))"
      using isdu_tag_write_process [OF ex, of i plat] h assms(4) by (simp add: is_write_def buf glob)
    then show ?thesis
      using len by (auto simp: tag_shown_def clip_response_def elim!: runs_mono)
  qed
  have out: "runs (drain iolink_isdu_get_response_byte 2 (sy_isdu s')) (\<lambda>(out, c').
     can_start (s'\<lparr>sy_isdu := c'\<rparr>) \<and> out = [Some (mk_ctrl True True 0), None])"
    if "sys_wf s'" "answered [] (sy_isdu s')" for s' :: "'a isdu_sys"
    by (rule runs_mono [OF runs_conj [OF drain_empty [OF that(2)] drain_response_wf [OF sys_wfD(1) [OF that(1)]]]])
       (use that in \<open>auto simp: can_start_def sys_wf_def\<close>)
  show ?thesis
    unfolding isdu_transaction_def
    by (auto intro!: runs_mono [OF ex] runs_mono [OF proc] runs_mono [OF out])
qed

lemma system_command_process:
  assumes "executing s" and "is_write (sy_isdu s)" and "hdr_index (is_header (sy_isdu s)) = IOLINK_IDX_SYSTEM_COMMAND"
    and "0 < is_buffer_idx (sy_isdu s)"
  shows "iolink_isdu_process plat s =
    map_option finish (handle_system_command plat (is_buffer (sy_isdu s) ! 0) s)"
  using assms sys_wfD(6) [OF executing_sys_wf [OF assms(1)]]
  by (simp add: iolink_isdu_process_executing handle_standard_commands_def Let_def)

section \<open>Reachable states\<close>

text \<open>What the data link layer does with the engine, in any order.\<close>

inductive isdu_step :: "'w platform \<Rightarrow> 'w isdu_sys \<Rightarrow> 'w isdu_sys \<Rightarrow> bool" for plat where
  collect: "iolink_isdu_collect_byte (sy_isdu s) b = Some (r, c) \<Longrightarrow> isdu_step plat s (s\<lparr>sy_isdu := c\<rparr>)"
| respond: "iolink_isdu_get_response_byte (sy_isdu s) = Some (r, c) \<Longrightarrow> isdu_step plat s (s\<lparr>sy_isdu := c\<rparr>)"
| process: "iolink_isdu_process plat s = Some s' \<Longrightarrow> isdu_step plat s s'"
| event: "iolink_event_trigger (sy_events s) code ty = Some q \<Longrightarrow> isdu_step plat s (s\<lparr>sy_events := q\<rparr>)"

inductive_cases isdu_stepE: "isdu_step plat s s'"

lemma isdu_step_wf:
  assumes "isdu_step plat s s'" and "sys_wf s"
  shows "sys_wf s'"
  using assms(1)
proof cases
  case (collect b r c)
  then show ?thesis
    using iolink_isdu_collect_byte_wf [OF sys_wfD(1) [OF assms(2)], of b] assms(2) by (simp add: sys_wf_def)
next
  case (respond r c)
  then show ?thesis
    using iolink_isdu_get_response_byte_wf [OF sys_wfD(1) [OF assms(2)]] assms(2) by (simp add: sys_wf_def)
next
  case process
  then show ?thesis using iolink_isdu_process_wf [OF assms(2), of plat] by simp
next
  case (event code ty q)
  then show ?thesis
    using iolink_event_trigger_wf [OF sys_wfD(2) [OF assms(2)], of code ty] assms(2) by (simp add: sys_wf_def)
qed

lemma isdu_steps_wf: "(isdu_step plat)\<^sup>*\<^sup>* s s' \<Longrightarrow> sys_wf s \<Longrightarrow> sys_wf s'"
  by (induction rule: rtranclp_induct) (auto intro: isdu_step_wf)

section \<open>Correctness of the services\<close>

text \<open>
  A concrete system: static module state, an empty queue bound to the engine, Data Storage and the
  statistics bound as well.
\<close>

definition demo_sys :: "baremetal_world isdu_sys" where
  "demo_sys =
     \<lparr>sy_isdu = zero_isdu_ctx\<lparr>is_event_ctx := Ref (), is_ds_ctx := Ref (), is_dll_ctx := Ref ()\<rparr>,
      sy_events = zero_events_ctx, sy_ds = zero_ds_ctx,
      sy_stats = \<lparr>st_crc_errors = 1, st_timeout_errors = 0, st_framing_errors = 0, st_timing_errors = 0,
        st_t_ren_violations = 0, st_t_cycle_violations = 0, st_t_byte_violations = 0, st_t_pd_violations = 0,
        st_total_retries = 0, st_voltage_faults = 0, st_short_circuits = 0\<rparr>,
      sy_globals = globals_static \<lparr>bm_ticks_ms = 0\<rparr>\<rparr>"

lemma demo_sys_can_start: "can_start demo_sys"
  by (simp add: can_start_def demo_sys_def sys_wf_def globals_wf_static zero_isdu_ctx_def isdu_wf_unfold)

lemma demo_sys_simps [simp]:
  "sy_isdu demo_sys = zero_isdu_ctx\<lparr>is_event_ctx := Ref (), is_ds_ctx := Ref (), is_dll_ctx := Ref ()\<rparr>"
  "sy_globals demo_sys = globals_static \<lparr>bm_ticks_ms = 0\<rparr>" "sy_ds demo_sys = zero_ds_ctx"
  by (simp_all add: demo_sys_def)

text \<open>
  C20: The ISDU engine never leaves defined behaviour.  In every state reachable from a well-formed
  one by any interleaving of received bytes, requested response bytes, process calls and triggered
  events, the next received byte, the next response byte and the next process call all run to
  completion without an access outside a buffer.
\<close>

theorem isdu_engine_safe:
  assumes "sys_wf s0" and "(isdu_step plat)\<^sup>*\<^sup>* s0 s"
  shows "runs (iolink_isdu_collect_byte (sy_isdu s) b) (\<lambda>(r, c). isdu_wf c) \<and>
     runs (iolink_isdu_get_response_byte (sy_isdu s)) (\<lambda>(r, c). isdu_wf c) \<and>
     runs (iolink_isdu_process plat s) sys_wf"
proof -
  note wf = isdu_steps_wf [OF assms(2,1)]
  show ?thesis
    using iolink_isdu_collect_byte_wf [OF sys_wfD(1) [OF wf]]
      iolink_isdu_get_response_byte_wf [OF sys_wfD(1) [OF wf]] iolink_isdu_process_wf [OF wf, of plat]
    by (auto elim: runs_mono)
qed

lemma isdu_engine_safe_witness:
  "runs (iolink_isdu_collect_byte (sy_isdu demo_sys) 0x80) (\<lambda>(r, c). isdu_wf c) \<and>
   runs (iolink_isdu_get_response_byte (sy_isdu demo_sys)) (\<lambda>(r, c). isdu_wf c) \<and>
   runs (iolink_isdu_process baremetal_platform demo_sys) sys_wf"
  using demo_sys_can_start by (intro isdu_engine_safe [of demo_sys]) (auto simp: can_start_def)

text \<open>
  C2: A read is correct end to end.  The master that sends a read request for any index and
  subindex, lets the device process it and fetches the response, decodes from the wire exactly the
  bytes the specification \<open>read_spec\<close> gives for that index: identification numbers and strings,
  tags, access locks, device status, pending events, error statistics, or the error code of an
  index that does not exist.  The device is then ready for the next request.
\<close>

theorem isdu_read_end_to_end:
  assumes "can_start s" and "read_spec s i sub = Some bs" and "bs \<noteq> []"
  shows "runs (isdu_transaction plat s (encode_request seq (ReadReq i sub)) (2 * length bs))
    (\<lambda>(out, s'). can_start s' \<and> None \<notin> set out \<and> decode_segments True 0 (map the out) = Some bs)"
  using assms(3)
  by (intro runs_mono [OF read_transaction [OF assms]]) (auto simp: comp_def decode_encode_segments)

lemma isdu_read_end_to_end_witness:
  "runs (isdu_transaction baremetal_platform demo_sys (encode_request 0 (ReadReq 0x0A 0)) (2 * length [0xFF :: u8, 0xFF]))
    (\<lambda>(out, s'). can_start s' \<and> None \<notin> set out \<and> decode_segments True 0 (map the out) = Some [0xFF, 0xFF])"
  by (rule isdu_read_end_to_end [OF demo_sys_can_start])
     (simp_all add: read_spec_def mandatory_spec_def globals_static_def device_info_static_def
        current_info_def default_info_def u16_be_def)

text \<open>
  C21: A tag written by the master is the tag it reads back.  A write of 1 to 255 bytes to a tag
  index that accepts it is acknowledged, and a following read of the same index returns the bytes
  written, cut at 32 bytes and at the first NUL.
\<close>

theorem isdu_tag_write_read:
  assumes "can_start s" and "1 \<le> length d" and "length d \<le> 255"
    and "tag_write_ok i (length d) (sy_globals (installed s))" and "cstr_of (take 32 d) \<noteq> []"
  shows "runs (isdu_transaction plat s (encode_request seq (WriteReq i sub d)) 2 \<bind> (\<lambda>(ack, s1).
      map_option (\<lambda>(out, s2). (ack, out, s2))
        (isdu_transaction plat s1 (encode_request seq' (ReadReq i sub')) (2 * length (cstr_of (take 32 d))))))
    (\<lambda>(ack, out, s2). ack = [Some (mk_ctrl True True 0), None] \<and>
       decode_segments True 0 (map the out) = Some (cstr_of (take 32 d)))"
proof -
  have spec: "read_spec s1 i sub' = tag_shown i (sy_globals s1)" for s1 :: "'a isdu_sys"
    using assms(4) by (auto simp: tag_write_ok_def tag_index_def read_spec_def mandatory_spec_def)
  show ?thesis
    using assms(5)
    by (auto intro!: runs_mono [OF tag_write_transaction [OF assms(1-4)]] runs_mono [OF read_transaction]
        simp: spec comp_def decode_encode_segments)
qed

lemma isdu_tag_write_read_witness:
  "runs (isdu_transaction baremetal_platform demo_sys (encode_request 0 (WriteReq 0x18 0 [0x41, 0x42])) 2 \<bind> (\<lambda>(ack, s1).
      map_option (\<lambda>(out, s2). (ack, out, s2))
        (isdu_transaction baremetal_platform s1 (encode_request 0 (ReadReq 0x18 0)) (2 * length (cstr_of (take 32 [0x41, 0x42]))))))
    (\<lambda>(ack, out, s2). ack = [Some (mk_ctrl True True 0), None] \<and>
       decode_segments True 0 (map the out) = Some (cstr_of (take 32 [0x41, 0x42])))"
  by (rule isdu_tag_write_read [OF demo_sys_can_start])
     (simp_all add: tag_write_ok_def tag_index_def installed_def iolink_device_info_get_def
        globals_static_def device_info_static_def cstr_of_def Let_def)

text \<open>
  C28: Reads have no side effects on parameters.  Executing a read request leaves the Data Storage
  engine, the non-volatile shadow and the outside world as they are; only index 2 consumes an
  event, and then exactly the oldest one.
\<close>

theorem isdu_read_no_side_effect:
  assumes "executing s" and "is_read (sy_isdu s)"
  shows "runs (iolink_isdu_process plat s) (\<lambda>s'. sy_ds s' = sy_ds s \<and>
     g_nvm_shadow (sy_globals s') = g_nvm_shadow (sy_globals s) \<and>
     gl_world (sy_globals s') = gl_world (sy_globals s) \<and>
     current_info (gl_info (sy_globals s')) = current_info (gl_info (sy_globals s)) \<and>
     events_list (sy_events s') =
       (if hdr_index (is_header (sy_isdu s)) = IOLINK_IDX_SYSTEM_COMMAND \<and> is_event_ctx (sy_isdu s) \<noteq> NULL
        then tl (events_list (sy_events s)) else events_list (sy_events s)))"
  by (rule runs_mono [OF isdu_read_process [OF assms]]) (auto simp: read_effect_def split: if_splits)

lemma isdu_read_no_side_effect_witness:
  "runs (iolink_isdu_process baremetal_platform (demo_sys\<lparr>sy_isdu := (sy_isdu demo_sys)\<lparr>is_state := ISDU_STATE_SERVICE_EXECUTE\<rparr>\<rparr>))
    (\<lambda>s'. sy_ds s' = zero_ds_ctx)"
  by (rule runs_mono [OF isdu_read_no_side_effect])
     (use demo_sys_can_start in \<open>auto simp: can_start_def executing_def sys_wf_def is_read_def zero_isdu_ctx_def isdu_wf_unfold\<close>)

text \<open>
  The restore commands 0x82 and 0x83 clear every tag and are acknowledged with an empty
  response; the application tag of the device record is cleared when it is the built-in record.
\<close>

theorem isdu_factory_reset:
  assumes "executing s" and "is_write (sy_isdu s)" and "hdr_index (is_header (sy_isdu s)) = IOLINK_IDX_SYSTEM_COMMAND"
    and "0 < is_buffer_idx (sy_isdu s)" and "is_buffer (sy_isdu s) ! 0 \<in> {IOLINK_CMD_RESTORE_FACTORY_SETTINGS, IOLINK_CMD_RESTORE_APP_DEFAULTS}"
  shows "runs (iolink_isdu_process plat s) (\<lambda>s'. answered [] (sy_isdu s') \<and>
     cstr_of (nv_application_tag (g_nvm_shadow (sy_globals s'))) = [] \<and>
     tag_value IOLINK_IDX_FUNCTION_TAG (sy_globals s') = [] \<and>
     tag_value IOLINK_IDX_LOCATION_TAG (sy_globals s') = [] \<and>
     (g_device_info (gl_info (sy_globals s)) = InfoDefault \<longrightarrow>
        cstr_of (g_app_tag_buffer (gl_info (sy_globals s'))) = []))"
proof -
  note wf = executing_sys_wf [OF assms(1)]
  have "handle_system_command plat (is_buffer (sy_isdu s) ! 0) s
     = iolink_params_factory_reset plat (sy_globals s) \<bind> (\<lambda>g. on_isdu (isdu_reply []) (s\<lparr>sy_globals := g\<rparr>))"
    using assms(5) by (auto simp: handle_system_command_def)
  then show ?thesis
    unfolding system_command_process [OF assms(1-4)] runs_map_option
    using sys_wfD [OF wf]
    by (auto simp: runs_on_isdu tag_value_def finish_answered
        intro!: runs_mono [OF iolink_params_factory_reset_law] runs_mono [OF isdu_reply_prepared])
qed

text \<open>The demonstration system about to execute a system command.\<close>

definition demo_command :: "u8 \<Rightarrow> u16 \<Rightarrow> baremetal_world isdu_sys" where
  "demo_command cmd locks = demo_sys
     \<lparr>sy_isdu := (sy_isdu demo_sys)\<lparr>is_state := ISDU_STATE_SERVICE_EXECUTE,
        is_header := \<lparr>hdr_type = 1, hdr_length = 1, hdr_index = 2, hdr_subindex = 0\<rparr>,
        is_buffer := cmd # replicate 255 0, is_buffer_idx := 1\<rparr>,
      sy_globals := (sy_globals demo_sys)\<lparr>gl_info := (gl_info (sy_globals demo_sys))
        \<lparr>g_default_info := default_info\<lparr>di_access_locks := locks\<rparr>\<rparr>\<rparr>\<rparr>"

lemma demo_command_executing: "executing (demo_command cmd locks)"
  by (simp add: executing_def demo_command_def sys_wf_def demo_sys_def isdu_wf_unfold zero_isdu_ctx_def
      globals_static_def device_info_static_def devinfo_wf_def current_info_def info_wf_def default_info_def
      globals_wf_def shadow_wf_def tag_wf_def zero_params_nvm_def c_literal_def)

lemma isdu_factory_reset_witness:
  "runs (iolink_isdu_process baremetal_platform (demo_command 0x82 0)) (\<lambda>s'. answered [] (sy_isdu s') \<and>
     tag_value IOLINK_IDX_FUNCTION_TAG (sy_globals s') = [])"
  by (rule runs_mono [OF isdu_factory_reset [OF demo_command_executing]])
     (auto simp: demo_command_def is_write_def)

text \<open>
  In an engine that is bound to a Data Storage context (the stack itself binds none) the lock
  holds against the standard commands and only against them.  With the lock bit set,
  ParamDownloadStart and ParamDownloadEnd are refused with 0x8033 and leave the context
  unchanged; the legacy command 0x96 starts a download all the same.
\<close>

theorem isdu_ds_lock:
  assumes "executing s" and "is_write (sy_isdu s)" and "hdr_index (is_header (sy_isdu s)) = IOLINK_IDX_SYSTEM_COMMAND"
    and "0 < is_buffer_idx (sy_isdu s)" and "is_ds_ctx (sy_isdu s) \<noteq> NULL"
    and "di_access_locks (current_info (gl_info (sy_globals s))) AND IOLINK_LOCK_DS \<noteq> 0"
  shows "(is_buffer (sy_isdu s) ! 0 \<in> {IOLINK_CMD_PARAM_DOWNLOAD_START, IOLINK_CMD_PARAM_DOWNLOAD_END} \<longrightarrow>
      runs (iolink_isdu_process plat s) (\<lambda>s'. answered [0x80, IOLINK_ISDU_ERROR_WRITE_PROTECTED] (sy_isdu s') \<and>
        sy_ds s' = sy_ds s)) \<and>
    (is_buffer (sy_isdu s) ! 0 = IOLINK_CMD_PARAM_DOWNLOAD \<and> ds_state (sy_ds s) = IOLINK_DS_STATE_IDLE \<longrightarrow>
      runs (iolink_isdu_process plat s) (\<lambda>s'. answered [] (sy_isdu s') \<and>
        ds_state (sy_ds s') = IOLINK_DS_STATE_DOWNLOAD_REQ))"
proof -
  note wf = executing_sys_wf [OF assms(1)]
  show ?thesis
    unfolding system_command_process [OF assms(1-4)] runs_map_option
    using assms(5,6) sys_wfD(1) [OF wf]
    by (auto simp: handle_system_command_def get_access_locks_eq ds_command_def iolink_ds_handle_command_def
        iolink_ds_start_download_def ds_error_code_def isdu_error_def runs_on_isdu finish_answered
        intro!: runs_mono [OF isdu_reply_prepared])
qed

lemma isdu_ds_lock_witness:
  "runs (iolink_isdu_process baremetal_platform (demo_command 0x05 0x02)) (\<lambda>s'.
     answered [0x80, IOLINK_ISDU_ERROR_WRITE_PROTECTED] (sy_isdu s') \<and> sy_ds s' = sy_ds (demo_command 0x05 0x02))"
  using isdu_ds_lock [OF demo_command_executing, of "0x05" "0x02" baremetal_platform]
  by (simp add: demo_command_def is_write_def globals_static_def device_info_static_def current_info_def)

end
