(* ===== verification/Dll_Safety.thy ===== *)
theory Dll_Safety
  imports Dll Isdu_Refinement
begin

text \<open>
  The data link layer stays within defined behaviour.  The locale \<open>link_inv\<close> extends the
  environment \<open>link_env\<close> by an invariant on the control part of the context (state, baudrate, open
  frame); under the closure laws of that invariant every step of \<^verbatim>\<open>iolink_dll_process\<close> returns and
  keeps it.  The control invariants used later are sublocales.
\<close>

section \<open>Invariant\<close>

text \<open>
  Array sizes, lengths within the arrays they index, an open frame with a possible length, and the
  invariants of the sub-modules.
\<close>

definition dll_wf :: "'w iolink_dll_ctx \<Rightarrow> bool" where
  [wf_defs]: "dll_wf c \<longleftrightarrow>
     length (dll_frame_buf c) = FRAME_BUF_SIZE \<and>
     (dll_frame_index c \<noteq> 0 \<longrightarrow> 2 \<le> unat (dll_req_len c) \<and> unat (dll_req_len c) \<le> 37) \<and>
     (dll_od_len c = 1 \<or> dll_od_len c = 2) \<and>
     unat (dll_pd_in_len_current c) \<le> IOLINK_PD_IN_MAX_SIZE \<and>
     unat (dll_pd_out_len_current c) \<le> IOLINK_PD_OUT_MAX_SIZE \<and>
     unat (dll_pd_out_len c) \<le> IOLINK_PD_OUT_MAX_SIZE \<and>
     length (dll_pd_in c) = IOLINK_PD_IN_MAX_SIZE \<and> length (dll_pd_out c) = IOLINK_PD_OUT_MAX_SIZE \<and>
     events_wf (dll_events c) \<and> isdu_wf (dll_isdu c)"

text \<open>
  The invariant of the running stack: well-formed, bound to the PHY \<open>p\<close>, and with at most \<open>n\<close>
  bytes still to be received.
\<close>

definition stack_wf :: "'w stack \<Rightarrow> bool" where
  [wf_defs]: "stack_wf s \<longleftrightarrow> dll_wf (sk_dll s) \<and> globals_wf (sk_globals s)"

text \<open>The control part of the context, and the invariants that depend on it only.\<close>

type_synonym control = "iolink_dll_state \<times> iolink_baudrate \<times> u8 \<times> u8"

definition ctl :: "'w iolink_dll_ctx \<Rightarrow> control" where
  "ctl c = (dll_state c, dll_baudrate c, dll_frame_index c, dll_req_len c)"

definition good ::
  "'w iolink_phy_api \<Rightarrow> ('w \<Rightarrow> nat) \<Rightarrow> (control \<Rightarrow> bool) \<Rightarrow> nat \<Rightarrow> 'w stack \<Rightarrow> bool" where
  "good p bl J n s \<longleftrightarrow> stack_wf s \<and> dll_phy (sk_dll s) = Ref p \<and> J (ctl (sk_dll s)) \<and> bl (world s) \<le> n"

definition live :: "'w iolink_phy_api \<Rightarrow> (control \<Rightarrow> bool) \<Rightarrow> 'w stack \<Rightarrow> bool" where
  "live p J s \<longleftrightarrow> stack_wf s \<and> dll_phy (sk_dll s) = Ref p \<and> J (ctl (sk_dll s))"

lemma world_simps [simp]:
  "world (set_world w s) = w" "world (mod_dll f s) = world s"
  "sk_dll (set_world w s) = sk_dll s" "sk_dll (mod_dll f s) = f (sk_dll s)"
  "sk_globals (mod_dll f s) = sk_globals s"
  "world (s\<lparr>sk_dll := c\<rparr>) = world s"
  "globals_wf (sk_globals (set_world w s)) = globals_wf (sk_globals s)"
  by (simp_all add: world_def set_world_def mod_dll_def)

lemma good_mod_dll:
  assumes "good p bl J n s" and "dll_wf (sk_dll s) \<Longrightarrow> dll_wf (f (sk_dll s))"
    and "dll_phy (f (sk_dll s)) = dll_phy (sk_dll s)" and "J (ctl (sk_dll s)) \<Longrightarrow> J (ctl (f (sk_dll s)))"
  shows "good p bl J n (mod_dll f s)"
  using assms by (simp add: good_def stack_wf_def)

lemma good_set_world:
  "good p bl J n s \<Longrightarrow> bl w \<le> bl (world s) \<Longrightarrow> good p bl J n (set_world w s)"
  by (auto simp: good_def stack_wf_def)

lemmas ctx_upd = dll_wf_def ctl_def

lemma goodD:
  assumes "good p bl J n s"
  shows "dll_wf (sk_dll s)" "globals_wf (sk_globals s)" "the_phy s = Some p" "bl (world s) \<le> n"
    "events_wf (dll_events (sk_dll s))" "isdu_wf (dll_isdu (sk_dll s))"
  using assms by (simp_all add: good_def stack_wf_def the_phy_def dll_wf_def)

lemma dll_trigger_law:
  assumes "events_wf (dll_events (sk_dll s))"
  shows "runs (dll_trigger code ty s) (\<lambda>s'. \<exists>q. s' = mod_dll (dll_events_update (\<lambda>_. q)) s \<and> events_wf q \<and>
     events_list q = push_drop IOLINK_EVENT_QUEUE_SIZE (events_list (dll_events (sk_dll s))) \<lparr>ev_code = code, ev_type = ty\<rparr>)"
  unfolding dll_trigger_def runs_map_option
  by (rule runs_mono [OF iolink_event_trigger_law [OF assms]]) blast

lemma dll_trigger_good:
  assumes "good p bl J n s"
  shows "runs (dll_trigger code ty s) (good p bl J n)"
  unfolding dll_trigger_def runs_map_option
  by (rule runs_mono [OF iolink_event_trigger_wf [OF goodD(5) [OF assms]]])
     (auto intro!: good_mod_dll [OF assms] simp: ctx_upd)

lemma dll_trigger_live:
  "live p J s \<Longrightarrow> runs (dll_trigger code ty s) (live p J)"
  using dll_trigger_good [of p "\<lambda>_. 0" J 0 s code ty] by (simp add: good_def [abs_def] live_def [abs_def])

lemma od_exchange_wf:
  "isdu_wf c \<Longrightarrow> runs (od_exchange b c) (\<lambda>(r, c'). isdu_wf c')"
  unfolding od_exchange_def
  by (auto intro!: runs_mono [OF iolink_isdu_collect_byte_wf] runs_mono [OF iolink_isdu_get_response_byte_wf]
      simp: split_def)

lemma od_loop_wf:
  assumes "isdu_wf c" and "od_len \<le> 2" and "length od_in = 2"
  shows "runs (od_loop od_len od_in c) (\<lambda>(od_out, c'). length od_out = 2 \<and> isdu_wf c')"
  unfolding od_loop_def
  by (rule for_loop_inv [where I = "\<lambda>_ (od_out, c'). length od_out = 2 \<and> isdu_wf c'", simplified])
     (use assms in \<open>auto intro!: runs_mono [OF od_exchange_wf]\<close>)

text \<open>The response frame: status, process data, on-request data, checksum over all of them.\<close>

definition response_body :: "bytes \<Rightarrow> 'w iolink_dll_ctx \<Rightarrow> bytes" where
  "response_body od_out c =
     dll_status_byte c # take (unat (dll_pd_in_len_current c)) (dll_pd_in c) @ take (unat (dll_od_len c)) od_out"

lemma crc6_prefix:
  assumes "length body \<le> 255"
  shows "iolink_crc6 (Ref (body @ r)) (word_of_nat (length body)) = Some (crc6 body)"
  using assms iolink_crc6_eq [of "word_of_nat (length body)" "body @ r"] by simp

lemma dll_build_response_eq:
  assumes "dll_wf c" and "length od_out = 2"
  shows "dll_build_response od_out c = Some (response_body od_out c @ [crc6 (response_body od_out c)])"
proof -
  define pd where "pd = take (unat (dll_pd_in_len_current c)) (dll_pd_in c)"
  define od where "od = take (unat (dll_od_len c)) od_out"
  from assms have lens: "length pd = unat (dll_pd_in_len_current c)" "length od = unat (dll_od_len c)"
    "length pd \<le> 32" "length od \<le> 2" "length (dll_pd_in c) = 32"
    by (auto simp: dll_wf_def pd_def od_def)
  let ?st = "dll_status_byte c"
  let ?body = "?st # pd @ od"
  have r0: "arr_set (replicate 37 0) 0 ?st = Some (?st # replicate 36 0)"
    by (simp add: arr_set_def replicate_Suc [of 36, simplified, symmetric] del: replicate_Suc)
       (simp add: numeral_eq_Suc)
  have r1: "(if unat (dll_pd_in_len_current c) > 0
       then memcpy (?st # replicate 36 0) 1 (dll_pd_in c) 0 (unat (dll_pd_in_len_current c))
       else Some (?st # replicate 36 0))
     = Some (?st # pd @ replicate (36 - length pd) 0)"
    using lens by (auto simp: memcpy_def pd_def [symmetric])
  have r2: "memcpy (?st # pd @ replicate (36 - length pd) 0) (1 + length pd) od_out 0 (unat (dll_od_len c))
     = Some (?body @ replicate (36 - length pd - length od) 0)"
    using lens assms(2) by (simp add: memcpy_def od_def [symmetric])
  have len: "length ?body \<le> 35" using lens by simp
  have crc: "iolink_crc6 (Ref (?body @ r)) (word_of_nat (length ?body)) = Some (crc6 ?body)" for r
    by (rule crc6_prefix) (use len in simp)
  have "(?body @ replicate (36 - length pd - length od) 0)[length ?body := x]
     = ?body @ x # replicate (35 - length pd - length od) 0" for x
  proof -
    have "36 - length pd - length od = Suc (35 - length pd - length od)" using lens by simp
    then show ?thesis by (simp add: list_update_append)
  qed
  with r0 r1 r2 crc len lens show ?thesis
    unfolding dll_build_response_def response_body_def pd_def [symmetric] od_def [symmetric] Let_def
    by simp
qed

lemma dll_receive_frame_wf:
  assumes "dll_wf c"
  shows "runs (dll_receive_frame c) (\<lambda>(od_out, c'). length od_out = 2 \<and> dll_wf c' \<and> dll_phy c' = dll_phy c \<and> ctl c' = ctl c)"
proof -
  have len: "unat (dll_od_len c) \<le> 2" "0 < unat (dll_od_len c)" "unat (dll_pd_out_len_current c) \<le> 32"
    "length (dll_frame_buf c) = 48" "length (dll_pd_out c) = 32" "isdu_wf (dll_isdu c)"
    using assms by (auto simp: ctx_upd)
  then have wf': "dll_wf (c\<lparr>dll_pd_out := pd, dll_isdu := isdu\<rparr>)" if "length pd = 32" "isdu_wf isdu" for pd isdu
    using assms that by (simp add: dll_wf_def)
  from this [OF len(5)] have wf'': "dll_wf (c\<lparr>dll_isdu := isdu\<rparr>)" if "isdu_wf isdu" for isdu
    using that by simp
  show ?thesis
    unfolding dll_receive_frame_def Let_def
    using len by (auto intro!: runs_mono [OF od_loop_wf] wf' wf'' simp: ctl_def)
qed

lemma dll_crc_ok_runs:
  assumes "dll_wf c" and "dll_frame_index c \<noteq> 0"
  shows "runs (dll_crc_ok c) (\<lambda>_. True)"
proof -
  have len: "length (dll_frame_buf c) = 48" "2 \<le> unat (dll_req_len c)" "unat (dll_req_len c) \<le> 37"
    using assms by (auto simp: ctx_upd)
  then have "unat (dll_req_len c - 1) = unat (dll_req_len c) - 1" by (simp add: unat_u8_pred)
  then show ?thesis
    using len by (simp add: dll_crc_ok_def iolink_checksum_ck_eq iolink_crc6_eq)
qed

lemma unat_multi_req_len:
  assumes "dll_wf c"
  shows "unat (multi_req_len c) = 3 + unat (dll_pd_out_len_current c) + unat (dll_od_len c)"
proof -
  have "unat (dll_pd_out_len_current c) \<le> 32" "unat (dll_od_len c) \<le> 2" using assms by (auto simp: ctx_upd)
  then show ?thesis by (simp add: multi_req_len_def unat_word_ariths)
qed

text \<open>The receiver expects the frame lengths of the internal header.\<close>

lemma multi_req_len_macros:
  assumes "dll_wf c"
  shows "unat (multi_req_len c) = IOLINK_M_SEQ_TYPE2_LEN (unat (dll_pd_out_len_current c)) (unat (dll_od_len c))"
    and "dll_od_len c = 1 \<Longrightarrow> unat (multi_req_len c) = IOLINK_M_SEQ_TYPE1_LEN (unat (dll_pd_out_len_current c))"
  using unat_multi_req_len [OF assms] by (simp_all add: IOLINK_M_SEQ_TYPE2_LEN_def IOLINK_M_SEQ_TYPE1_LEN_def)

lemma dll_req_len_for_bounds:
  assumes "dll_wf c"
  shows "2 \<le> unat (dll_req_len_for b c)" "unat (dll_req_len_for b c) \<le> 37"
proof -
  have "unat (dll_pd_out_len_current c) \<le> 32" "unat (dll_od_len c) \<le> 2" using assms by (auto simp: ctx_upd)
  then show "2 \<le> unat (dll_req_len_for b c)" "unat (dll_req_len_for b c) \<le> 37"
    using unat_multi_req_len [OF assms] by (simp_all add: dll_req_len_for_def Let_def)
qed

lemma dll_store_byte_wf:
  assumes "dll_wf c"
  shows "runs (dll_store_byte t b c) (\<lambda>c'. dll_wf c' \<and> dll_phy c' = dll_phy c)"
  using assms dll_req_len_for_bounds [OF assms, of b]
  by (auto simp: dll_store_byte_def dll_wf_def)

lemma dll_req_len_for_COM1:
  "dll_req_len_for b c = 2 \<or> dll_baudrate c \<noteq> IOLINK_BAUDRATE_COM1"
  by (simp add: dll_req_len_for_def)

text \<open>
  An invariant of the control part: closed under what the layer does to state, baudrate and frame
  assembly.  The process function is proved to keep any such invariant.
\<close>

locale link_inv = link_env +
  fixes J :: "control \<Rightarrow> bool"
  assumes J_com1: "J (st, b, i, r) \<Longrightarrow> J (st, IOLINK_BAUDRATE_COM1, i, r)"
    and J_startup: "J (st, b, i, r) \<Longrightarrow> J (IOLINK_DLL_STATE_STARTUP, b, i, r)"
    and J_drop: "J (st, b, i, r) \<Longrightarrow> J (st, b, 0, r)"
    and J_wakeup: "J (st, b, 0, r) \<Longrightarrow> J (IOLINK_DLL_STATE_AWAITING_COMM, b, 0, r)"
    and J_first: "J (st, b, i, r) \<Longrightarrow>
      st = IOLINK_DLL_STATE_AWAITING_COMM \<or> st = IOLINK_DLL_STATE_STARTUP \<Longrightarrow> J (IOLINK_DLL_STATE_PREOPERATE, b, i, r)"
    and J_estab: "J (st, b, i, r) \<Longrightarrow>
      st = IOLINK_DLL_STATE_PREOPERATE \<or> st = IOLINK_DLL_STATE_ESTAB_COM \<Longrightarrow> J (IOLINK_DLL_STATE_ESTAB_COM, b, i, r)"
    and J_operate: "J (IOLINK_DLL_STATE_ESTAB_COM, b, i, r) \<Longrightarrow> i \<noteq> 0 \<Longrightarrow> 2 < r \<Longrightarrow> J (IOLINK_DLL_STATE_OPERATE, b, i, r)"
    and J_open: "J (st, b, 0, r) \<Longrightarrow> r' = 2 \<or> b \<noteq> IOLINK_BAUDRATE_COM1 \<Longrightarrow> J (st, b, 1, r')"
    and J_more: "J (st, b, i, r) \<Longrightarrow> i \<noteq> 0 \<Longrightarrow> i' \<noteq> 0 \<Longrightarrow> J (st, b, i', r)"
begin

lemma J_reset: "J (st, b, i, r) \<Longrightarrow> J (IOLINK_DLL_STATE_STARTUP, b, 0, r)"
  by (rule J_drop [OF J_startup])

lemmas J_rules = J_com1 J_startup J_drop J_reset

lemma time_us_good:
  assumes "good phy backlog J n s" and "iolink_time_get_us plat s = (t, s')"
  shows "good phy backlog J n s'"
proof -
  obtain w where "time_get_us plat (world s) = (t, w)" "s' = set_world w s"
    using assms(2) by (auto simp: iolink_time_get_us_def split: prod.splits)
  with time_us_backlog [of "world s"] assms(1) show ?thesis
    by (auto intro: good_set_world)
qed

lemma time_ms_good:
  assumes "good phy backlog J n s" and "iolink_time_get_ms plat s = (t, s')"
  shows "good phy backlog J n s'"
proof -
  obtain w where "time_get_ms plat (world s) = (t, w)" "s' = set_world w s"
    using assms(2) by (auto simp: iolink_time_get_ms_def split: prod.splits)
  with time_ms_backlog [of "world s"] assms(1) show ?thesis
    by (auto intro: good_set_world)
qed

lemma set_baudrate_good:
  assumes "good phy backlog J n s"
  shows "runs (iolink_dll_set_baudrate IOLINK_BAUDRATE_COM1 s) (good phy backlog J n)"
proof -
  have "backlog (f IOLINK_BAUDRATE_COM1 (world s)) \<le> backlog (world s)" if "phy_set_baudrate phy = Ref f" for f
    by (rule baud_backlog [OF that])
  then show ?thesis
    unfolding iolink_dll_set_baudrate_def Let_def
    using goodD(3) [OF assms]
    by (auto intro!: good_mod_dll good_set_world assms simp: ctx_upd intro: J_com1 split: ptr.splits)
qed

lemma set_mode_good:
  assumes "good phy backlog J n s"
  shows "runs (dll_set_mode m s) (good phy backlog J n)"
proof -
  have "backlog (f m (world s)) \<le> backlog (world s)" if "phy_set_mode phy = Ref f" for f
    by (rule mode_backlog [OF that])
  then show ?thesis
    unfolding dll_set_mode_def Let_def
    using goodD(3) [OF assms]
    by (auto intro!: good_mod_dll good_set_world assms simp: ctx_upd split: ptr.splits)
qed

lemmas set_sio_mode_good = set_mode_good [of _ _ IOLINK_PHY_MODE_SIO, folded iolink_dll_set_sio_mode_def]
lemmas set_sdci_mode_good = set_mode_good [of _ _ IOLINK_PHY_MODE_SDCI, folded iolink_dll_set_sdci_mode_def]

lemma enter_fallback_good:
  assumes "good phy backlog J n s"
  shows "runs (dll_enter_fallback s) (good phy backlog J n)"
proof -
  let ?s = "mod_dll (\<lambda>c. c\<lparr>dll_fallback_count := dll_fallback_count c + 1,
                             dll_total_retries := dll_total_retries c + 1\<rparr>) s"
  have g: "good phy backlog J n ?s" using assms by (rule good_mod_dll) (simp_all add: ctx_upd J_rules)
  have reset: "good phy backlog J n (mod_dll (\<lambda>c. c\<lparr>dll_state := IOLINK_DLL_STATE_STARTUP, dll_fallback_count := 0, dll_frame_index := 0\<rparr>) t)"
    "good phy backlog J n (mod_dll (\<lambda>c. c\<lparr>dll_state := IOLINK_DLL_STATE_STARTUP\<rparr>) t)"
    if "good phy backlog J n t" for t
    using that by (auto intro!: good_mod_dll simp: ctx_upd intro: J_startup J_reset)
  show ?thesis
    unfolding dll_enter_fallback_def Let_def
    using g
    by (auto intro!: runs_mono [OF set_sio_mode_good] runs_mono [OF set_baudrate_good] dll_trigger_good reset)
qed

lemma send_good:
  assumes "good phy backlog J n s"
  shows "runs (dll_send d s) (good phy backlog J n)"
proof -
  have "backlog (snd (f d (world s))) \<le> backlog (world s)" if "phy_send phy = Ref f" for f
    by (rule send_backlog [OF that])
  then show ?thesis
    unfolding dll_send_def
    using goodD(3) [OF assms] assms by (auto intro!: good_set_world split: ptr.splits)
qed

lemma type0_good:
  assumes "good phy backlog J n s"
  shows "runs (dll_handle_operate_type0 mc s) (good phy backlog J n)"
  unfolding dll_handle_operate_type0_def iolink_checksum_ck_eq
  by (auto intro!: runs_mono [OF od_exchange_wf [OF goodD(6) [OF assms]]] send_good good_mod_dll [OF assms]
      simp: ctx_upd)

lemma after_send_good:
  assumes "good phy backlog J n s"
  shows "runs (dll_after_send plat s) (good phy backlog J n)"
proof -
  have g: "good phy backlog J n (mod_dll (\<lambda>c. c\<lparr>dll_fallback_count := 0\<rparr>) s)"
    using assms by (rule good_mod_dll) (simp_all add: ctx_upd J_rules)
  show ?thesis
    unfolding dll_after_send_def Let_def
    by (auto split: prod.splits dest!: time_us_good [OF g] intro!: dll_trigger_good good_mod_dll simp: ctx_upd)
qed

lemma transmit_good:
  assumes "good phy backlog J n s"
  shows "runs (dll_transmit plat resp s) (good phy backlog J n)"
proof -
  have sent: "runs (case phy_send phy of NULL \<Rightarrow> Some s
          | Ref f \<Rightarrow> dll_after_send plat (set_world (snd (f resp (world s))) s)) (good phy backlog J n)"
  proof (cases "phy_send phy")
    case (Ref f)
    then show ?thesis
      using good_set_world [OF assms send_backlog [OF Ref]] by (auto intro: after_send_good)
  qed (use assms in simp)
  show ?thesis
    unfolding dll_transmit_def
    using goodD(3) [OF assms]
    by (auto split: prod.splits dest: time_us_good intro!: runs_mono [OF sent] good_mod_dll simp: ctx_upd)
qed

lemma type1_2_good:
  assumes "good phy backlog J n s"
  shows "runs (dll_handle_operate_type1_2 plat s) (good phy backlog J n)"
proof -
  note wf = goodD(1) [OF assms]
  have "good phy backlog J n (s\<lparr>sk_dll := c\<rparr>)" if "dll_wf c" "dll_phy c = dll_phy (sk_dll s)" "ctl c = ctl (sk_dll s)" for c
    using assms that by (simp add: good_def stack_wf_def)
  then show ?thesis
    unfolding dll_handle_operate_type1_2_def
    by (auto simp: dll_build_response_eq intro!: runs_mono [OF dll_receive_frame_wf [OF wf]] transmit_good)
qed

lemma reject_good:
  assumes "good phy backlog J n s"
  shows "runs (dll_reject s) (good phy backlog J n)" "runs (dll_bad_crc s) (good phy backlog J n)"
  unfolding dll_reject_def dll_bad_crc_def
  by (auto intro!: enter_fallback_good good_mod_dll [OF assms] simp: ctx_upd)

lemma state_good:
  assumes "good phy backlog J n s" and "J (x, dll_baudrate (sk_dll s), dll_frame_index (sk_dll s), dll_req_len (sk_dll s))"
  shows "good phy backlog J n (mod_dll (\<lambda>c. c\<lparr>dll_state := x\<rparr>) s)"
    and "good phy backlog J n (mod_dll (\<lambda>c. c\<lparr>dll_state := x, dll_fallback_count := 0\<rparr>) s)"
  using assms by (auto intro!: good_mod_dll simp: ctx_upd)

lemma goodJ:
  "good phy backlog J n s \<Longrightarrow> J (dll_state (sk_dll s), dll_baudrate (sk_dll s), dll_frame_index (sk_dll s), dll_req_len (sk_dll s))"
  by (simp add: good_def ctl_def)

lemma preoperate_good:
  assumes "good phy backlog J n s" and "dll_state (sk_dll s) = IOLINK_DLL_STATE_PREOPERATE \<or> dll_state (sk_dll s) = IOLINK_DLL_STATE_ESTAB_COM"
  shows "good phy backlog J n (dll_handle_preoperate mc s)"
  using assms goodJ [OF assms(1)] by (auto simp: dll_handle_preoperate_def intro!: state_good J_estab)

lemma dispatch_good:
  assumes "good phy backlog J n s" and "dll_frame_index (sk_dll s) \<noteq> 0"
  shows "runs (dll_dispatch plat s) (good phy backlog J n)"
proof -
  let ?s = "dll_first_frame s"
  have first: "good phy backlog J n ?s"
    using assms goodJ [OF assms(1)] by (auto simp: dll_first_frame_def intro!: state_good J_first)
  have idx: "dll_frame_index (sk_dll ?s) \<noteq> 0" using assms(2) by (simp add: dll_first_frame_def)
  have op: "good phy backlog J n (mod_dll (\<lambda>c. c\<lparr>dll_state := IOLINK_DLL_STATE_OPERATE\<rparr>) ?s)"
    if "dll_state (sk_dll ?s) = IOLINK_DLL_STATE_ESTAB_COM" "2 < dll_req_len (sk_dll ?s)"
    using that goodJ [OF first] idx by (intro state_good first J_operate) simp_all
  have "0 < length (dll_frame_buf (sk_dll ?s))"
    using goodD(1) [OF first] by (simp add: dll_wf_def)
  then show ?thesis
    unfolding dll_dispatch_def Let_def dll_dispatch_preoperate_def dll_dispatch_estab_com_def dll_dispatch_operate_def
    using first by (auto intro!: type0_good type1_2_good reject_good preoperate_good op)
qed

lemma cycle_timing_good:
  assumes "good phy backlog J n s"
  shows "runs (dll_cycle_timing plat s) (\<lambda>s'. good phy backlog J n s' \<and>
     dll_req_len (sk_dll s') = dll_req_len (sk_dll s) \<and> dll_frame_index (sk_dll s') = dll_frame_index (sk_dll s))"
proof -
  obtain t s1 where t: "iolink_time_get_us plat s = (t, s1)" by fastforce
  have c: "sk_dll s1 = sk_dll s" using t by (auto simp: iolink_time_get_us_def split: prod.splits)
  note g = time_us_good [OF assms t]
  have upd: "good phy backlog J n (mod_dll (\<lambda>c. c\<lparr>dll_timing_errors := x c, dll_t_cycle_violations := y c\<rparr>) s1)"
    "good phy backlog J n (mod_dll (\<lambda>c. c\<lparr>dll_last_cycle_start_us := z\<rparr>) r)"
    if "good phy backlog J n r" for x y z r
    using g that by (auto intro!: good_mod_dll simp: ctx_upd)
  have ev: "good phy backlog J n (mod_dll (dll_events_update (\<lambda>_. q)) r)" if "good phy backlog J n r" "events_wf q" for q r
    using that by (auto intro!: good_mod_dll simp: ctx_upd)
  have "events_wf (dll_events (sk_dll s))" by (rule goodD(5) [OF assms])
  then show ?thesis
    unfolding dll_cycle_timing_def t prod.case Let_def
    using upd g c by (auto intro!: runs_mono [OF dll_trigger_law] upd ev)
qed

lemma frame_complete_good:
  assumes "good phy backlog J n s" and "dll_frame_index (sk_dll s) \<noteq> 0"
  shows "runs (dll_frame_complete plat s) (good phy backlog J n)"
proof -
  have zero: "good phy backlog J n (mod_dll (\<lambda>c. c\<lparr>dll_frame_index := 0\<rparr>) t)" if "good phy backlog J n t" for t
    using that by (rule good_mod_dll) (simp_all add: ctx_upd J_rules)
  show ?thesis
    unfolding dll_frame_complete_def
    using assms(2) dll_crc_ok_runs [OF goodD(1)]
    by (auto intro!: runs_mono [OF cycle_timing_good [OF assms(1)]] runs_mono [OF dll_crc_ok_runs]
        runs_mono [OF dispatch_good] runs_mono [OF reject_good(2)] zero dest: goodD(1))
qed

lemma rx_timing_good:
  assumes "good phy backlog J n s"
  shows "runs (dll_rx_timing now s) (good phy backlog J n)"
proof -
  have c: "good phy backlog J n (mod_dll (\<lambda>c. c\<lparr>dll_timing_errors := x c, dll_t_byte_violations := y c,
      dll_framing_errors := z c\<rparr>) s)" for x y z
    using assms by (rule good_mod_dll) (simp_all add: ctx_upd J_rules)
  have l: "good phy backlog J n (mod_dll (\<lambda>c. c\<lparr>dll_last_byte_us := x\<rparr>) t)"
    "good phy backlog J n (mod_dll (\<lambda>c. c\<lparr>dll_frame_index := 0\<rparr>) t)" if "good phy backlog J n t" for t x
    using that by (auto intro!: good_mod_dll simp: ctx_upd intro: J_drop)
  show ?thesis
    unfolding dll_rx_timing_def dll_byte_violation_def
    using assms by (auto intro!: runs_mono [OF dll_trigger_good] c l)
qed

lemma store_byte_J:
  assumes "dll_wf c" and "J (ctl c)"
  shows "runs (dll_store_byte t b c) (\<lambda>c'. J (ctl c'))"
proof -
  have "dll_frame_index c + 1 \<noteq> 0" if "unat (dll_frame_index c) < 48"
    using that unat_u8_Suc [of "dll_frame_index c"] by force
  moreover have J: "J (dll_state c, dll_baudrate c, dll_frame_index c, dll_req_len c)"
    using assms(2) by (simp add: ctl_def)
  ultimately show ?thesis
    using assms(1) dll_req_len_for_COM1 [of b c] J_open [of "dll_state c" "dll_baudrate c" "dll_req_len c"]
    by (auto simp: dll_store_byte_def dll_wf_def ctl_def intro: J_more J_drop)
qed

lemma rx_byte_good:
  assumes "good phy backlog J n s"
  shows "runs (dll_rx_byte plat b s) (good phy backlog J n)"
proof -
  obtain t s1 where t: "iolink_time_get_us plat s = (t, s1)" by fastforce
  obtain m s2 where m: "iolink_time_get_ms plat s1 = (m, s2)" by fastforce
  note g = time_ms_good [OF time_us_good [OF assms t] m]
  have act: "good phy backlog J n (mod_dll (\<lambda>c. c\<lparr>dll_last_activity_ms := m\<rparr>) s2)"
    using g by (rule good_mod_dll) (simp_all add: ctx_upd J_rules)
  have st: "runs (dll_store_byte t b (sk_dll r)) (\<lambda>c. good phy backlog J n (r\<lparr>sk_dll := c\<rparr>))"
    if "good phy backlog J n r" for r
    by (rule runs_mono [OF runs_conj [OF dll_store_byte_wf [OF goodD(1) [OF that]] store_byte_J]])
       (use that in \<open>auto simp: good_def stack_wf_def\<close>)
  show ?thesis
    unfolding dll_rx_byte_def t m prod.case Let_def
    by (auto intro!: runs_mono [OF rx_timing_good [OF act]] runs_mono [OF st] frame_complete_good)
qed

lemma rx_loop_good:
  assumes "good phy backlog J n s"
  shows "runs (dll_rx_loop plat b s) (good phy backlog J n)"
  using assms
proof (induction n arbitrary: b s rule: less_induct)
  case (less n)
  note phy = goodD(3) [OF less.prems]
  show ?case
  proof (cases "phy_recv_byte phy")
    case NULL
    then show ?thesis
      using less.prems by (subst dll_rx_loop.simps) (simp add: phy)
  next
    case (Ref recv)
    obtain k b' w where r: "recv b (world s) = (k, b', w)" by (metis prod_cases3)
    show ?thesis
    proof (cases "k > 0")
      case True
      then have lt: "backlog w < backlog (world s)" using recv_drains [OF Ref r] by simp
      let ?m = "backlog w"
      have "?m < n" using lt goodD(4) [OF less.prems] by simp
      have "good phy backlog J ?m (set_world w s)"
        using less.prems by (simp add: good_def stack_wf_def)
      note step = rx_byte_good [OF this, of b']
      have up: "good phy backlog J n t" if "good phy backlog J ?m t" for t
        using that \<open>?m < n\<close> by (simp add: good_def)
      show ?thesis
        by (subst dll_rx_loop.simps)
           (use True in \<open>auto simp: phy Ref r intro!: runs_mono [OF step] runs_mono [OF less.IH [OF \<open>?m < n\<close>]] up\<close>)
    next
      case False
      have "backlog w \<le> n"
        using recv_backlog [OF Ref r] goodD(4) [OF less.prems] by simp
      then show ?thesis
        using less.prems False by (subst dll_rx_loop.simps) (simp add: phy Ref r good_def stack_wf_def)
    qed
  qed
qed

lemma drain_rx_loop_ends:
  assumes "phy_recv_byte phy = Ref recv"
  shows "runs (drain_rx_loop recv b saw w) (\<lambda>_. True)"
proof (induction "backlog w" arbitrary: b saw w rule: less_induct)
  case less
  obtain k b' w' where r: "recv b w = (k, b', w')" by (metis prod_cases3)
  then show ?case
    using less.hyps [of w' b' True] recv_drains [OF assms r]
    by (subst drain_rx_loop.simps) simp
qed

text \<open>The phases of the process function, from the invariant without a bound on the backlog.\<close>

lemma live_good: "live phy J s \<Longrightarrow> good phy backlog J (backlog (world s)) s"
  by (simp add: live_def good_def)

lemma isdu_process_live:
  assumes "live phy J s"
  shows "runs (dll_isdu_process plat s) (live phy J)"
proof -
  have wf: "sys_wf (isdu_view s)"
    using assms by (simp add: live_def stack_wf_def ctx_upd isdu_view_def sys_wf_def)
  show ?thesis
    unfolding dll_isdu_process_def
    using assms
    by (auto intro!: runs_mono [OF iolink_isdu_process_wf [OF wf]]
        simp: live_def stack_wf_def ctx_upd sys_wf_def)
qed

lemma poll_live:
  assumes "live phy J s"
  shows "runs (dll_poll_diagnostics s) (live phy J)"
proof -
  have w: "live phy J (set_world w t)" if "live phy J t" for w t using that by (simp add: live_def stack_wf_def)
  have c: "live phy J (mod_dll (\<lambda>c. c\<lparr>dll_voltage_faults := x c\<rparr>) t)"
     "live phy J (mod_dll (\<lambda>c. c\<lparr>dll_short_circuits := x c\<rparr>) t)" if "live phy J t" for x t
    using that by (auto simp: live_def stack_wf_def ctx_upd)
  have v: "runs (dll_poll_voltage phy t) (live phy J)" "runs (dll_poll_short phy t) (live phy J)" if "live phy J t" for t
    using that unfolding dll_poll_voltage_def dll_poll_short_def
    by (auto split: ptr.splits prod.splits intro!: dll_trigger_live w c)
  show ?thesis
    unfolding dll_poll_diagnostics_def
    using assms by (auto simp: live_def [of phy J s] intro!: runs_mono [OF v(1)] v(2) split: ptr.splits)
qed

lemma good_live: "good phy backlog J n s \<Longrightarrow> live phy J s"
  by (simp add: live_def good_def)

lemma inactivity_live:
  assumes "live phy J s"
  shows "runs (dll_inactivity plat s) (live phy J)"
proof -
  obtain t s1 where t: "iolink_time_get_ms plat s = (t, s1)" by fastforce
  define n where "n = backlog (world s)"
  have g: "good phy backlog J n s1"
    using time_ms_good [OF live_good [OF assms] t] by (simp add: n_def)
  have reset: "good phy backlog J n (mod_dll (\<lambda>c. c\<lparr>dll_last_activity_ms := 0\<rparr>) s1)"
    using g by (rule good_mod_dll) (simp_all add: ctx_upd J_rules)
  have st: "good phy backlog J n (mod_dll (\<lambda>c. c\<lparr>dll_state := IOLINK_DLL_STATE_STARTUP, dll_frame_index := 0\<rparr>) r)" if "good phy backlog J n r" for r
    using that by (rule good_mod_dll) (simp_all add: ctx_upd J_rules)
  have "runs (dll_inactivity plat s) (good phy backlog J n)"
    unfolding dll_inactivity_def t prod.case Let_def
    using g reset
    by (auto intro!: runs_mono [OF set_baudrate_good] runs_mono [OF set_sio_mode_good] st)
  then show ?thesis by (auto elim: runs_mono intro: good_live)
qed

lemma t_pd_phase_live:
  assumes "live phy J s"
  shows "runs (dll_t_pd_phase s) (live phy J)"
proof -
  have w: "live phy J (set_world w s)" for w using assms by (simp add: live_def stack_wf_def)
  have drain: "runs (dll_drain_rx s) (\<lambda>(saw, s'). live phy J s')"
    using assms w unfolding dll_drain_rx_def
    by (auto simp: live_def [of phy J s] split: ptr.splits intro!: runs_mono [OF drain_rx_loop_ends])
  have c: "live phy J (mod_dll (\<lambda>c. c\<lparr>dll_timing_errors := x c, dll_t_pd_violations := y c\<rparr>) t)" if "live phy J t" for x y t
    using that by (auto simp: live_def stack_wf_def ctx_upd)
  show ?thesis
    unfolding dll_t_pd_phase_def
    by (auto intro!: runs_mono [OF drain] dll_trigger_live c)
qed

lemma sio_phase_live:
  assumes "live phy J s"
  shows "runs (dll_sio_phase plat s) (live phy J)"
proof -
  have w: "live phy J (set_world w t)" if "live phy J t" for w t using that by (simp add: live_def stack_wf_def)
  have c: "live phy J (mod_dll (\<lambda>c. c\<lparr>dll_wakeup_seen := True, dll_state := IOLINK_DLL_STATE_AWAITING_COMM\<rparr>) t)"
    if "live phy J t" "dll_frame_index (sk_dll t) = 0" for t
    using that by (auto simp: live_def stack_wf_def ctx_upd intro: J_wakeup)
  have d: "live phy J (mod_dll (\<lambda>c. c\<lparr>dll_wakeup_deadline_us := y\<rparr>) t)" if "live phy J t" for y t
    using that by (auto simp: live_def stack_wf_def ctx_upd)
  have tm: "live phy J t'" if "live phy J t" "iolink_time_get_us plat t = (x, t')" for t t' x
    using time_us_good [OF live_good [OF that(1)] that(2)] by (rule good_live)
  have sdci: "runs (iolink_dll_set_sdci_mode t) (live phy J)" if "live phy J t" for t
    by (rule runs_mono [OF set_sdci_mode_good [OF live_good [OF that]]]) (rule good_live)
  have phy: "the_phy s = Some phy" using assms by (simp add: live_def the_phy_def)
  show ?thesis
    unfolding dll_sio_phase_def Let_def
    using assms
    by (auto simp: phy split: ptr.splits prod.splits intro!: w c d sdci dest: tm [rotated])
qed

lemma communicate_live:
  assumes "live phy J s"
  shows "runs (dll_communicate plat s) (live phy J)"
proof -
  define n where "n = backlog (world s)"
  note g = live_good [OF assms, folded n_def]
  have viol: "runs (dll_byte_violation t) (good phy backlog J n)" if "good phy backlog J n t" for t
  proof -
    have "good phy backlog J n (mod_dll (\<lambda>c. c\<lparr>dll_timing_errors := x c, dll_t_byte_violations := y c,
      dll_framing_errors := z c\<rparr>) t)" for x y z
      using that by (rule good_mod_dll) (simp_all add: ctx_upd J_rules)
    moreover have "good phy backlog J n (mod_dll (\<lambda>c. c\<lparr>dll_frame_index := 0\<rparr>) r)" if "good phy backlog J n r" for r
      using that by (rule good_mod_dll) (simp_all add: ctx_upd J_rules)
    ultimately show ?thesis
      unfolding dll_byte_violation_def by (auto intro!: runs_mono [OF dll_trigger_good])
  qed
  have bt: "runs (dll_byte_timeout plat s) (good phy backlog J n)"
    unfolding dll_byte_timeout_def
    using g by (auto split: prod.splits dest: time_us_good intro!: runs_mono [OF viol] enter_fallback_good)
  have wait: "good phy backlog J n t'" if "dll_wakeup_wait plat t = (x, t')" "good phy backlog J n t" for t t' x
    using that by (auto simp: dll_wakeup_wait_def Let_def split: if_splits prod.splits dest: time_us_good)
  have "runs (dll_communicate plat s) (good phy backlog J n)"
    unfolding dll_communicate_def
    by (auto intro!: runs_mono [OF bt] rx_loop_good split: prod.splits dest: wait)
  then show ?thesis by (auto elim: runs_mono intro: good_live)
qed

lemma dll_process_live:
  assumes "live phy J s"
  shows "runs (iolink_dll_process plat s) (live phy J)"
proof -
  have tp: "live phy J t'" if "dll_t_pd_active plat t = (x, t')" "live phy J t" for t t' x
    using that(1) live_good [OF that(2)]
    by (auto simp: dll_t_pd_active_def split: if_splits prod.splits dest: time_us_good intro: good_live)
  show ?thesis
    unfolding iolink_dll_process_def
    using assms
    by (auto simp: live_def [of phy J s] intro!: runs_mono [OF isdu_process_live] runs_mono [OF poll_live]
        runs_mono [OF inactivity_live] t_pd_phase_live sio_phase_live communicate_live
        split: prod.splits dest: tp)
qed

end

section \<open>Invariants of the control part\<close>

sublocale link_env \<subseteq> always: link_inv plat phy backlog "\<lambda>_. True"
  by unfold_locales simp_all

text \<open>At COM1, not operating, and every open frame has two bytes.\<close>

definition com1_only :: "control \<Rightarrow> bool" where
  "com1_only k \<longleftrightarrow> (case k of (st, b, i, r) \<Rightarrow>
     b = IOLINK_BAUDRATE_COM1 \<and> st \<noteq> IOLINK_DLL_STATE_OPERATE \<and> (i \<noteq> 0 \<longrightarrow> r = 2))"

sublocale link_env \<subseteq> com1: link_inv plat phy backlog com1_only
  by unfold_locales (auto simp: com1_only_def)

definition no_fallback_state :: "control \<Rightarrow> bool" where
  "no_fallback_state k \<longleftrightarrow> fst k \<noteq> IOLINK_DLL_STATE_FALLBACK"

sublocale link_env \<subseteq> nofb: link_inv plat phy backlog no_fallback_state
  by unfold_locales (auto simp: no_fallback_state_def)

text \<open>No faster than \<open>b0\<close>.\<close>

definition at_most :: "iolink_baudrate \<Rightarrow> control \<Rightarrow> bool" where
  "at_most b0 k \<longleftrightarrow> fst (snd k) \<le> b0"

sublocale link_env \<subseteq> slow: link_inv plat phy backlog "at_most b0" for b0
  by unfold_locales (auto simp: at_most_def)

context link_env
begin

lemmas always_inv = always.link_inv_axioms

end

end
