(* ===== verification/Dll_Behaviour.thy ===== *)
theory Dll_Behaviour
  imports Dll_Safety
begin

text \<open>
  What the data link layer does: the effect of each step on the context and the line, the
  abstract IO-Link state machine and its refinement, the cyclic exchange, the handling of bad
  frames and the fallback rule.
\<close>

section \<open>What each step changes\<close>

text \<open>The part of the context that carries data: process data, the ISDU engine, Data Storage.\<close>

definition dll_data :: "'w iolink_dll_ctx \<Rightarrow> bytes \<times> bytes \<times> bool \<times> bool \<times> iolink_isdu_ctx \<times> iolink_ds_ctx" where
  "dll_data c = (dll_pd_in c, dll_pd_out c, dll_pd_valid c, dll_pd_in_toggle c, dll_isdu c, dll_ds c)"

definition baud_ctx :: "iolink_baudrate \<Rightarrow> 'w iolink_dll_ctx \<Rightarrow> 'w iolink_dll_ctx" where
  "baud_ctx b c =
     c\<lparr>dll_baudrate := b, dll_t_ren_limit_us := dll_get_t_ren_limit_us (c\<lparr>dll_baudrate := b\<rparr>),
       dll_t_byte_limit_us := dll_get_t_byte_limit_us (c\<lparr>dll_baudrate := b\<rparr>)\<rparr>"

lemma set_baudrate_law:
  assumes "the_phy s = Some p"
  shows "runs (iolink_dll_set_baudrate b s) (\<lambda>s'. sk_dll s' = baud_ctx b (sk_dll s) \<and> the_phy s' = Some p)"
proof -
  have "dll_get_t_byte_limit_us (c\<lparr>dll_t_ren_limit_us := x\<rparr>) = dll_get_t_byte_limit_us c" for c :: "'a iolink_dll_ctx" and x
    by (simp add: dll_get_t_byte_limit_us_def)
  with assms show ?thesis
    by (cases "phy_set_baudrate p")
       (simp_all add: iolink_dll_set_baudrate_def Let_def baud_ctx_def, simp_all add: the_phy_def)
qed

lemma set_sio_law:
  assumes "the_phy s = Some p"
  shows "runs (iolink_dll_set_sio_mode s) (\<lambda>s'. sk_dll s' = (sk_dll s)\<lparr>dll_phy_mode := IOLINK_PHY_MODE_SIO\<rparr> \<and>
     the_phy s' = Some p)"
  using assms by (auto simp: iolink_dll_set_sio_mode_def dll_set_mode_def the_phy_def Let_def split: ptr.splits)

text \<open>The context after an error, below the threshold and at it.\<close>

definition fallback_ctx :: "'w iolink_dll_ctx \<Rightarrow> 'w iolink_dll_ctx \<Rightarrow> bool" where
  "fallback_ctx c c' \<longleftrightarrow>
     dll_data c' = dll_data c \<and> dll_total_retries c' = dll_total_retries c + 1 \<and>
     dll_crc_errors c' = dll_crc_errors c \<and> dll_framing_errors c' = dll_framing_errors c \<and>
     (if dll_fallback_count c + 1 \<ge> dll_sio_fallback_threshold c then
        dll_phy_mode c' = IOLINK_PHY_MODE_SIO \<and> dll_baudrate c' = IOLINK_BAUDRATE_COM1 \<and>
        dll_state c' = IOLINK_DLL_STATE_STARTUP \<and> dll_fallback_count c' = 0 \<and> dll_frame_index c' = 0 \<and>
        events_list (dll_events c') = push_drop IOLINK_EVENT_QUEUE_SIZE (events_list (dll_events c))
          \<lparr>ev_code = IOLINK_EVENT_CODE_COMM_ERR_FRAMING, ev_type = IOLINK_EVENT_TYPE_WARNING\<rparr>
      else
        dll_phy_mode c' = dll_phy_mode c \<and> dll_fallback_count c' = dll_fallback_count c + 1 \<and>
        dll_events c' = dll_events c \<and>
        (if dll_state c = IOLINK_DLL_STATE_OPERATE \<or> dll_state c = IOLINK_DLL_STATE_ESTAB_COM
         then dll_state c' = dll_state c \<and> dll_baudrate c' = dll_baudrate c
         else dll_state c' = IOLINK_DLL_STATE_STARTUP \<and> dll_baudrate c' = IOLINK_BAUDRATE_COM1))"

lemma enter_fallback_law:
  assumes "events_wf (dll_events (sk_dll s))" and "the_phy s = Some p"
  shows "runs (dll_enter_fallback s) (\<lambda>s'. fallback_ctx (sk_dll s) (sk_dll s'))"
proof -
  let ?s = "mod_dll (\<lambda>c. c\<lparr>dll_fallback_count := dll_fallback_count c + 1,
                             dll_total_retries := dll_total_retries c + 1\<rparr>) s"
  have phy: "the_phy ?s = Some p" using assms(2) by (simp add: the_phy_def split: ptr.splits)
  show ?thesis
    unfolding dll_enter_fallback_def Let_def
    using phy assms(1)
    by (auto simp: fallback_ctx_def dll_data_def baud_ctx_def intro!: runs_mono [OF set_sio_law] runs_mono [OF set_baudrate_law]
        runs_mono [OF dll_trigger_law])
qed

text \<open>Reading the clock changes nothing but the outside state.\<close>

lemma time_get_us_ctx: "iolink_time_get_us plat s = (t, s') \<Longrightarrow> sk_dll s' = sk_dll s \<and> the_phy s' = the_phy s"
  by (auto simp: iolink_time_get_us_def the_phy_def split: prod.splits)

definition timing_only :: "'w iolink_dll_ctx \<Rightarrow> 'w iolink_dll_ctx \<Rightarrow> bool" where
  "timing_only c c' \<longleftrightarrow>
     c' = c\<lparr>dll_timing_errors := dll_timing_errors c', dll_t_cycle_violations := dll_t_cycle_violations c',
            dll_last_cycle_start_us := dll_last_cycle_start_us c', dll_events := dll_events c'\<rparr> \<and>
     events_wf (dll_events c')"

lemma timing_onlyE:
  assumes "timing_only c c'"
  obtains a b x q where
    "c' = c\<lparr>dll_timing_errors := a, dll_t_cycle_violations := b, dll_last_cycle_start_us := x, dll_events := q\<rparr>"
    and "events_wf q"
  using assms unfolding timing_only_def by blast

lemma cycle_timing_law:
  assumes "events_wf (dll_events (sk_dll s))"
  shows "runs (dll_cycle_timing plat s) (\<lambda>s'. timing_only (sk_dll s) (sk_dll s') \<and> the_phy s' = the_phy s)"
proof -
  obtain t s1 where t: "iolink_time_get_us plat s = (t, s1)" by fastforce
  note c = time_get_us_ctx [OF t]
  have phy: "the_phy (mod_dll f r) = the_phy r" if "dll_phy (f (sk_dll r)) = dll_phy (sk_dll r)" for f r
    using that by (simp add: the_phy_def)
  show ?thesis
    unfolding dll_cycle_timing_def t prod.case Let_def
    using c assms by (auto simp: timing_only_def phy intro!: runs_mono [OF dll_trigger_law])
qed

text \<open>A frame whose checksum fits: two bytes protect the first one, longer frames all but the last.\<close>

definition frame_valid :: "bytes \<Rightarrow> bool" where
  "frame_valid f \<longleftrightarrow>
     (if length f = 2 then crc6 [f ! 0, 0] = f ! 1 else crc6 (take (length f - 1) f) = f ! (length f - 1))"

definition received_frame :: "'w iolink_dll_ctx \<Rightarrow> bytes" where
  "received_frame c = take (unat (dll_req_len c)) (dll_frame_buf c)"

lemma dll_crc_ok_eq:
  assumes "dll_wf c" and "dll_frame_index c \<noteq> 0"
  shows "dll_crc_ok c = Some (frame_valid (received_frame c))"
proof -
  have len: "length (dll_frame_buf c) = 48" "2 \<le> unat (dll_req_len c)" "unat (dll_req_len c) \<le> 37"
    using assms by (auto simp: dll_wf_def)
  then have pred: "unat (dll_req_len c - 1) = unat (dll_req_len c) - 1" by (simp add: unat_u8_pred)
  have two: "dll_req_len c = 2 \<longleftrightarrow> unat (dll_req_len c) = 2"
    by (simp add: word_unat_eq_iff)
  show ?thesis
    using len pred two
    by (auto simp: dll_crc_ok_def iolink_checksum_ck_eq iolink_crc6_eq frame_valid_def received_frame_def min_def)
qed

lemma frame_complete_after_timing:
  assumes "events_wf (dll_events (sk_dll s))"
    and "\<And>s1. timing_only (sk_dll s) (sk_dll s1) \<Longrightarrow> the_phy s1 = the_phy s \<Longrightarrow>
       runs (do { crc_ok \<leftarrow> dll_crc_ok (sk_dll s1); s \<leftarrow> (if crc_ok then dll_dispatch plat s1 else dll_bad_crc s1);
                  Some (mod_dll (\<lambda>c. c\<lparr>dll_frame_index := 0\<rparr>) s) }) Q"
  shows "runs (dll_frame_complete plat s) Q"
  unfolding dll_frame_complete_def runs_bind [of "dll_cycle_timing plat s"]
  by (rule runs_mono [OF cycle_timing_law [OF assms(1)]]) (use assms(2) in blast)

lemma timing_only_wf:
  assumes "timing_only c c'" and "dll_wf c" and "dll_frame_index c \<noteq> 0"
  shows "dll_wf c'" "dll_crc_ok c' = Some (frame_valid (received_frame c))" "events_wf (dll_events c')"
proof -
  from assms(1) obtain a b x q where c': "c' = c\<lparr>dll_timing_errors := a, dll_t_cycle_violations := b,
      dll_last_cycle_start_us := x, dll_events := q\<rparr>" and "events_wf q"
    by (rule timing_onlyE)
  with assms(2) show "dll_wf c'" "events_wf (dll_events c')" by (simp_all add: dll_wf_def)
  with assms(3) show "dll_crc_ok c' = Some (frame_valid (received_frame c))"
    by (subst dll_crc_ok_eq) (simp_all add: c' received_frame_def)
qed

lemma bad_frame_law:
  assumes "dll_wf (sk_dll s)" and "dll_frame_index (sk_dll s) \<noteq> 0" and "the_phy s = Some p"
    and "\<not> frame_valid (received_frame (sk_dll s))"
  shows "runs (dll_frame_complete plat s) (\<lambda>s'. dll_data (sk_dll s') = dll_data (sk_dll s) \<and>
     dll_crc_errors (sk_dll s') = dll_crc_errors (sk_dll s) + 1 \<and>
     dll_framing_errors (sk_dll s') = dll_framing_errors (sk_dll s) + 1 \<and>
     dll_frame_index (sk_dll s') = 0 \<and>
     (dll_fallback_count (sk_dll s) + 1 \<ge> dll_sio_fallback_threshold (sk_dll s) \<longrightarrow>
        dll_phy_mode (sk_dll s') = IOLINK_PHY_MODE_SIO \<and> dll_state (sk_dll s') = IOLINK_DLL_STATE_STARTUP))"
proof (rule frame_complete_after_timing)
  show "events_wf (dll_events (sk_dll s))" using assms(1) by (simp add: dll_wf_def)
next
  fix s1 assume t: "timing_only (sk_dll s) (sk_dll s1)" and p: "the_phy s1 = the_phy s"
  let ?s = "mod_dll (\<lambda>c. c\<lparr>dll_crc_errors := dll_crc_errors c + 1, dll_framing_errors := dll_framing_errors c + 1\<rparr>) s1"
  have phy: "the_phy ?s = Some p" using p assms(3) by (simp add: the_phy_def)
  have ev: "events_wf (dll_events (sk_dll ?s))" using timing_only_wf(3) [OF t assms(1,2)] by simp
  from t obtain a b x q where c: "sk_dll s1 = (sk_dll s)\<lparr>dll_timing_errors := a, dll_t_cycle_violations := b,
      dll_last_cycle_start_us := x, dll_events := q\<rparr>"
    by (rule timing_onlyE)
  show "runs (do { crc_ok \<leftarrow> dll_crc_ok (sk_dll s1); s \<leftarrow> (if crc_ok then dll_dispatch plat s1 else dll_bad_crc s1);
                  Some (mod_dll (\<lambda>c. c\<lparr>dll_frame_index := 0\<rparr>) s) }) (\<lambda>s'. dll_data (sk_dll s') = dll_data (sk_dll s) \<and>
     dll_crc_errors (sk_dll s') = dll_crc_errors (sk_dll s) + 1 \<and>
     dll_framing_errors (sk_dll s') = dll_framing_errors (sk_dll s) + 1 \<and>
     dll_frame_index (sk_dll s') = 0 \<and>
     (dll_fallback_count (sk_dll s) + 1 \<ge> dll_sio_fallback_threshold (sk_dll s) \<longrightarrow>
        dll_phy_mode (sk_dll s') = IOLINK_PHY_MODE_SIO \<and> dll_state (sk_dll s') = IOLINK_DLL_STATE_STARTUP))"
    unfolding dll_bad_crc_def timing_only_wf(2) [OF t assms(1,2)]
    using assms(4)
    by (auto intro!: runs_mono [OF enter_fallback_law [OF ev phy]] simp: fallback_ctx_def dll_data_def c)
qed

section \<open>The state machine of received frames\<close>

text \<open>
  The state after a complete frame, as a function of the context before it: the abstract state
  machine the frame handlers implement.
\<close>

definition error_state :: "'w iolink_dll_ctx \<Rightarrow> iolink_dll_state" where
  "error_state c =
     (if dll_fallback_count c + 1 \<ge> dll_sio_fallback_threshold c \<or>
         dll_state c \<noteq> IOLINK_DLL_STATE_OPERATE \<and> dll_state c \<noteq> IOLINK_DLL_STATE_ESTAB_COM
      then IOLINK_DLL_STATE_STARTUP else dll_state c)"

definition next_state :: "'w iolink_dll_ctx \<Rightarrow> iolink_dll_state" where
  "next_state c =
     (let mc = received_frame c ! 0 in
      if \<not> frame_valid (received_frame c) then error_state c
      else case dll_state c of
        IOLINK_DLL_STATE_ESTAB_COM \<Rightarrow>
          (if dll_req_len c > 2 then (if forbidden_channel mc then error_state c else IOLINK_DLL_STATE_OPERATE)
           else IOLINK_DLL_STATE_ESTAB_COM)
      | IOLINK_DLL_STATE_OPERATE \<Rightarrow>
          (if mc = IOLINK_MC_TRANSITION_COMMAND \<or> forbidden_channel mc then error_state c
           else IOLINK_DLL_STATE_OPERATE)
      | IOLINK_DLL_STATE_FALLBACK \<Rightarrow> IOLINK_DLL_STATE_FALLBACK
      | _ \<Rightarrow> (if dll_req_len c = 2 \<and> mc = IOLINK_MC_TRANSITION_COMMAND then IOLINK_DLL_STATE_ESTAB_COM
              else IOLINK_DLL_STATE_PREOPERATE))"

lemma send_law:
  "the_phy s = Some p \<Longrightarrow> runs (dll_send d s) (\<lambda>s'. sk_dll s' = sk_dll s)"
  by (simp add: dll_send_def split: ptr.splits)

lemma type0_law:
  assumes "isdu_wf (dll_isdu (sk_dll s))" and "the_phy s = Some p"
  shows "runs (dll_handle_operate_type0 mc s) (\<lambda>s'. \<exists>isdu. sk_dll s' = (sk_dll s)\<lparr>dll_isdu := isdu\<rparr>)"
proof -
  have phy: "the_phy (mod_dll (\<lambda>c. c\<lparr>dll_isdu := i\<rparr>) s) = Some p" for i
    using assms(2) by (simp add: the_phy_def)
  show ?thesis
    unfolding dll_handle_operate_type0_def iolink_checksum_ck_eq
    by (auto intro!: runs_mono [OF od_exchange_wf [OF assms(1)]] runs_mono [OF send_law [OF phy]])
qed

text \<open>The binding and configuration of the link, and what transmission leaves alone.\<close>

definition link_setup :: "'w iolink_dll_ctx \<Rightarrow>
    'w iolink_phy_api ptr \<times> iolink_phy_mode \<times> iolink_baudrate \<times> u8 \<times> u8 \<times> u8 \<times> u8 \<times> u8 \<times> bool \<times> u64 \<times> u8" where
  "link_setup c = (dll_phy c, dll_phy_mode c, dll_baudrate c, dll_m_seq_type c, dll_od_len c,
     dll_pd_in_len_current c, dll_pd_out_len_current c, dll_pd_out_len c, dll_enforce_timing c, dll_t_pd_deadline_us c,
     dll_sio_fallback_threshold c)"

definition after_send_ctx :: "'w iolink_dll_ctx \<Rightarrow> 'w iolink_dll_ctx \<Rightarrow> bool" where
  "after_send_ctx c c' \<longleftrightarrow> dll_state c' = dll_state c \<and> dll_data c' = dll_data c \<and>
     link_setup c' = link_setup c \<and> dll_crc_errors c' = dll_crc_errors c \<and> (dll_wf c \<longrightarrow> dll_wf c')"

lemma after_send_law:
  assumes "events_wf (dll_events (sk_dll s))"
  shows "runs (dll_after_send plat s) (\<lambda>s'. after_send_ctx (sk_dll s) (sk_dll s') \<and> dll_fallback_count (sk_dll s') = 0)"
proof -
  obtain t s1 where t: "iolink_time_get_us plat (mod_dll (\<lambda>c. c\<lparr>dll_fallback_count := 0\<rparr>) s) = (t, s1)" by fastforce
  note c = time_get_us_ctx [OF t]
  show ?thesis
    unfolding dll_after_send_def t prod.case Let_def
    using c assms by (auto simp: after_send_ctx_def dll_data_def link_setup_def dll_wf_def intro!: runs_mono [OF dll_trigger_law])
qed

lemma transmit_law:
  assumes "events_wf (dll_events (sk_dll s))" and "the_phy s = Some p"
  shows "runs (dll_transmit plat resp s) (\<lambda>s'. after_send_ctx (sk_dll s) (sk_dll s') \<and>
     (phy_send p \<noteq> NULL \<longrightarrow> dll_fallback_count (sk_dll s') = 0))"
proof -
  have sent: "runs (case phy_send p of NULL \<Rightarrow> Some s
          | Ref f \<Rightarrow> dll_after_send plat (set_world (snd (f resp (world s))) s))
     (\<lambda>s'. after_send_ctx (sk_dll s) (sk_dll s') \<and> (phy_send p \<noteq> NULL \<longrightarrow> dll_fallback_count (sk_dll s') = 0))"
  proof (cases "phy_send p")
    case NULL
    then show ?thesis by (simp add: after_send_ctx_def)
  next
    case (Ref f)
    then show ?thesis
      using after_send_law [of "set_world (snd (f resp (world s))) s" plat] assms(1) by simp
  qed
  show ?thesis
    unfolding dll_transmit_def
    using assms(2)
    by (auto intro!: runs_mono [OF sent] split: prod.splits dest!: time_get_us_ctx
        simp: after_send_ctx_def dll_data_def link_setup_def dll_wf_def)
qed

lemma type1_2_state:
  assumes "dll_wf (sk_dll s)" and "the_phy s = Some p"
  shows "runs (dll_handle_operate_type1_2 plat s) (\<lambda>s'. dll_state (sk_dll s') = dll_state (sk_dll s))"
proof -
  have tr: "runs (dll_transmit plat resp (s\<lparr>sk_dll := c\<rparr>)) (\<lambda>s'. dll_state (sk_dll s') = dll_state (sk_dll s))"
    if "dll_wf c" "dll_phy c = dll_phy (sk_dll s)" "ctl c = ctl (sk_dll s)" for c resp
  proof -
    have "the_phy (s\<lparr>sk_dll := c\<rparr>) = Some p" using assms(2) that(2) by (simp add: the_phy_def)
    then show ?thesis
      using that by (intro runs_mono [OF transmit_law]) (auto simp: after_send_ctx_def dll_wf_def ctl_def)
  qed
  show ?thesis
    unfolding dll_handle_operate_type1_2_def
    by (auto simp: dll_build_response_eq intro!: runs_mono [OF dll_receive_frame_wf [OF assms(1)]] tr)
qed

lemma reject_state:
  assumes "events_wf (dll_events (sk_dll s))" and "the_phy s = Some p"
  shows "runs (dll_reject s) (\<lambda>s'. dll_state (sk_dll s') = error_state (sk_dll s))"
    and "runs (dll_bad_crc s) (\<lambda>s'. dll_state (sk_dll s') = error_state (sk_dll s))"
proof -
  have phy: "the_phy (mod_dll (\<lambda>c. c\<lparr>dll_framing_errors := x c\<rparr>) s) = Some p"
    "the_phy (mod_dll (\<lambda>c. c\<lparr>dll_crc_errors := y c, dll_framing_errors := x c\<rparr>) s) = Some p" for x y
    using assms(2) by (simp_all add: the_phy_def)
  show "runs (dll_reject s) (\<lambda>s'. dll_state (sk_dll s') = error_state (sk_dll s))"
    "runs (dll_bad_crc s) (\<lambda>s'. dll_state (sk_dll s') = error_state (sk_dll s))"
    unfolding dll_reject_def dll_bad_crc_def
    using phy assms(1)
    by (auto intro!: runs_mono [OF enter_fallback_law] simp: fallback_ctx_def error_state_def split: if_splits)
qed

lemma dispatch_state:
  assumes "dll_wf (sk_dll s)" and "the_phy s = Some p" and "frame_valid (received_frame (sk_dll s))"
    and "2 \<le> unat (dll_req_len (sk_dll s))"
  shows "runs (dll_dispatch plat s) (\<lambda>s'. dll_state (sk_dll s') = next_state (sk_dll s))"
proof -
  let ?t = "dll_first_frame s" and ?mc = "received_frame (sk_dll s) ! 0"
  have wf: "dll_wf (sk_dll ?t)" and phy: "the_phy ?t = Some p"
    using assms(1,2) by (auto simp: dll_first_frame_def dll_wf_def the_phy_def)
  have mc: "dll_frame_buf (sk_dll ?t) ! 0 = ?mc" "0 < length (dll_frame_buf (sk_dll ?t))"
    using assms(1,4) by (auto simp: dll_first_frame_def received_frame_def dll_wf_def)
  have op: "dll_wf (sk_dll (mod_dll (\<lambda>c. c\<lparr>dll_state := x\<rparr>) ?t))"
    "the_phy (mod_dll (\<lambda>c. c\<lparr>dll_state := x\<rparr>) ?t) = Some p" for x
    using wf phy by (auto simp: dll_wf_def the_phy_def)
  have ev: "events_wf (dll_events (sk_dll ?t))" "isdu_wf (dll_isdu (sk_dll ?t))" using wf by (simp_all add: dll_wf_def)
  note laws = runs_mono [OF type0_law [OF ev(2) phy]] runs_mono [OF type1_2_state [OF wf phy]]
    runs_mono [OF type1_2_state [OF op]] runs_mono [OF reject_state(1) [OF ev(1) phy]]
  have st: "dll_state (sk_dll ?t) = (if dll_state (sk_dll s) = IOLINK_DLL_STATE_AWAITING_COMM \<or>
      dll_state (sk_dll s) = IOLINK_DLL_STATE_STARTUP then IOLINK_DLL_STATE_PREOPERATE else dll_state (sk_dll s))"
    and rl: "dll_req_len (sk_dll ?t) = dll_req_len (sk_dll s)"
    and er: "dll_state (sk_dll s) = IOLINK_DLL_STATE_OPERATE \<or> dll_state (sk_dll s) = IOLINK_DLL_STATE_ESTAB_COM \<Longrightarrow>
      error_state (sk_dll ?t) = error_state (sk_dll s)"
    by (auto simp: dll_first_frame_def)
  have pre: "dll_state (sk_dll (dll_handle_preoperate x ?t)) =
      (if x = IOLINK_MC_TRANSITION_COMMAND then IOLINK_DLL_STATE_ESTAB_COM else dll_state (sk_dll ?t))" for x
    by (simp add: dll_handle_preoperate_def)
  show ?thesis
    unfolding dll_dispatch_def Let_def dll_dispatch_preoperate_def dll_dispatch_estab_com_def dll_dispatch_operate_def
    using mc assms(3)
    by (cases "dll_state (sk_dll s)") (auto simp: next_state_def Let_def st rl er pre intro!: laws)
qed

lemma frame_complete_state:
  assumes "dll_wf (sk_dll s)" and "dll_frame_index (sk_dll s) \<noteq> 0" and "the_phy s = Some p"
  shows "runs (dll_frame_complete plat s) (\<lambda>s'. dll_state (sk_dll s') = next_state (sk_dll s))"
proof (rule frame_complete_after_timing)
  show "events_wf (dll_events (sk_dll s))" using assms(1) by (simp add: dll_wf_def)
next
  fix s1 assume t: "timing_only (sk_dll s) (sk_dll s1)" and p: "the_phy s1 = the_phy s"
  note wf = timing_only_wf [OF t assms(1,2)]
  from t obtain a b x q where c: "sk_dll s1 = (sk_dll s)\<lparr>dll_timing_errors := a, dll_t_cycle_violations := b,
      dll_last_cycle_start_us := x, dll_events := q\<rparr>"
    by (rule timing_onlyE)
  have same: "received_frame (sk_dll s1) = received_frame (sk_dll s)" "error_state (sk_dll s1) = error_state (sk_dll s)"
    "next_state (sk_dll s1) = next_state (sk_dll s)" "dll_req_len (sk_dll s1) = dll_req_len (sk_dll s)"
    by (cases "dll_state (sk_dll s)"; simp add: c received_frame_def error_state_def next_state_def Let_def)+
  have req: "2 \<le> unat (dll_req_len (sk_dll s))" using assms(1,2) by (simp add: dll_wf_def)
  have err: "next_state (sk_dll s) = error_state (sk_dll s)" if "\<not> frame_valid (received_frame (sk_dll s))"
    using that by (simp add: next_state_def)
  have p1: "the_phy s1 = Some p" using p assms(3) by simp
  show "runs (do { crc_ok \<leftarrow> dll_crc_ok (sk_dll s1); s \<leftarrow> (if crc_ok then dll_dispatch plat s1 else dll_bad_crc s1);
                  Some (mod_dll (\<lambda>c. c\<lparr>dll_frame_index := 0\<rparr>) s) }) (\<lambda>s'. dll_state (sk_dll s') = next_state (sk_dll s))"
    unfolding wf(2)
    using same req err
    by (auto intro!: runs_mono [OF dispatch_state [OF wf(1) p1]] runs_mono [OF reject_state(2) [OF wf(3) p1]])
qed

section \<open>Corrupted frames\<close>

lemma frame_valid_corrupted:
  assumes "frame_valid f" and "2 \<le> length f" and "i < length f" and "e \<noteq> 0"
  shows "frame_valid (f[i := f ! i XOR e]) \<longleftrightarrow> i < length f - 1 \<and> e \<in> crc6_blind"
proof -
  let ?n = "length f - 1"
  have x: "x XOR e \<noteq> x" for x using assms(4) by (simp add: xor_eq_self_iff)
  show ?thesis
  proof (cases "length f = 2")
    case True
    then have "i = 0 \<or> i = 1" using assms(3) by auto
    moreover have "crc6 [f ! 0 XOR e, 0] = crc6 [f ! 0, 0] \<longleftrightarrow> e \<in> crc6_blind"
      using crc6_one_byte [of 0 "[f ! 0, 0]" e] by simp
    ultimately show ?thesis
      using assms(1) True x [of "f ! 1"] by (auto simp: frame_valid_def)
  next
    case False
    show ?thesis
    proof (cases "i < ?n")
      case True
      then show ?thesis
        using False assms(1) crc6_one_byte [of i "take ?n f" e] by (auto simp: frame_valid_def take_update_swap)
    next
      case 2: False
      then have "i = ?n" using assms(2,3) by simp
      then show ?thesis
        using False assms(1,3) x [of "f ! ?n"] by (auto simp: frame_valid_def)
    qed
  qed
qed

section \<open>A cycle on the virtual PHY\<close>

lemma linux_time_line_out:
  "line_out (snd (linux_time_get_ms w)) = line_out w" "line_out (snd (linux_time_get_us w)) = line_out w"
  "link_up (snd (linux_time_get_ms w)) = link_up w" "link_up (snd (linux_time_get_us w)) = link_up w"
  for w :: host_world
proof -
  have c: "line_out (snd (clock_gettime w)) = line_out w" "link_up (snd (clock_gettime w)) = link_up w"
    by (simp_all add: clock_gettime_def split: list.splits)
  then show "line_out (snd (linux_time_get_ms w)) = line_out w" "line_out (snd (linux_time_get_us w)) = line_out w"
    "link_up (snd (linux_time_get_ms w)) = link_up w" "link_up (snd (linux_time_get_us w)) = link_up w"
    by (auto simp: linux_time_get_ms_def linux_time_get_us_def split: prod.splits)
qed

text \<open>The line as the driver sees it: bytes waiting, bytes written, and whether it works.\<close>

definition line_state :: "host_world stack \<Rightarrow> bytes \<times> bytes \<times> bool" where
  "line_state s = (line_in (world s), line_out (world s), link_up (world s))"

lemma line_state_simps [simp]:
  "line_state (mod_dll f s) = line_state s" "line_state (s\<lparr>sk_dll := c\<rparr>) = line_state s"
  by (simp_all add: line_state_def)

lemma linux_time_stack:
  fixes s :: "host_world stack"
  shows "iolink_time_get_us linux_platform s = (t, s') \<Longrightarrow> line_state s' = line_state s"
    and "iolink_time_get_ms linux_platform s = (m, s') \<Longrightarrow> line_state s' = line_state s"
  by (auto simp: iolink_time_get_us_def iolink_time_get_ms_def linux_platform_def line_state_def linux_time_line_out split_def)

lemma virtual_transmit:
  assumes "events_wf (dll_events (sk_dll s))" and "the_phy s = Some iolink_phy_virtual_get"
    and "link_up (world s)" and "resp \<noteq> []"
  shows "runs (dll_transmit linux_platform resp s) (\<lambda>s'.
     line_state s' = (line_in (world s), line_out (world s) @ resp, link_up (world s)))"
proof -
  let ?s = "set_world (snd (virtual_send resp (world s))) s"
  have sent: "line_state ?s = (line_in (world s), line_out (world s) @ resp, link_up (world s))"
    using assms(3,4) by (simp add: virtual_send_up line_state_def)
  have after: "runs (dll_after_send linux_platform ?s) (\<lambda>s'. line_state s' = line_state ?s)"
  proof -
    obtain t s1 where t: "iolink_time_get_us linux_platform (mod_dll (\<lambda>c. c\<lparr>dll_fallback_count := 0\<rparr>) ?s) = (t, s1)" by fastforce
    note c = time_get_us_ctx [OF t] linux_time_stack(1) [OF t]
    show ?thesis
      unfolding dll_after_send_def t prod.case Let_def
      using c assms(1) by (auto intro!: runs_mono [OF dll_trigger_law])
  qed
  have phy: "phy_send iolink_phy_virtual_get = Ref virtual_send" by (simp add: iolink_phy_virtual_get_def)
  show ?thesis
    unfolding dll_transmit_def assms(2)
    using sent by (auto simp: phy intro!: runs_mono [OF after] split: prod.splits dest!: linux_time_stack(1))
qed

text \<open>The on-request bytes of the frame in the buffer, as the handler copies them.\<close>

definition frame_od :: "'w iolink_dll_ctx \<Rightarrow> bytes" where
  "frame_od c = take (unat (dll_od_len c)) (drop (2 + unat (dll_pd_out_len_current c)) (dll_frame_buf c))
     @ drop (unat (dll_od_len c)) [0, 0]"

lemma receive_frame_law:
  assumes "dll_wf c"
  shows "runs (dll_receive_frame c) (\<lambda>(od, c'). length od = 2 \<and> dll_wf c' \<and>
     take (unat (dll_pd_out_len_current c)) (dll_pd_out c') = take (unat (dll_pd_out_len_current c)) (drop 2 (dll_frame_buf c)) \<and>
     od_loop (unat (dll_od_len c)) (frame_od c) (dll_isdu c) = Some (od, dll_isdu c') \<and>
     c' = c\<lparr>dll_pd_out := dll_pd_out c', dll_isdu := dll_isdu c'\<rparr>)"
proof -
  have len: "unat (dll_od_len c) \<le> 2" "0 < unat (dll_od_len c)" "unat (dll_pd_out_len_current c) \<le> 32"
    "length (dll_frame_buf c) = 48" "length (dll_pd_out c) = 32" "isdu_wf (dll_isdu c)"
    using assms by (auto simp: dll_wf_def)
  have od_len: "length (frame_od c) = 2" using len by (simp add: frame_od_def)
  obtain od isdu where loop: "od_loop (unat (dll_od_len c)) (frame_od c) (dll_isdu c) = Some (od, isdu)"
    and od: "length od = 2" "isdu_wf isdu"
    using od_loop_wf [OF len(6,1) od_len] by (auto elim!: runsE)
  let ?n = "unat (dll_pd_out_len_current c)"
  let ?pd = "take ?n (drop 2 (dll_frame_buf c)) @ drop ?n (dll_pd_out c)"
  have pd: "(if dll_pd_out_len_current c > 0
       then memcpy (dll_pd_out c) 0 (dll_frame_buf c) 2 ?n else Some (dll_pd_out c)) = Some ?pd"
    using len by (auto simp: memcpy_def word_gt_0)
  have oi: "memcpy [0, 0] 0 (dll_frame_buf c) (2 + ?n) (unat (dll_od_len c)) = Some (frame_od c)"
    using len by (simp add: memcpy_def frame_od_def)
  have hd: "unat IOLINK_M_SEQ_HEADER_LEN = 2" by simp
  have "dll_receive_frame c = Some (od, c\<lparr>dll_pd_out := ?pd, dll_isdu := isdu\<rparr>)"
    unfolding dll_receive_frame_def Let_def hd pd oi by (simp add: loop)
  moreover have "dll_wf (c\<lparr>dll_pd_out := ?pd, dll_isdu := isdu\<rparr>)"
    using assms od len by (simp add: dll_wf_def)
  moreover have "take ?n ?pd = take ?n (drop 2 (dll_frame_buf c))" using len by simp
  ultimately show ?thesis using od loop by simp
qed

text \<open>The status byte carries the flags of the process data and of the event queue.\<close>

lemma status_bits:
  "bit (dll_status_byte c) 5 \<longleftrightarrow> dll_pd_valid c" "bit (dll_status_byte c) 6 \<longleftrightarrow> dll_pd_in_toggle c"
  "bit (dll_status_byte c) 7 \<longleftrightarrow> iolink_events_pending (Ref (dll_events c))"
proof -
  have b5: "bit w 5 \<longleftrightarrow> w AND 0x20 \<noteq> 0" "bit w 7 \<longleftrightarrow> w AND 0x80 \<noteq> 0" for w :: u8
    using bit_iff_and_push_bit_not_eq_0 [of w 5] bit_iff_and_push_bit_not_eq_0 [of w 7] by simp_all
  show "bit (dll_status_byte c) 5 \<longleftrightarrow> dll_pd_valid c" "bit (dll_status_byte c) 6 \<longleftrightarrow> dll_pd_in_toggle c"
    "bit (dll_status_byte c) 7 \<longleftrightarrow> iolink_events_pending (Ref (dll_events c))"
    unfolding b5 and_0x40_iff [symmetric] dll_status_byte_def
    by (cases "iolink_events_pending (Ref (dll_events c))"; cases "dll_pd_in_toggle c"; cases "dll_pd_valid c"; simp)+
qed

text \<open>
  What a completed cycle has done: delivered the process data of the frame, run its on-request
  bytes through the ISDU engine, and sent one response frame.  The event flag of the response is
  that of the queue before the cycle unless a timing check may have added a warning.
\<close>

definition cycle_done :: "host_world stack \<Rightarrow> host_world stack \<Rightarrow> bool" where
  "cycle_done s s' \<longleftrightarrow>
     (let c = sk_dll s; c' = sk_dll s'; n = unat (dll_pd_out_len_current c); m = unat (dll_pd_in_len_current c) in
      take n (dll_pd_out c') = take n (drop 2 (dll_frame_buf c)) \<and>
      (\<exists>st od. od_loop (unat (dll_od_len c)) (frame_od c) (dll_isdu c) = Some (od, dll_isdu c') \<and>
         (bit st 5 \<longleftrightarrow> dll_pd_valid c) \<and> (bit st 6 \<longleftrightarrow> dll_pd_in_toggle c) \<and>
         (\<not> dll_enforce_timing c \<longrightarrow> (bit st 7 \<longleftrightarrow> iolink_events_pending (Ref (dll_events c)))) \<and>
         (let body = st # take m (dll_pd_in c) @ take (unat (dll_od_len c)) od in
          line_state s' = (line_in (world s), line_out (world s) @ body @ [crc6 body], link_up (world s)))) \<and>
      link_setup c' = link_setup c \<and> dll_wf c' \<and>
      (dll_pd_in c', dll_pd_valid c', dll_pd_in_toggle c') = (dll_pd_in c, dll_pd_valid c, dll_pd_in_toggle c) \<and>
      dll_fallback_count c' = 0 \<and> dll_state c' = IOLINK_DLL_STATE_OPERATE)"

lemma type1_2_cycle:
  assumes "dll_wf (sk_dll s)" and "the_phy s = Some iolink_phy_virtual_get" and "link_up (world s)"
    and "dll_state (sk_dll s) = IOLINK_DLL_STATE_OPERATE"
  shows "runs (dll_handle_operate_type1_2 linux_platform s) (cycle_done s)"
proof -
  let ?c = "sk_dll s"
  have phy: "phy_send iolink_phy_virtual_get \<noteq> NULL" by (simp add: iolink_phy_virtual_get_def)
  have fin: "runs (dll_transmit linux_platform (response_body od c' @ [crc6 (response_body od c')]) (s\<lparr>sk_dll := c'\<rparr>)) (cycle_done s)"
    if "length od = 2" "dll_wf c'"
      and pd: "take (unat (dll_pd_out_len_current ?c)) (dll_pd_out c') = take (unat (dll_pd_out_len_current ?c)) (drop 2 (dll_frame_buf ?c))"
      and loop: "od_loop (unat (dll_od_len ?c)) (frame_od ?c) (dll_isdu ?c) = Some (od, dll_isdu c')"
      and c': "c' = ?c\<lparr>dll_pd_out := dll_pd_out c', dll_isdu := dll_isdu c'\<rparr>" for od c'
  proof -
    have ev: "events_wf (dll_events (sk_dll (s\<lparr>sk_dll := c'\<rparr>)))" using that(2) by (simp add: dll_wf_def)
    obtain po io where cc: "c' = ?c\<lparr>dll_pd_out := po, dll_isdu := io\<rparr>" using c' by blast
    have ph: "the_phy (s\<lparr>sk_dll := c'\<rparr>) = Some iolink_phy_virtual_get" using assms(2) by (simp add: cc the_phy_def)
    have op: "dll_state c' = dll_state ?c" "link_setup c' = link_setup ?c" "dll_pd_in c' = dll_pd_in ?c"
        "dll_pd_valid c' = dll_pd_valid ?c" "dll_pd_in_toggle c' = dll_pd_in_toggle ?c"
      by (simp_all add: cc link_setup_def)
    have body: "response_body od c' = dll_status_byte c' # take (unat (dll_pd_in_len_current ?c)) (dll_pd_in ?c)
        @ take (unat (dll_od_len ?c)) od"
      by (simp add: response_body_def cc)
    have st: "bit (dll_status_byte c') 5 \<longleftrightarrow> dll_pd_valid ?c" "bit (dll_status_byte c') 6 \<longleftrightarrow> dll_pd_in_toggle ?c"
      "bit (dll_status_byte c') 7 \<longleftrightarrow> iolink_events_pending (Ref (dll_events ?c))"
      unfolding status_bits by (simp_all add: cc)
    show ?thesis
      by (rule runs_mono [OF runs_conj [OF transmit_law [OF ev ph] virtual_transmit [OF ev ph]]])
         (use assms(3,4) phy pd loop st op that(2) in \<open>auto simp: cycle_done_def Let_def after_send_ctx_def dll_data_def body
             intro!: exI [of _ "dll_status_byte c'"]\<close>)
  qed
  show ?thesis
    unfolding dll_handle_operate_type1_2_def
    by (auto simp: dll_build_response_eq intro!: runs_mono [OF receive_frame_law [OF assms(1)]] fin)
qed

lemma cycle_timing_virtual:
  fixes s :: "host_world stack"
  assumes "events_wf (dll_events (sk_dll s))"
  shows "runs (dll_cycle_timing linux_platform s) (\<lambda>s'. line_state s' = line_state s \<and>
     (dll_enforce_timing (sk_dll s) \<or> dll_events (sk_dll s') = dll_events (sk_dll s)))"
proof -
  obtain t s1 where t: "iolink_time_get_us linux_platform s = (t, s1)" by fastforce
  note c = time_get_us_ctx [OF t] linux_time_stack(1) [OF t]
  show ?thesis
    unfolding dll_cycle_timing_def t prod.case Let_def
    using c assms by (auto intro!: runs_mono [OF dll_trigger_law])
qed

lemma cycle_done_timing:
  assumes "timing_only (sk_dll s) (sk_dll s1)" and "line_state s1 = line_state s"
    and "dll_enforce_timing (sk_dll s) \<or> dll_events (sk_dll s1) = dll_events (sk_dll s)" and "cycle_done s1 s2"
  shows "cycle_done s (mod_dll (\<lambda>c. c\<lparr>dll_frame_index := 0\<rparr>) s2)"
proof -
  obtain a b x q where c: "sk_dll s1 = (sk_dll s)\<lparr>dll_timing_errors := a, dll_t_cycle_violations := b,
      dll_last_cycle_start_us := x, dll_events := q\<rparr>"
    using assms(1) by (rule timing_onlyE)
  have od: "frame_od (sk_dll s1) = frame_od (sk_dll s)" "link_setup (sk_dll s1) = link_setup (sk_dll s)"
    by (simp_all add: c frame_od_def link_setup_def)
  have w: "line_in (world s1) = line_in (world s)" "line_out (world s1) = line_out (world s)" "link_up (world s1) = link_up (world s)"
    using assms(2) by (simp_all add: line_state_def)
  have wf: "dll_wf (d\<lparr>dll_frame_index := 0\<rparr>)" "link_setup (d\<lparr>dll_frame_index := 0\<rparr>) = link_setup d" if "dll_wf d" for d :: "host_world iolink_dll_ctx"
    using that by (simp_all add: dll_wf_def link_setup_def)
  have "dll_enforce_timing (sk_dll s) \<or> q = dll_events (sk_dll s)" using assms(3) by (simp add: c)
  then show ?thesis using assms(4) unfolding cycle_done_def Let_def od w by (auto simp: c wf)
qed

text \<open>A full-length frame on a served channel goes to the cyclic handler, in OPERATE.\<close>

lemma dispatch_cyclic:
  assumes "dll_state (sk_dll s) = IOLINK_DLL_STATE_OPERATE \<or> dll_state (sk_dll s) = IOLINK_DLL_STATE_ESTAB_COM"
    and "2 < dll_req_len (sk_dll s)" and "0 < length (dll_frame_buf (sk_dll s))"
    and "dll_frame_buf (sk_dll s) ! 0 \<noteq> IOLINK_MC_TRANSITION_COMMAND" and "\<not> forbidden_channel (dll_frame_buf (sk_dll s) ! 0)"
  shows "dll_dispatch plat s =
    dll_handle_operate_type1_2 plat (mod_dll (\<lambda>c. c\<lparr>dll_state := IOLINK_DLL_STATE_OPERATE\<rparr>) s)"
proof -
  have req: "dll_req_len (sk_dll s) \<noteq> 2" using assms(2) by auto
  show ?thesis
  proof (cases "dll_state (sk_dll s) = IOLINK_DLL_STATE_OPERATE")
    case True
    then have "mod_dll (\<lambda>c. c\<lparr>dll_state := IOLINK_DLL_STATE_OPERATE\<rparr>) s = s" by (simp add: mod_dll_def)
    then show ?thesis
      using True assms(3-5) req
      by (simp only:) (simp add: dll_dispatch_def dll_first_frame_def dll_dispatch_operate_def Let_def)
  next
    case False
    then show ?thesis
      using assms by (simp add: dll_dispatch_def dll_first_frame_def dll_dispatch_estab_com_def Let_def)
  qed
qed

lemma operate_frame_cycle:
  assumes "dll_wf (sk_dll s)" and "dll_frame_index (sk_dll s) \<noteq> 0" and "the_phy s = Some iolink_phy_virtual_get"
    and "link_up (world s)"
    and "dll_state (sk_dll s) = IOLINK_DLL_STATE_OPERATE \<or> dll_state (sk_dll s) = IOLINK_DLL_STATE_ESTAB_COM"
    and "dll_req_len (sk_dll s) \<noteq> 2" and "frame_valid (received_frame (sk_dll s))"
    and "received_frame (sk_dll s) ! 0 \<noteq> IOLINK_MC_TRANSITION_COMMAND" and "\<not> forbidden_channel (received_frame (sk_dll s) ! 0)"
  shows "runs (dll_frame_complete linux_platform s) (cycle_done s)"
proof -
  have ev: "events_wf (dll_events (sk_dll s))" using assms(1) by (simp add: dll_wf_def)
  have mc: "dll_frame_buf (sk_dll s) ! 0 = received_frame (sk_dll s) ! 0" "length (dll_frame_buf (sk_dll s)) = 48"
    using assms(1,2) by (auto simp: received_frame_def dll_wf_def)
  have step: "runs (do { crc_ok \<leftarrow> dll_crc_ok (sk_dll s1);
        s \<leftarrow> (if crc_ok then dll_dispatch linux_platform s1 else dll_bad_crc s1);
        Some (mod_dll (\<lambda>c. c\<lparr>dll_frame_index := 0\<rparr>) s) }) (cycle_done s)"
    if t: "timing_only (sk_dll s) (sk_dll s1)" and p: "the_phy s1 = the_phy s"
      and w: "line_state s1 = line_state s" "dll_enforce_timing (sk_dll s) \<or> dll_events (sk_dll s1) = dll_events (sk_dll s)" for s1
  proof -
    note wf = timing_only_wf [OF t assms(1,2)]
    obtain a b x q where c: "sk_dll s1 = (sk_dll s)\<lparr>dll_timing_errors := a, dll_t_cycle_violations := b,
        dll_last_cycle_start_us := x, dll_events := q\<rparr>"
      using t by (rule timing_onlyE)
    let ?t = "mod_dll (\<lambda>c. c\<lparr>dll_state := IOLINK_DLL_STATE_OPERATE\<rparr>) s1"
    have "2 \<le> unat (dll_req_len (sk_dll s))" using assms(1,2) by (simp add: dll_wf_def)
    then have "2 < dll_req_len (sk_dll s)" using assms(6) by (simp add: word_less_nat_alt word_unat_eq_iff)
    then have "dll_dispatch linux_platform s1 = dll_handle_operate_type1_2 linux_platform ?t"
      using assms(5,8,9) mc by (intro dispatch_cyclic) (simp_all add: c)
    moreover have "runs (dll_handle_operate_type1_2 linux_platform ?t) (cycle_done ?t)"
      using assms(3,4) p w wf(1) by (intro type1_2_cycle) (auto simp: line_state_def the_phy_def ctx_upd)
    moreover have "cycle_done ?t = cycle_done s1"
      by (rule ext) (simp add: cycle_done_def Let_def frame_od_def link_setup_def)
    ultimately show ?thesis
      unfolding wf(2) using assms(7) cycle_done_timing [OF t w] by (auto elim!: runs_mono)
  qed
  show ?thesis
    unfolding dll_frame_complete_def runs_bind [of "dll_cycle_timing linux_platform s"]
    by (rule runs_mono [OF runs_conj [OF cycle_timing_law [OF ev] cycle_timing_virtual [OF ev]]])
       (use step in blast)
qed

section \<open>The receive loops end\<close>

text \<open>The PHY has just been asked for a byte and had none.\<close>

definition rx_dry :: "'w iolink_phy_api \<Rightarrow> 'w \<Rightarrow> bool" where
  "rx_dry p w \<longleftrightarrow> (\<forall>recv. phy_recv_byte p = Ref recv \<longrightarrow> (\<exists>b w0 n b'. recv b w0 = (n, b', w) \<and> n \<le> 0))"

lemma rx_loop_dry:
  assumes "dll_rx_loop plat b s = Some s'"
  shows "\<exists>p. the_phy s' = Some p \<and> rx_dry p (world s')"
proof (rule dll_rx_loop.raw_induct [where P = "\<lambda>_ _ _ s'. \<exists>p. the_phy s' = Some p \<and> rx_dry p (world s')", OF _ assms])
  fix loop :: "'a platform \<Rightarrow> u8 \<Rightarrow> 'a stack \<Rightarrow> 'a stack option" and plat b s s'
  assume ih: "\<And>plat b s y. loop plat b s = Some y \<Longrightarrow> \<exists>p. the_phy y = Some p \<and> rx_dry p (world y)"
    and step: "the_phy s \<bind> (\<lambda>phy. case phy_recv_byte phy of NULL \<Rightarrow> Some s
       | Ref recv \<Rightarrow> (case recv b (world s) of (n, byte, w) \<Rightarrow>
           if n > 0 then dll_rx_byte plat byte (set_world w s) \<bind> loop plat byte else Some (set_world w s))) = Some s'"
  have phy: "the_phy (set_world w s) = the_phy s" for w by (simp add: the_phy_def)
  show "\<exists>p. the_phy s' = Some p \<and> rx_dry p (world s')"
    using step
    by (auto simp: rx_dry_def phy not_less split: bind_splits ptr.splits prod.splits if_splits
        dest: ih [unfolded rx_dry_def]) blast+
qed

lemma drain_loop_dry:
  assumes "drain_rx_loop recv b saw w = Some y"
  shows "\<exists>b w0 n b'. recv b w0 = (n, b', snd y) \<and> n \<le> 0"
proof (rule drain_rx_loop.raw_induct [where P = "\<lambda>recv _ _ _ y. \<exists>b w0 n b'. recv b w0 = (n, b', snd y) \<and> n \<le> 0", OF _ assms])
qed (fastforce simp: not_less split: prod.splits if_splits)

section \<open>Correctness of the data link layer\<close>

text \<open>A stack on the virtual PHY in OPERATE, one byte of process data each way, with a received frame.\<close>

definition demo_world :: host_world where
  "demo_world =
     \<lparr>lw_nvm_file = None, lw_stdio = stdio_ok, lw_clock = [(0, 1, 0)], vp_fd = 3, vp_port_path = Ref ''tty'',
      os_open = 3, os_isatty = False, os_tcgetattr = 0, os_tcsetattr = 0, os_write = [], line_in = [], line_out = [], console = []\<rparr>"

definition demo_stack :: "bytes \<Rightarrow> host_world stack" where
  "demo_stack frame =
     \<lparr>sk_dll = zero_dll_ctx\<lparr>dll_state := IOLINK_DLL_STATE_OPERATE, dll_phy := Ref iolink_phy_virtual_get,
        dll_m_seq_type := 1, dll_od_len := 1, dll_pd_in_len := 1, dll_pd_out_len := 1,
        dll_pd_in_len_current := 1, dll_pd_out_len_current := 1, dll_sio_fallback_threshold := 3,
        dll_phy_mode := IOLINK_PHY_MODE_SDCI, dll_baudrate := IOLINK_BAUDRATE_COM2,
        dll_frame_buf := frame @ replicate (48 - length frame) 0,
        dll_frame_index := word_of_nat (length frame), dll_req_len := word_of_nat (length frame)\<rparr>,
      sk_globals = globals_static demo_world\<rparr>"

lemma demo_stack_wf:
  assumes "2 \<le> length frame" and "length frame \<le> 37"
  shows "dll_wf (sk_dll (demo_stack frame))" "dll_frame_index (sk_dll (demo_stack frame)) \<noteq> 0"
    "the_phy (demo_stack frame) = Some iolink_phy_virtual_get" "received_frame (sk_dll (demo_stack frame)) = frame"
    "dll_state (sk_dll (demo_stack frame)) = IOLINK_DLL_STATE_OPERATE"
    "link_up (world (demo_stack frame))" "dll_data (sk_dll (demo_stack frame)) = dll_data (zero_dll_ctx :: unit iolink_dll_ctx)"
  using assms u8_of_nat_eq_iff [of "length frame" 0]
  by (auto simp: demo_stack_def dll_wf_def zero_dll_ctx_def isdu_wf_zero the_phy_def received_frame_def
      world_def globals_static_def demo_world_def link_up_def dll_data_def)

definition demo_frame :: bytes where
  "demo_frame = [0x00, 0x00, 0xAA, 0x00, crc6 [0x00, 0x00, 0xAA, 0x00]]"

lemma demo_frame_valid: "frame_valid demo_frame" "length demo_frame = 5"
  by (simp_all add: demo_frame_def frame_valid_def)

text \<open>
  C9: The layer implements the IO-Link state machine.  When a frame is complete, whatever the
  timing checks find, the next state is exactly the one the abstract machine \<open>next_state\<close> gives:
  a bad checksum or a forbidden channel leads back to start-up (at once, or in the established
  states after the third error in a row), the first good frame ends start-up, only the transition
  command opens ESTAB_COM, and only a longer frame received in ESTAB_COM leads to OPERATE.
\<close>

theorem dll_state_machine:
  assumes "dll_wf (sk_dll s)" and "dll_frame_index (sk_dll s) \<noteq> 0" and "the_phy s = Some p"
  shows "runs (dll_frame_complete plat s) (\<lambda>s'. dll_state (sk_dll s') = next_state (sk_dll s))"
  by (rule frame_complete_state [OF assms])

lemma dll_state_machine_witness:
  "runs (dll_frame_complete linux_platform (demo_stack demo_frame))
     (\<lambda>s'. dll_state (sk_dll s') = next_state (sk_dll (demo_stack demo_frame)))"
  by (rule dll_state_machine [OF demo_stack_wf(1-3)]) (simp_all add: demo_frame_valid)

text \<open>
  C14: A frame corrupted in one byte is dropped.  Let \<open>f\<close> be a frame with a good checksum and let
  one byte of it arrive changed.  Unless the change is one of the three patterns the CRC cannot
  see and hits a protected byte, the frame is counted as a CRC error and nothing of it reaches the
  process data, the ISDU engine or Data Storage.
\<close>

theorem dll_corrupted_frame_dropped:
  assumes "dll_wf (sk_dll s)" and "dll_frame_index (sk_dll s) \<noteq> 0" and "the_phy s = Some p"
    and "frame_valid f" and "received_frame (sk_dll s) = f[i := f ! i XOR e]" and "i < length f" and "e \<noteq> 0"
    and "i = length f - 1 \<or> e \<notin> crc6_blind"
  shows "runs (dll_frame_complete plat s) (\<lambda>s'. dll_data (sk_dll s') = dll_data (sk_dll s) \<and>
     dll_crc_errors (sk_dll s') = dll_crc_errors (sk_dll s) + 1 \<and> dll_frame_index (sk_dll s') = 0)"
proof -
  have "length (received_frame (sk_dll s)) = unat (dll_req_len (sk_dll s))"
    using assms(1,2) by (auto simp: received_frame_def dll_wf_def)
  then have "2 \<le> length f" using assms(1,2,5) by (simp add: dll_wf_def)
  then have "\<not> frame_valid (received_frame (sk_dll s))"
    using frame_valid_corrupted [OF assms(4) _ assms(6,7)] assms(5,8) by auto
  then show ?thesis
    by (intro runs_mono [OF bad_frame_law [OF assms(1-3)]]) auto
qed

lemma dll_corrupted_frame_dropped_witness:
  "runs (dll_frame_complete linux_platform (demo_stack (demo_frame[2 := demo_frame ! 2 XOR 1]))) (\<lambda>s'.
     dll_crc_errors (sk_dll s') = dll_crc_errors (sk_dll (demo_stack (demo_frame[2 := demo_frame ! 2 XOR 1]))) + 1)"
proof -
  have "2 \<le> length (demo_frame[2 := demo_frame ! 2 XOR 1])" "length (demo_frame[2 := demo_frame ! 2 XOR 1]) \<le> 37"
    by (simp_all add: demo_frame_valid)
  note d = demo_stack_wf [OF this]
  show ?thesis
    by (rule runs_mono [OF dll_corrupted_frame_dropped [OF d(1-3) demo_frame_valid(1) d(4)]])
       (auto simp: demo_frame_valid crc6_blind_def)
qed

text \<open>
  C10: A cyclic exchange.  In OPERATE, or in ESTAB_COM where it completes the start of the
  connection, a good frame on an allowed channel delivers its process data
  bytes to the application buffer, passes its on-request bytes through the ISDU engine, and is
  answered by exactly one frame on the line: status with the validity and toggle flags, the
  device's process data, the engine's on-request bytes, and a checksum over all of them.  The
  error count is cleared and the device is in OPERATE.
\<close>

theorem dll_operate_cycle:
  assumes "dll_wf (sk_dll s)" and "dll_frame_index (sk_dll s) \<noteq> 0" and "the_phy s = Some iolink_phy_virtual_get"
    and "link_up (world s)"
    and "dll_state (sk_dll s) = IOLINK_DLL_STATE_OPERATE \<or> dll_state (sk_dll s) = IOLINK_DLL_STATE_ESTAB_COM"
    and "dll_req_len (sk_dll s) \<noteq> 2" and "frame_valid (received_frame (sk_dll s))"
    and "received_frame (sk_dll s) ! 0 \<noteq> IOLINK_MC_TRANSITION_COMMAND" and "\<not> forbidden_channel (received_frame (sk_dll s) ! 0)"
  shows "runs (dll_frame_complete linux_platform s) (cycle_done s)"
  by (rule operate_frame_cycle [OF assms])

lemma dll_operate_cycle_witness:
  "runs (dll_frame_complete linux_platform (demo_stack demo_frame)) (cycle_done (demo_stack demo_frame))"
proof -
  have len: "2 \<le> length demo_frame" "length demo_frame \<le> 37" by (simp_all add: demo_frame_valid)
  note d = demo_stack_wf [OF len]
  have "dll_req_len (sk_dll (demo_stack demo_frame)) \<noteq> 2"
    using u8_of_nat_eq_iff [of 5 2] by (simp add: demo_stack_def demo_frame_valid)
  then show ?thesis
    by (intro dll_operate_cycle d)
       (simp_all add: d demo_frame_valid, simp_all add: demo_frame_def forbidden_channel_def)
qed

text \<open>
  C22: The fallback rule.  Every error counts one retry.  When the consecutive errors reach the
  threshold the device goes to SIO mode, COM1 and start-up, drops the open frame and queues a
  warning; below it an established connection is kept as it is, and any other state falls back to
  start-up at COM1.  Process data and the ISDU engine are never touched.
\<close>

theorem dll_fallback_rule:
  assumes "events_wf (dll_events (sk_dll s))" and "the_phy s = Some p"
  shows "runs (dll_enter_fallback s) (\<lambda>s'. let c = sk_dll s; c' = sk_dll s' in
     dll_total_retries c' = dll_total_retries c + 1 \<and> dll_data c' = dll_data c \<and>
     (if dll_fallback_count c + 1 \<ge> dll_sio_fallback_threshold c then
        dll_phy_mode c' = IOLINK_PHY_MODE_SIO \<and> dll_baudrate c' = IOLINK_BAUDRATE_COM1 \<and>
        dll_state c' = IOLINK_DLL_STATE_STARTUP \<and> dll_fallback_count c' = 0 \<and> dll_frame_index c' = 0 \<and>
        events_list (dll_events c') = push_drop IOLINK_EVENT_QUEUE_SIZE (events_list (dll_events c))
          \<lparr>ev_code = IOLINK_EVENT_CODE_COMM_ERR_FRAMING, ev_type = IOLINK_EVENT_TYPE_WARNING\<rparr>
      else dll_phy_mode c' = dll_phy_mode c \<and> dll_fallback_count c' = dll_fallback_count c + 1 \<and>
        dll_events c' = dll_events c \<and>
        (if dll_state c = IOLINK_DLL_STATE_OPERATE \<or> dll_state c = IOLINK_DLL_STATE_ESTAB_COM
         then dll_state c' = dll_state c \<and> dll_baudrate c' = dll_baudrate c
         else dll_state c' = IOLINK_DLL_STATE_STARTUP \<and> dll_baudrate c' = IOLINK_BAUDRATE_COM1)))"
  by (rule runs_mono [OF enter_fallback_law [OF assms]]) (simp add: fallback_ctx_def Let_def)

lemma dll_fallback_rule_witness:
  "runs (dll_enter_fallback (demo_stack demo_frame)) (\<lambda>s'. dll_fallback_count (sk_dll s') = 1)"
proof -
  have d: "dll_fallback_count (sk_dll (demo_stack demo_frame)) = 0" "dll_sio_fallback_threshold (sk_dll (demo_stack demo_frame)) = 3"
    "events_wf (dll_events (sk_dll (demo_stack demo_frame)))"
    by (simp_all add: demo_stack_def zero_dll_ctx_def)
  have p: "the_phy (demo_stack demo_frame) = Some iolink_phy_virtual_get"
    by (rule demo_stack_wf) (simp_all add: demo_frame_valid)
  show ?thesis
    by (rule runs_mono [OF dll_fallback_rule [OF d(3) p]]) (simp add: d Let_def word_le_nat_alt)
qed

text \<open>
  C23: The receive loops end.  On any PHY that has only finitely many bytes to deliver during one
  call, and from any well-formed state, the loop that assembles frames and the loop that drops
  bytes during the power-on delay both return, and the last thing either did was to ask the PHY
  for a byte and get none.
\<close>

theorem dll_loops_end:
  assumes "link_env plat phy backlog" and "stack_wf s" and "dll_phy (sk_dll s) = Ref phy"
  shows "runs (dll_rx_loop plat b s) (\<lambda>s'. stack_wf s' \<and> rx_dry phy (world s')) \<and>
     runs (dll_drain_rx s) (\<lambda>(saw, s'). rx_dry phy (world s'))"
proof
  have l: "live phy (\<lambda>_. True) s" using assms(2,3) by (simp add: live_def)
  have "runs (dll_rx_loop plat b s) (good phy backlog (\<lambda>_. True) (backlog (world s)))"
    by (rule link_inv.rx_loop_good [OF link_env.always_inv [OF assms(1)]]) (use l in \<open>simp add: live_def good_def\<close>)
  then obtain s' where s': "dll_rx_loop plat b s = Some s'" "good phy backlog (\<lambda>_. True) (backlog (world s)) s'" by (rule runsE)
  with rx_loop_dry [OF s'(1)] show "runs (dll_rx_loop plat b s) (\<lambda>s'. stack_wf s' \<and> rx_dry phy (world s'))"
    by (auto simp: good_def the_phy_def)
  show "runs (dll_drain_rx s) (\<lambda>(saw, s'). rx_dry phy (world s'))"
  proof (cases "phy_recv_byte phy")
    case (Ref recv)
    have "runs (drain_rx_loop recv 0 False (world s)) (\<lambda>(saw, w). rx_dry phy w)"
    proof -
      obtain y where y: "drain_rx_loop recv 0 False (world s) = Some y"
        using link_inv.drain_rx_loop_ends [OF link_env.always_inv [OF assms(1)] Ref] by (rule runsE)
      with drain_loop_dry [OF y] Ref show ?thesis by (simp add: rx_dry_def split_def)
    qed
    then show ?thesis using assms(3) Ref by (simp add: dll_drain_rx_def split_def)
  qed (simp add: dll_drain_rx_def rx_dry_def assms(3))
qed

lemma dll_loops_end_witness:
  "runs (dll_rx_loop linux_platform 0 (demo_stack demo_frame)) (\<lambda>s'. stack_wf s' \<and> rx_dry iolink_phy_virtual_get (world s'))"
proof -
  have "dll_wf (sk_dll (demo_stack demo_frame))" by (rule demo_stack_wf) (simp_all add: demo_frame_valid)
  then have "stack_wf (demo_stack demo_frame)" by (simp add: stack_wf_def demo_stack_def globals_wf_static)
  then show ?thesis
    using dll_loops_end [OF virtual_link.link_env_axioms, of "demo_stack demo_frame" 0] by (simp add: demo_stack_def)
qed


text \<open>
  C24: The inactivity rule, across the wrap-around of the clock.  Let the last byte have come at
  millisecond \<open>t\<close> and \<open>d\<close> milliseconds have passed, with the 32-bit counter possibly wrapping in
  between.  The link is dropped exactly when \<open>d\<close> exceeds 1000 and the recorded time is not the
  special value 0: back to start-up with no open frame, and out of SIO mode also back to SIO and COM1.
  Otherwise, and in any case for process data, ISDU engine and events, nothing changes.
\<close>

theorem dll_inactivity_rule:
  assumes "the_phy s = Some p" and "unat (dll_last_activity_ms (sk_dll s)) = t mod 2 ^ 32"
    and "unat (fst (iolink_time_get_ms plat s)) = (t + d) mod 2 ^ 32" and "d < 2 ^ 32"
  shows "runs (dll_inactivity plat s) (\<lambda>s'. let c = sk_dll s; c' = sk_dll s' in
     dll_data c' = dll_data c \<and> dll_events c' = dll_events c \<and>
     (if t mod 2 ^ 32 \<noteq> 0 \<and> 1000 < d then
        dll_state c' = IOLINK_DLL_STATE_STARTUP \<and> dll_frame_index c' = 0 \<and> dll_last_activity_ms c' = 0 \<and>
        dll_phy_mode c' = IOLINK_PHY_MODE_SIO \<and>
        dll_baudrate c' = (if dll_phy_mode c = IOLINK_PHY_MODE_SIO then dll_baudrate c else IOLINK_BAUDRATE_COM1)
      else c' = c))"
proof -
  let ?last = "dll_last_activity_ms (sk_dll s)"
  obtain now s1 where n: "iolink_time_get_ms plat s = (now, s1)" by fastforce
  have c1: "sk_dll s1 = sk_dll s" using n by (auto simp: iolink_time_get_ms_def split: prod.splits)
  have "uint (now - ?last) = (uint now - uint ?last) mod 2 ^ 32" by (simp add: uint_word_ariths)
  also have "\<dots> = int d"
    using assms(2-4) n by (simp add: uint_nat zmod_int mod_diff_left_eq mod_diff_right_eq)
  finally have el: "unat (now - ?last) = d" by (simp add: unat_eq_nat_uint)
  have late: "?last \<noteq> 0 \<and> now - ?last > 1000 \<longleftrightarrow> t mod 2 ^ 32 \<noteq> 0 \<and> 1000 < d"
    using assms(2) el by (auto simp: word_less_nat_alt word_unat_eq_iff)
  let ?s = "mod_dll (\<lambda>c. c\<lparr>dll_last_activity_ms := 0\<rparr>) s1"
  have phy: "the_phy ?s = Some p" using assms(1) c1 by (simp add: the_phy_def)
  show ?thesis
    unfolding dll_inactivity_def n prod.case Let_def c1 late
    using phy
    by (auto simp: c1 dll_data_def baud_ctx_def intro!: runs_mono [OF set_baudrate_law] runs_mono [OF set_sio_law])
qed

definition demo_quiet_stack :: "host_world stack" where
  "demo_quiet_stack = set_world (demo_world\<lparr>lw_clock := [(0, 2, 0)]\<rparr>)
     (mod_dll (\<lambda>c. c\<lparr>dll_last_activity_ms := 0xFFFFFFF6\<rparr>) (demo_stack demo_frame))"

lemma dll_inactivity_rule_witness:
  "runs (dll_inactivity linux_platform demo_quiet_stack) (\<lambda>s'.
     dll_state (sk_dll s') = IOLINK_DLL_STATE_STARTUP \<and> dll_baudrate (sk_dll s') = IOLINK_BAUDRATE_COM1)"
proof -
  have now: "unat (fst (iolink_time_get_ms linux_platform demo_quiet_stack)) = (0xFFFFFFF6 + 2010) mod 2 ^ 32"
    by (simp add: demo_quiet_stack_def iolink_time_get_ms_def linux_platform_def linux_time_get_ms_def clock_gettime_def demo_world_def)
  have phy: "the_phy demo_quiet_stack = Some iolink_phy_virtual_get" "dll_phy_mode (sk_dll demo_quiet_stack) = IOLINK_PHY_MODE_SDCI"
    "unat (dll_last_activity_ms (sk_dll demo_quiet_stack)) = 0xFFFFFFF6 mod 2 ^ 32"
    by (simp_all add: demo_quiet_stack_def the_phy_def demo_stack_def)
  show ?thesis
    by (rule runs_mono [OF dll_inactivity_rule [OF phy(1,3) now]]) (simp_all add: Let_def phy(2))
qed

text \<open>
  C36: Changing the process data lengths.  A request with both lengths within the 32 bytes of the
  buffers is accepted, for every M-sequence type and without regard to the maximum lengths of the context:
  the lengths read back as given, frames are expected at the new output length, the next
  cyclic response carries that many bytes of input data, and the context stays well-formed.
  Any other request is rejected and changes nothing.  The type and the maximum lengths never change.
\<close>

theorem dll_pd_length_change:
  assumes "dll_wf c" and "iolink_dll_set_pd_length i j c = (r, c')"
  shows "dll_wf c' \<and> dll_m_seq_type c' = dll_m_seq_type c \<and>
    dll_pd_in_len_max c' = dll_pd_in_len_max c \<and> dll_pd_out_len_max c' = dll_pd_out_len_max c \<and>
    (if unat i \<le> 32 \<and> unat j \<le> 32
     then r = 0 \<and> iolink_dll_get_pd_length c' = (i, j) \<and> unat (multi_req_len c') = 3 + unat j + unat (dll_od_len c) \<and>
       (\<forall>a b. runs (dll_build_response [a, b] c') (\<lambda>resp. length resp = 2 + unat i + unat (dll_od_len c) \<and>
          take (unat i) (drop 1 resp) = take (unat i) (dll_pd_in c)))
     else r = -1 \<and> c' = c)"
proof -
  have wf: "dll_wf c'" using assms by (auto simp: iolink_dll_set_pd_length_def dll_wf_def split: if_splits)
  have resp: "runs (dll_build_response [a, b] c') (\<lambda>resp. length resp = 2 + unat (dll_pd_in_len_current c') + unat (dll_od_len c') \<and>
      take (unat (dll_pd_in_len_current c')) (drop 1 resp) = take (unat (dll_pd_in_len_current c')) (dll_pd_in c'))" for a b
    using wf by (auto simp: dll_build_response_eq response_body_def dll_wf_def)
  show ?thesis
    using wf assms(2) unat_multi_req_len [of c'] resp
    by (auto simp: iolink_dll_set_pd_length_def iolink_dll_get_pd_length_def split: if_splits)
qed

text \<open>Lengths above the maximum of the context and for a fixed type, and a length above the buffer.\<close>

lemma dll_pd_length_change_witness:
  "dll_m_seq_type (sk_dll (demo_stack demo_frame)) = 1 \<and> dll_pd_in_len_max (sk_dll (demo_stack demo_frame)) = 0 \<and>
   iolink_dll_get_pd_length (snd (iolink_dll_set_pd_length 4 8 (sk_dll (demo_stack demo_frame)))) = (4, 8) \<and>
   fst (iolink_dll_set_pd_length 4 40 (sk_dll (demo_stack demo_frame))) = -1"
proof -
  have wf: "dll_wf (sk_dll (demo_stack demo_frame))" by (rule demo_stack_wf) (simp_all add: demo_frame_valid)
  show ?thesis
    using dll_pd_length_change [OF wf prod.collapse [symmetric], of 4 8] dll_pd_length_change [OF wf prod.collapse [symmetric], of 4 40]
    by (simp add: demo_stack_def zero_dll_ctx_def)
qed

end
