(* ===== verification/Core.thy ===== *)
theory Core
  imports Dll_Behaviour
begin

text \<open>
  \<^verbatim>\<open>src/iolink_core.c\<close> and \<^verbatim>\<open>include/iolinki/iolink.h\<close>: the public API over the file-scope context and
  configuration.  \<open>core_exec\<close> is any call of the library by the application, or a change
  outside; \<open>core_reaches\<close> a sequence of legal ones.  The invariants of the data link layer are
  lifted to it once, for every control invariant, in the locale \<open>link_inv\<close>.
\<close>

section \<open>Data\<close>

record iolink_config =
  cfg_m_seq_type :: u8
  cfg_min_cycle_time :: u8
  cfg_pd_in_len :: u8
  cfg_pd_out_len :: u8
  cfg_t_pd_us :: u32

definition zero_config :: iolink_config where
  "zero_config = \<lparr>cfg_m_seq_type = 0, cfg_min_cycle_time = 0, cfg_pd_in_len = 0, cfg_pd_out_len = 0, cfg_t_pd_us = 0\<rparr>"

record 'w core =
  g_stack :: "'w stack"
  g_config :: iolink_config

text \<open>The state before the first call: everything static, the outside state given.\<close>

definition core_static :: "'w \<Rightarrow> 'w core" where
  "core_static w = \<lparr>g_stack = \<lparr>sk_dll = zero_dll_ctx, sk_globals = globals_static w\<rparr>, g_config = zero_config\<rparr>"

definition mod_stack :: "('w stack \<Rightarrow> 'w stack) \<Rightarrow> 'w core \<Rightarrow> 'w core" where
  "mod_stack f k = k\<lparr>g_stack := f (g_stack k)\<rparr>"

section \<open>Initialisation\<close>

definition core_store_config :: "iolink_config ptr \<Rightarrow> 'w core \<Rightarrow> 'w core" where
  "core_store_config config k =
     (case config of
        Ref cfg \<Rightarrow> k\<lparr>g_config := cfg\<rparr>
      | NULL \<Rightarrow> k\<lparr>g_config := zero_config\<lparr>cfg_m_seq_type := IOLINK_M_SEQ_TYPE_0, cfg_min_cycle_time := 0\<rparr>\<rparr>)"

text \<open>The configuration applied to the context; \<open>us\<close> is the clock reading, used when there is a delay.\<close>

definition apply_config :: "iolink_config \<Rightarrow> 'w iolink_dll_ctx \<Rightarrow> 'w iolink_dll_ctx" where
  "apply_config cfg c =
     c\<lparr>dll_m_seq_type := cfg_m_seq_type cfg, dll_pd_in_len := cfg_pd_in_len cfg, dll_pd_out_len := cfg_pd_out_len cfg,
       dll_min_cycle_time_us := ucast (cfg_min_cycle_time cfg) * 100, dll_t_pd_delay_us := cfg_t_pd_us cfg\<rparr>"

definition apply_t_pd :: "'w platform \<Rightarrow> 'w stack \<Rightarrow> 'w stack" where
  "apply_t_pd plat s =
     (if dll_t_pd_delay_us (sk_dll s) > 0 then
        (case iolink_time_get_us plat s of (t, s) \<Rightarrow>
           mod_dll (\<lambda>c. c\<lparr>dll_t_pd_deadline_us := t + ucast (dll_t_pd_delay_us c)\<rparr>) s)
      else mod_dll (\<lambda>c. c\<lparr>dll_t_pd_deadline_us := 0\<rparr>) s)"

text \<open>Both branches of the source's last conditional set the lengths alike.\<close>

definition apply_lengths :: "'w iolink_dll_ctx \<Rightarrow> 'w iolink_dll_ctx" where
  "apply_lengths c =
     c\<lparr>dll_od_len := od_len_of (dll_m_seq_type c),
       dll_pd_in_len_current := dll_pd_in_len c, dll_pd_out_len_current := dll_pd_out_len c,
       dll_pd_in_len_max := dll_pd_in_len c, dll_pd_out_len_max := dll_pd_out_len c\<rparr>"

definition core_phy_init :: "'w iolink_phy_api \<Rightarrow> 'w core \<Rightarrow> int \<times> 'w core" where
  "core_phy_init phy k =
     (case phy_init phy of NULL \<Rightarrow> (0, k)
      | Ref f \<Rightarrow> (case f (world (g_stack k)) of (err, w) \<Rightarrow> (err, mod_stack (set_world w) k)))"

definition iolink_init ::
  "'w platform \<Rightarrow> 'w iolink_phy_api ptr \<Rightarrow> iolink_config ptr \<Rightarrow> 'w core \<Rightarrow> (int \<times> 'w core) option" where
  "iolink_init plat phy config k =
     (case phy of NULL \<Rightarrow> Some (-1, k)
      | Ref p \<Rightarrow>
         (case core_phy_init p (core_store_config config k) of (err, k) \<Rightarrow>
          if err \<noteq> 0 then Some (err, k)
          else do {
            s \<leftarrow> iolink_dll_init (Ref p) (g_stack k);
            g \<leftarrow> iolink_params_init plat (sk_globals s);
            let s = mod_dll (apply_config (g_config k)) (s\<lparr>sk_globals := g\<rparr>);
            Some (0, k\<lparr>g_stack := mod_dll apply_lengths (apply_t_pd plat s)\<rparr>) }))"

section \<open>Running\<close>

definition iolink_process :: "'w platform \<Rightarrow> 'w core \<Rightarrow> 'w core option" where
  "iolink_process plat k = map_option (\<lambda>s. k\<lparr>g_stack := s\<rparr>) (iolink_dll_process plat (g_stack k))"

definition iolink_pd_input_update :: "bytes ptr \<Rightarrow> nat \<Rightarrow> bool \<Rightarrow> 'w core \<Rightarrow> (int \<times> 'w core) option" where
  "iolink_pd_input_update data len valid k =
     (case data of NULL \<Rightarrow> Some (-1, k)
      | Ref d \<Rightarrow>
          if len > IOLINK_PD_IN_MAX_SIZE then Some (-1, k)
          else do {
            buf \<leftarrow> memcpy (dll_pd_in (sk_dll (g_stack k))) 0 d 0 len;
            Some (0, mod_stack (mod_dll (\<lambda>c. c\<lparr>dll_pd_in := buf, dll_pd_in_len := word_of_nat len,
                       dll_pd_valid := valid, dll_pd_in_toggle := \<not> dll_pd_in_toggle c\<rparr>)) k) })"

text \<open>\<open>data\<close> is the destination with its current contents; the result carries its new contents.\<close>

definition iolink_pd_output_read :: "bytes ptr \<Rightarrow> nat \<Rightarrow> 'w core \<Rightarrow> (int \<times> bytes ptr) option" where
  "iolink_pd_output_read data len k =
     (case data of NULL \<Rightarrow> Some (-1, NULL)
      | Ref d \<Rightarrow>
          (let c = sk_dll (g_stack k);
               read_len = (if len < unat (dll_pd_out_len c) then len mod 256 else unat (dll_pd_out_len c))
           in do {
             d \<leftarrow> memcpy d 0 (dll_pd_out c) 0 read_len;
             Some (int read_len, Ref d) }))"

text \<open>The accessors.  The contexts they return are objects of the stack.\<close>

definition iolink_get_events_ctx :: "'w core \<Rightarrow> iolink_events_ctx" where
  "iolink_get_events_ctx k = dll_events (sk_dll (g_stack k))"

definition iolink_get_ds_ctx :: "'w core \<Rightarrow> iolink_ds_ctx" where
  "iolink_get_ds_ctx k = dll_ds (sk_dll (g_stack k))"

definition iolink_get_state :: "'w core \<Rightarrow> iolink_dll_state" where
  "iolink_get_state k = dll_state (sk_dll (g_stack k))"

definition iolink_get_phy_mode :: "'w core \<Rightarrow> iolink_phy_mode" where
  "iolink_get_phy_mode k = dll_phy_mode (sk_dll (g_stack k))"

definition iolink_get_baudrate :: "'w core \<Rightarrow> iolink_baudrate" where
  "iolink_get_baudrate k = dll_baudrate (sk_dll (g_stack k))"

definition iolink_get_dll_stats :: "'w core \<Rightarrow> iolink_dll_stats" where
  "iolink_get_dll_stats k = iolink_dll_get_stats (sk_dll (g_stack k))"

definition iolink_set_timing_enforcement :: "bool \<Rightarrow> 'w core \<Rightarrow> 'w core" where
  "iolink_set_timing_enforcement enable = mod_stack (mod_dll (iolink_dll_set_timing_enforcement enable))"

definition iolink_set_t_ren_limit_us :: "u32 \<Rightarrow> 'w core \<Rightarrow> 'w core" where
  "iolink_set_t_ren_limit_us limit = mod_stack (mod_dll (iolink_dll_set_t_ren_limit_us limit))"

definition iolink_get_m_seq_type :: "'w core \<Rightarrow> u8" where
  "iolink_get_m_seq_type k = dll_m_seq_type (sk_dll (g_stack k))"

definition iolink_get_pd_in_len :: "'w core \<Rightarrow> u8" where
  "iolink_get_pd_in_len k = dll_pd_in_len (sk_dll (g_stack k))"

definition iolink_get_pd_out_len :: "'w core \<Rightarrow> u8" where
  "iolink_get_pd_out_len k = dll_pd_out_len (sk_dll (g_stack k))"

section \<open>Initialisation establishes the invariant\<close>

text \<open>The outside state after the PHY calls of a successful start, where the stored record is read.\<close>

definition boot_world :: "'w iolink_phy_api \<Rightarrow> 'w \<Rightarrow> 'w" where
  "boot_world p w =
     (let w = (case phy_init p of NULL \<Rightarrow> w | Ref f \<Rightarrow> snd (f w));
          w = (case phy_set_baudrate p of NULL \<Rightarrow> w | Ref f \<Rightarrow> f IOLINK_BAUDRATE_COM2 w)
      in (case phy_set_mode p of NULL \<Rightarrow> w | Ref f \<Rightarrow> f IOLINK_PHY_MODE_SIO w))"

definition config_ok :: "iolink_config \<Rightarrow> bool" where
  "config_ok cfg \<longleftrightarrow> unat (cfg_pd_in_len cfg) \<le> 32 \<and> unat (cfg_pd_out_len cfg) \<le> 32"

definition phy_starts :: "'w iolink_phy_api \<Rightarrow> 'w \<Rightarrow> bool" where
  "phy_starts p w \<longleftrightarrow> (case phy_init p of NULL \<Rightarrow> True | Ref f \<Rightarrow> fst (f w) = 0)"

definition booted_ctx :: "'w iolink_phy_api \<Rightarrow> 'w iolink_dll_ctx" where
  "booted_ctx p = (dll_init_modules (dll_init_fields p zero_dll_ctx))\<lparr>dll_phy_mode := IOLINK_PHY_MODE_SIO\<rparr>"

lemma iolink_dll_init_eq:
  "iolink_dll_init (Ref p) s = Some \<lparr>sk_dll = booted_ctx p,
     sk_globals = (sk_globals s)\<lparr>gl_world :=
       (let w = (case phy_set_baudrate p of NULL \<Rightarrow> world s | Ref f \<Rightarrow> f IOLINK_BAUDRATE_COM2 (world s))
        in (case phy_set_mode p of NULL \<Rightarrow> w | Ref f \<Rightarrow> f IOLINK_PHY_MODE_SIO w))\<rparr>\<rparr>"
proof -
  have phy: "dll_phy (dll_init_modules (dll_init_fields p zero_dll_ctx)) = Ref p"
    by (simp add: dll_init_modules_def dll_init_fields_def Let_def)
  show ?thesis
    by (cases s; cases "phy_set_baudrate p"; cases "phy_set_mode p")
       (simp_all add: iolink_dll_init_def iolink_dll_set_sio_mode_def dll_set_mode_def the_phy_def Let_def
          mod_dll_def set_world_def world_def phy booted_ctx_def)
qed

lemma booted_ctx_simps:
  "dll_phy (booted_ctx p) = Ref p" "dll_state (booted_ctx p) = IOLINK_DLL_STATE_STARTUP"
  "dll_frame_index (booted_ctx p) = 0" "dll_baudrate (booted_ctx p) = IOLINK_BAUDRATE_COM2"
  "dll_phy_mode (booted_ctx p) = IOLINK_PHY_MODE_SIO" "length (dll_frame_buf (booted_ctx p)) = 48"
  "length (dll_pd_in (booted_ctx p)) = 32" "length (dll_pd_out (booted_ctx p)) = 32"
  "events_wf (dll_events (booted_ctx p))" "isdu_wf (dll_isdu (booted_ctx p))"
  "is_ds_ctx (dll_isdu (booted_ctx p)) = NULL" "is_event_ctx (dll_isdu (booted_ctx p)) = Ref ()"
  "dll_last_activity_ms (booted_ctx p) = 0" "\<not> dll_enforce_timing (booted_ctx p)"
  "is_dll_ctx (dll_isdu (booted_ctx p)) = Ref ()" "is_state (dll_isdu (booted_ctx p)) = ISDU_STATE_IDLE"
  by (simp_all add: booted_ctx_def dll_init_modules_def dll_init_fields_def Let_def zero_dll_ctx_def
      iolink_events_init_def iolink_isdu_init_def iolink_ctx_zero_def zero_isdu_ctx_def isdu_wf_unfold)

text \<open>What a freshly initialised stack looks like.\<close>

definition fresh :: "'w iolink_phy_api \<Rightarrow> iolink_config \<Rightarrow> 'w core \<Rightarrow> bool" where
  "fresh p cfg k \<longleftrightarrow>
     (let c = sk_dll (g_stack k) in
      dll_phy c = Ref p \<and> dll_state c = IOLINK_DLL_STATE_STARTUP \<and> dll_frame_index c = 0 \<and>
      dll_baudrate c = IOLINK_BAUDRATE_COM2 \<and> dll_phy_mode c = IOLINK_PHY_MODE_SIO \<and>
      dll_m_seq_type c = cfg_m_seq_type cfg \<and> dll_od_len c = od_len_of (cfg_m_seq_type cfg) \<and>
      dll_pd_in_len_current c = cfg_pd_in_len cfg \<and> dll_pd_out_len_current c = cfg_pd_out_len cfg \<and>
      dll_pd_out_len c = cfg_pd_out_len cfg \<and>
      length (dll_frame_buf c) = 48 \<and> length (dll_pd_in c) = 32 \<and> length (dll_pd_out c) = 32 \<and>
      events_wf (dll_events c) \<and> isdu_wf (dll_isdu c) \<and> is_ds_ctx (dll_isdu c) = NULL \<and>
      dll_last_activity_ms c = 0 \<and> \<not> dll_enforce_timing c \<and> is_state (dll_isdu c) = ISDU_STATE_IDLE \<and>
      (cfg_t_pd_us cfg = 0 \<longrightarrow> dll_t_pd_deadline_us c = 0) \<and> globals_wf (sk_globals (g_stack k)))"

lemma apply_t_pd_simps:
  "\<exists>x. sk_dll (apply_t_pd plat s) = (sk_dll s)\<lparr>dll_t_pd_deadline_us := x\<rparr> \<and> (dll_t_pd_delay_us (sk_dll s) = 0 \<longrightarrow> x = 0)"
  "globals_wf (sk_globals (apply_t_pd plat s)) = globals_wf (sk_globals s)"
  by (auto simp: apply_t_pd_def iolink_time_get_us_def split: prod.splits)

lemma core_phy_init_ok:
  assumes "phy_starts p (world (g_stack k))" and "globals_wf (sk_globals (g_stack k))"
  shows "\<exists>k1. core_phy_init p (core_store_config (Ref cfg) k) = (0, k1) \<and> g_config k1 = cfg \<and>
     world (g_stack k1) = (case phy_init p of NULL \<Rightarrow> world (g_stack k) | Ref f \<Rightarrow> snd (f (world (g_stack k)))) \<and>
     globals_wf (sk_globals (g_stack k1))"
proof (cases "phy_init p")
  case NULL
  then show ?thesis using assms by (simp add: core_phy_init_def core_store_config_def)
next
  case (Ref f)
  then obtain w where "f (world (g_stack k)) = (0, w)"
    using assms(1) by (cases "f (world (g_stack k))") (simp add: phy_starts_def)
  then show ?thesis
    using assms(2) Ref by (simp add: core_phy_init_def core_store_config_def mod_stack_def)
qed

lemma iolink_init_law:
  assumes "globals_wf (sk_globals (g_stack k))" and "phy_starts p (world (g_stack k))"
    and "nvm_sane plat (boot_world p (world (g_stack k)))"
  shows "runs (iolink_init plat (Ref p) (Ref cfg) k) (\<lambda>(r, k'). r = 0 \<and> fresh p cfg k' \<and> g_config k' = cfg)"
proof -
  obtain k1 where k1: "core_phy_init p (core_store_config (Ref cfg) k) = (0, k1)"
    and g: "g_config k1 = cfg" and w: "world (g_stack k1) = (case phy_init p of NULL \<Rightarrow> world (g_stack k) | Ref f \<Rightarrow> snd (f (world (g_stack k))))"
    and glob: "globals_wf (sk_globals (g_stack k1))"
    using core_phy_init_ok [OF assms(2,1)] by blast
  let ?w = "boot_world p (world (g_stack k))"
  have init: "iolink_dll_init (Ref p) (g_stack k1) = Some \<lparr>sk_dll = booted_ctx p, sk_globals = (sk_globals (g_stack k1))\<lparr>gl_world := ?w\<rparr>\<rparr>"
    unfolding iolink_dll_init_eq w by (simp add: boot_world_def Let_def)
  have par: "runs (iolink_params_init plat ((sk_globals (g_stack k1))\<lparr>gl_world := ?w\<rparr>)) globals_wf"
    by (rule iolink_params_init_wf) (use glob assms(3) in simp_all)
  have fresh: "fresh p cfg (k1\<lparr>g_stack := mod_dll apply_lengths (apply_t_pd plat
      (mod_dll (apply_config cfg) \<lparr>sk_dll = booted_ctx p, sk_globals = gg\<rparr>))\<rparr>)" if "globals_wf gg" for gg
  proof -
    let ?s = "mod_dll (apply_config cfg) \<lparr>sk_dll = booted_ctx p, sk_globals = gg\<rparr>"
    obtain x where x: "sk_dll (apply_t_pd plat ?s) = (sk_dll ?s)\<lparr>dll_t_pd_deadline_us := x\<rparr>"
      "dll_t_pd_delay_us (sk_dll ?s) = 0 \<longrightarrow> x = 0"
      using apply_t_pd_simps(1) by blast
    show ?thesis
      using that x(2) by (simp add: fresh_def Let_def apply_lengths_def apply_config_def x(1) g apply_t_pd_simps(2) booted_ctx_simps)
  qed
  show ?thesis
    unfolding iolink_init_def ptr.case k1 prod.case
    using fresh g by (auto simp: init Let_def intro!: runs_mono [OF par])
qed

lemma fresh_live:
  assumes "fresh p cfg k" and "config_ok cfg"
  shows "live p (\<lambda>(st, b, i, r). st = IOLINK_DLL_STATE_STARTUP \<and> b = IOLINK_BAUDRATE_COM2 \<and> i = 0) (g_stack k)"
  using assms by (auto simp: fresh_def config_ok_def live_def stack_wf_def dll_wf_def ctl_def od_len_of_def Let_def)

text \<open>The control invariants hold at the start.\<close>

lemma fresh_live_J:
  "fresh p cfg k \<Longrightarrow> config_ok cfg \<Longrightarrow> (\<And>r. J (IOLINK_DLL_STATE_STARTUP, IOLINK_BAUDRATE_COM2, 0, r)) \<Longrightarrow> live p J (g_stack k)"
  using fresh_live [of p cfg k] by (auto simp: live_def ctl_def)

section \<open>The application interface as a whole\<close>

text \<open>
  What an application or the surroundings do between two points in time: a call of the main
  loop or of any other entry point of the public headers that reads or changes the state of the
  stack, on the contexts the accessors return where the call takes one, or a change of the
  outside state (bytes arrive, time passes, the memory changes, another port is chosen).  The
  accessors above and the pure functions (CRC, checksum) need no step; the functions of
  \<^verbatim>\<open>dll.h\<close> and \<^verbatim>\<open>isdu.h\<close> take contexts the public API does not hand out.
\<close>

datatype 'w core_call =
    Init "'w iolink_phy_api ptr" "iolink_config ptr"
  | Process
  | PdInputUpdate "bytes ptr" nat bool
  | PdOutputRead "bytes ptr" nat
  | SetTimingEnforcement bool
  | SetTRenLimit u32
  | EventsInit
  | EventTrigger u16 iolink_event_type
  | EventPop
  | EventsPeek
  | EventsSeverity
  | EventsGetAll "iolink_event list ptr" u8
  | DsInit "storage_handle ptr"
  | DsCheck u16
  | DsProcess
  | DsStartUpload
  | DsStartDownload
  | DsAbort
  | DsCommand u8 u16
  | ParamsInit
  | ParamsGet u16 u8 "bytes ptr" nat
  | ParamsSet u16 u8 "bytes ptr" nat bool
  | FactoryReset
  | DeviceInfoInit "iolink_device_info ptr"
  | DeviceInfoGet
  | SetApplicationTag "bytes ptr" u8
  | GetAccessLocks
  | SetAccessLocks u16
  | Outside 'w

definition mod_events :: "(iolink_events_ctx \<Rightarrow> iolink_events_ctx option) \<Rightarrow> 'w core \<Rightarrow> 'w core option" where
  "mod_events f k =
     map_option (\<lambda>q. mod_stack (mod_dll (dll_events_update (\<lambda>_. q))) k) (f (iolink_get_events_ctx k))"

definition mod_ds :: "(iolink_ds_ctx \<Rightarrow> iolink_ds_ctx) \<Rightarrow> 'w core \<Rightarrow> 'w core" where
  "mod_ds f k = mod_stack (mod_dll (dll_ds_update (\<lambda>_. f (iolink_get_ds_ctx k)))) k"

definition mod_info :: "(device_info_state \<Rightarrow> device_info_state option) \<Rightarrow> 'w globals \<Rightarrow> 'w globals option" where
  "mod_info f g = map_option (\<lambda>i. g\<lparr>gl_info := i\<rparr>) (f (gl_info g))"

definition mod_globals :: "('w globals \<Rightarrow> 'w globals option) \<Rightarrow> 'w core \<Rightarrow> 'w core option" where
  "mod_globals f k = map_option (\<lambda>g. mod_stack (sk_globals_update (\<lambda>_. g)) k) (f (sk_globals (g_stack k)))"

fun core_exec :: "'w platform \<Rightarrow> 'w core_call \<Rightarrow> 'w core \<Rightarrow> 'w core option" where
  "core_exec plat (Init phy config) k = map_option snd (iolink_init plat phy config k)"
| "core_exec plat Process k = iolink_process plat k"
| "core_exec plat (PdInputUpdate data len valid) k = map_option snd (iolink_pd_input_update data len valid k)"
| "core_exec plat (PdOutputRead data len) k = map_option (\<lambda>_. k) (iolink_pd_output_read data len k)"
| "core_exec plat (SetTimingEnforcement b) k = Some (iolink_set_timing_enforcement b k)"
| "core_exec plat (SetTRenLimit l) k = Some (iolink_set_t_ren_limit_us l k)"
| "core_exec plat EventsInit k = mod_events (\<lambda>q. Some (deref (iolink_events_init (Ref q)))) k"
| "core_exec plat (EventTrigger code ty) k = mod_events (\<lambda>q. iolink_event_trigger q code ty) k"
| "core_exec plat EventPop k = mod_events (\<lambda>q. map_option snd (iolink_events_pop q)) k"
| "core_exec plat EventsPeek k = mod_events (\<lambda>q. map_option (\<lambda>_. q) (iolink_events_peek q)) k"
| "core_exec plat EventsSeverity k = mod_events (\<lambda>q. map_option (\<lambda>_. q) (iolink_events_get_highest_severity (Ref q))) k"
| "core_exec plat (EventsGetAll out n) k = mod_events (\<lambda>q. map_option (\<lambda>_. q) (iolink_events_get_all (Ref q) out n)) k"
| "core_exec plat (DsInit storage) k = Some (mod_ds (\<lambda>c. deref (iolink_ds_init (Ref c) storage)) k)"
| "core_exec plat (DsCheck ck) k = Some (mod_ds (\<lambda>c. iolink_ds_check c ck) k)"
| "core_exec plat DsProcess k = Some (mod_ds iolink_ds_process k)"
| "core_exec plat DsStartUpload k = Some (mod_ds (\<lambda>c. snd (iolink_ds_start_upload c)) k)"
| "core_exec plat DsStartDownload k = Some (mod_ds (\<lambda>c. snd (iolink_ds_start_download c)) k)"
| "core_exec plat DsAbort k = Some (mod_ds (\<lambda>c. snd (iolink_ds_abort c)) k)"
| "core_exec plat (DsCommand cmd locks) k = Some (mod_ds (\<lambda>c. snd (iolink_ds_handle_command c cmd locks)) k)"
| "core_exec plat ParamsInit k = mod_globals (iolink_params_init plat) k"
| "core_exec plat (ParamsGet i sub buf n) k =
     mod_globals (\<lambda>g. map_option (\<lambda>(_, _, g). g) (iolink_params_get i sub buf n g)) k"
| "core_exec plat (ParamsSet i sub data len persist) k =
     mod_globals (\<lambda>g. map_option snd (iolink_params_set plat i sub data len persist g)) k"
| "core_exec plat FactoryReset k = mod_globals (iolink_params_factory_reset plat) k"
| "core_exec plat (DeviceInfoInit info) k = mod_globals (mod_info (\<lambda>s. Some (iolink_device_info_init info s))) k"
| "core_exec plat DeviceInfoGet k = mod_globals (mod_info (\<lambda>s. Some (snd (iolink_device_info_get s)))) k"
| "core_exec plat (SetApplicationTag tag len) k =
     mod_globals (mod_info (\<lambda>s. map_option snd (iolink_device_info_set_application_tag tag len s))) k"
| "core_exec plat GetAccessLocks k = mod_globals (mod_info (\<lambda>s. Some (snd (iolink_device_info_get_access_locks s)))) k"
| "core_exec plat (SetAccessLocks l) k = mod_globals (mod_info (\<lambda>s. Some (iolink_device_info_set_access_locks l s))) k"
| "core_exec plat (Outside w) k = Some (mod_stack (set_world w) k)"

text \<open>
  The callers' side of the contract.  A buffer that is passed is at least as long as the length
  given with it, and a device record names terminated strings only.  A call that reads the stored
  record finds a sane one; a further initialisation is on the PHY of the first one, with process
  data lengths that fit the buffers.
\<close>

definition buf_ok :: "'a list ptr \<Rightarrow> nat \<Rightarrow> bool" where
  "buf_ok data len \<longleftrightarrow> (case data of NULL \<Rightarrow> True | Ref d \<Rightarrow> len \<le> length d)"

definition init_ok :: "'w platform \<Rightarrow> 'w iolink_phy_api \<Rightarrow> 'w iolink_phy_api ptr \<Rightarrow> iolink_config ptr \<Rightarrow> 'w \<Rightarrow> bool" where
  "init_ok plat phy p config w \<longleftrightarrow>
     p = NULL \<or> p = Ref phy \<and> (case config of NULL \<Rightarrow> True | Ref cfg \<Rightarrow> config_ok cfg) \<and>
       (phy_starts phy w \<longrightarrow> nvm_sane plat (boot_world phy w))"

fun call_ok :: "'w platform \<Rightarrow> 'w iolink_phy_api \<Rightarrow> 'w core_call \<Rightarrow> 'w core \<Rightarrow> bool" where
  "call_ok plat phy (Init p config) k = init_ok plat phy p config (world (g_stack k))"
| "call_ok plat phy (PdInputUpdate data len valid) k = buf_ok data len"
| "call_ok plat phy (PdOutputRead data len) k = buf_ok data len"
| "call_ok plat phy (EventsGetAll out n) k = buf_ok out (unat n)"
| "call_ok plat phy ParamsInit k = nvm_sane plat (world (g_stack k))"
| "call_ok plat phy (ParamsGet i sub buf n) k = buf_ok buf n"
| "call_ok plat phy (ParamsSet i sub data len persist) k = buf_ok data len"
| "call_ok plat phy (DeviceInfoInit info) k = (case info of NULL \<Rightarrow> True | Ref i \<Rightarrow> info_wf i)"
| "call_ok plat phy (SetApplicationTag tag len) k = buf_ok tag (unat len)"
| "call_ok plat phy _ k = True"

definition restarts :: "'w core_call \<Rightarrow> bool" where
  "restarts c \<longleftrightarrow> (case c of Init p config \<Rightarrow> True | _ \<Rightarrow> False)"

definition run_call :: "'w platform \<Rightarrow> 'w iolink_phy_api \<Rightarrow> 'w core_call \<Rightarrow> 'w core \<Rightarrow> bool" where
  "run_call plat phy c k \<longleftrightarrow> call_ok plat phy c k \<and> \<not> restarts c"

text \<open>A sequence of calls, each of them among those \<open>ok\<close> allows in the state it finds.\<close>

inductive core_reaches :: "'w platform \<Rightarrow> ('w core_call \<Rightarrow> 'w core \<Rightarrow> bool) \<Rightarrow> 'w core \<Rightarrow> 'w core \<Rightarrow> bool" for plat ok where
  refl: "core_reaches plat ok k k"
| step: "core_reaches plat ok k k1 \<Longrightarrow> ok c k1 \<Longrightarrow> core_exec plat c k1 = Some k2 \<Longrightarrow> core_reaches plat ok k k2"

lemma live_mod_dll:
  assumes "live p J s" and "dll_wf (sk_dll s) \<Longrightarrow> dll_wf (f (sk_dll s))"
    and "dll_phy (f (sk_dll s)) = dll_phy (sk_dll s)" and "ctl (f (sk_dll s)) = ctl (sk_dll s)"
  shows "live p J (mod_dll f s)"
  using assms by (simp add: live_def stack_wf_def)

lemma live_globals:
  "live p J s \<Longrightarrow> globals_wf g \<Longrightarrow> live p J (s\<lparr>sk_globals := g\<rparr>)"
  by (simp add: live_def stack_wf_def)

lemma live_set_world: "live p J s \<Longrightarrow> live p J (set_world w s)"
  by (simp add: live_def stack_wf_def)

lemma liveD:
  assumes "live p J s"
  shows "dll_wf (sk_dll s)" "globals_wf (sk_globals s)" "events_wf (dll_events (sk_dll s))"
  using assms by (simp_all add: live_def stack_wf_def dll_wf_def)

lemma mod_stack_simps [simp]:
  "g_stack (mod_stack f k) = f (g_stack k)" "g_config (mod_stack f k) = g_config k"
  by (simp_all add: mod_stack_def)

lemma pd_input_update_law:
  assumes "length (dll_pd_in (sk_dll (g_stack k))) = 32" and "len \<le> length d"
  shows "iolink_pd_input_update (Ref d) len valid k =
     (if len > 32 then Some (-1, k)
      else Some (0, mod_stack (mod_dll (\<lambda>c. c\<lparr>dll_pd_in := take len d @ drop len (dll_pd_in c),
             dll_pd_in_len := word_of_nat len, dll_pd_valid := valid, dll_pd_in_toggle := \<not> dll_pd_in_toggle c\<rparr>)) k))"
  using assms by (simp add: iolink_pd_input_update_def mod_stack_def mod_dll_def memcpy_def)

lemma pd_output_read_law:
  assumes "unat (dll_pd_out_len (sk_dll (g_stack k))) \<le> 32" and "length (dll_pd_out (sk_dll (g_stack k))) = 32"
    and "len \<le> length d"
  defines "n \<equiv> min len (unat (dll_pd_out_len (sk_dll (g_stack k))))"
  shows "iolink_pd_output_read (Ref d) len k =
     Some (int n, Ref (take n (dll_pd_out (sk_dll (g_stack k))) @ drop n d))"
  using assms(1-3) by (auto simp: iolink_pd_output_read_def Let_def n_def min_def memcpy_def)

lemma live_events:
  assumes "live p J (g_stack k)" and "\<And>q. events_wf q \<Longrightarrow> runs (f q) events_wf"
  shows "runs (mod_events f k) (\<lambda>k'. live p J (g_stack k'))"
  unfolding mod_events_def runs_map_option iolink_get_events_ctx_def
  by (rule runs_mono [OF assms(2) [OF liveD(3) [OF assms(1)]]])
     (auto intro!: live_mod_dll [OF assms(1)] simp: ctx_upd)

lemma live_ds:
  "live p J (g_stack k) \<Longrightarrow> live p J (g_stack (mod_ds f k))"
  by (auto simp: mod_ds_def ctx_upd intro!: live_mod_dll)

lemma live_mod_globals:
  assumes "live p J (g_stack k)" and "\<And>g. globals_wf g \<Longrightarrow> runs (f g) globals_wf"
  shows "runs (mod_globals f k) (\<lambda>k'. live p J (g_stack k'))"
  unfolding mod_globals_def runs_map_option
  by (rule runs_mono [OF assms(2) [OF liveD(2) [OF assms(1)]]])
     (auto intro!: live_globals [OF assms(1)])

text \<open>The groups of calls: on the queue, on the device record, on the parameters, the two on process data.\<close>

lemma events_calls_wf:
  assumes "events_wf q"
  shows "events_wf (deref (iolink_events_init (Ref q)))"
    "runs (map_option snd (iolink_events_pop q)) events_wf"
    "runs (map_option (\<lambda>_. q) (iolink_events_peek q)) events_wf"
    "runs (map_option (\<lambda>_. q) (iolink_events_get_highest_severity (Ref q))) events_wf"
    "buf_ok out (unat n) \<Longrightarrow> runs (map_option (\<lambda>_. q) (iolink_events_get_all (Ref q) out n)) events_wf"
proof -
  show "events_wf (deref (iolink_events_init (Ref q)))" by (simp add: iolink_events_init_def iolink_ctx_zero_def)
  show "runs (map_option snd (iolink_events_pop q)) events_wf"
    unfolding runs_map_option by (rule runs_mono [OF iolink_events_pop_law [OF assms]]) auto
  show "runs (map_option (\<lambda>_. q) (iolink_events_peek q)) events_wf"
    "runs (map_option (\<lambda>_. q) (iolink_events_get_highest_severity (Ref q))) events_wf"
    using assms by (simp_all add: iolink_events_peek_eq iolink_events_get_highest_severity_eq)
  show "runs (map_option (\<lambda>_. q) (iolink_events_get_all (Ref q) out n)) events_wf" if "buf_ok out (unat n)"
    using that assms
    by (cases out) (simp_all add: buf_ok_def iolink_events_get_all_eq [OF assms] min.coboundedI2, simp add: iolink_events_get_all_def)
qed

lemma info_calls_wf:
  assumes "devinfo_wf s"
  shows "(\<And>i. info = Ref i \<Longrightarrow> info_wf i) \<Longrightarrow> devinfo_wf (iolink_device_info_init info s)"
    "devinfo_wf (snd (iolink_device_info_get s))" "devinfo_wf (snd (iolink_device_info_get_access_locks s))"
    "devinfo_wf (iolink_device_info_set_access_locks l s)"
    "buf_ok tag (unat len) \<Longrightarrow> runs (map_option snd (iolink_device_info_set_application_tag tag len s)) devinfo_wf"
proof -
  show get: "devinfo_wf (snd (iolink_device_info_get s))"
    using iolink_device_info_get_wf [OF assms] by (metis prod.collapse)
  then show "devinfo_wf (snd (iolink_device_info_get_access_locks s))"
    by (simp add: iolink_device_info_get_access_locks_def split_def)
  show "runs (map_option snd (iolink_device_info_set_application_tag tag len s)) devinfo_wf" if "buf_ok tag (unat len)"
  proof (cases tag)
    case (Ref t)
    then show ?thesis
      using that set_application_tag_wf [OF assms, of tag "unat len" len] by (simp add: buf_ok_def data_ok_def split_def)
  qed (simp add: iolink_device_info_set_application_tag_def assms)
qed (simp_all add: assms iolink_device_info_init_wf iolink_device_info_set_access_locks_wf)

lemma params_calls_wf:
  assumes "globals_wf g"
  shows "buf_ok buf n \<Longrightarrow> runs (map_option (\<lambda>(_, _, g). g) (iolink_params_get i sub buf n g)) globals_wf"
    "buf_ok data len \<Longrightarrow> runs (map_option snd (iolink_params_set plat i sub data len persist g)) globals_wf"
    "runs (iolink_params_factory_reset plat g) globals_wf"
proof -
  show "runs (map_option (\<lambda>(_, _, g). g) (iolink_params_get i sub buf n g)) globals_wf" if "buf_ok buf n"
    using iolink_params_get_wf [OF assms, of buf n i sub] that
    by (auto simp: buf_ok_def runs_map_option split: ptr.splits elim!: runs_mono)
  show "runs (map_option snd (iolink_params_set plat i sub data len persist g)) globals_wf" if "buf_ok data len"
  proof (cases "data_ok data len")
    case True
    then show ?thesis
      unfolding runs_map_option by (intro runs_mono [OF iolink_params_set_wf [OF assms]]) auto
  next
    case False
    with that have "iolink_params_set plat i sub data len persist g = Some (-1, g)"
      by (auto simp: buf_ok_def data_ok_def iolink_params_set_def iolink_buf_is_valid_def split: ptr.splits)
    then show ?thesis using assms by simp
  qed
  show "runs (iolink_params_factory_reset plat g) globals_wf"
    by (rule runs_mono [OF iolink_params_factory_reset_law [OF assms]]) simp
qed

lemma live_mod_info:
  assumes "live p J (g_stack k)" and "\<And>s. devinfo_wf s \<Longrightarrow> runs (f s) devinfo_wf"
  shows "runs (mod_globals (mod_info f) k) (\<lambda>k'. live p J (g_stack k'))"
  by (rule live_mod_globals [OF assms(1)])
     (auto simp: mod_info_def runs_map_option globals_wf_def intro!: runs_mono [OF assms(2)])

lemma live_pd_input:
  assumes "live p J (g_stack k)" and "buf_ok data len"
  shows "runs (iolink_pd_input_update data len valid k) (\<lambda>(r, k'). live p J (g_stack k'))"
proof (cases data)
  case (Ref d)
  moreover have "length (dll_pd_in (sk_dll (g_stack k))) = 32" using liveD(1) [OF assms(1)] by (simp add: dll_wf_def)
  ultimately show ?thesis
    using assms by (auto simp: pd_input_update_law buf_ok_def ctx_upd intro!: live_mod_dll)
qed (use assms in \<open>simp add: iolink_pd_input_update_def\<close>)

lemma live_pd_output:
  assumes "live p J (g_stack k)" and "buf_ok data len"
  shows "runs (iolink_pd_output_read data len k) (\<lambda>_. True)"
  using assms pd_output_read_law [of k len] liveD(1) [OF assms(1)]
  by (cases data) (simp_all add: buf_ok_def dll_wf_def, simp add: iolink_pd_output_read_def)

text \<open>
  A further initialisation: it fails and leaves the link as it was, or the link starts again, in
  start-up at COM2.
\<close>

definition default_config :: iolink_config where
  "default_config = zero_config\<lparr>cfg_m_seq_type := IOLINK_M_SEQ_TYPE_0, cfg_min_cycle_time := 0\<rparr>"

lemma iolink_init_default: "iolink_init plat p NULL k = iolink_init plat p (Ref default_config) k"
proof -
  have "core_store_config NULL k = core_store_config (Ref default_config) k"
    by (simp add: core_store_config_def default_config_def)
  then show ?thesis unfolding iolink_init_def by (cases p) simp_all
qed

lemma iolink_init_fails:
  assumes "\<not> phy_starts p (world (g_stack k))"
  shows "\<exists>f. phy_init p = Ref f \<and> iolink_init plat (Ref p) (Ref cfg) k =
     Some (fst (f (world (g_stack k))), mod_stack (set_world (snd (f (world (g_stack k))))) (k\<lparr>g_config := cfg\<rparr>))"
  using assms by (auto simp: phy_starts_def iolink_init_def core_phy_init_def core_store_config_def split_def split: ptr.splits)

lemma live_init:
  assumes "live phy J (g_stack k)" and "init_ok plat phy p config (world (g_stack k))"
    and "\<And>r. J (IOLINK_DLL_STATE_STARTUP, IOLINK_BAUDRATE_COM2, 0, r)"
  shows "runs (iolink_init plat p config k) (\<lambda>(r, k'). live phy J (g_stack k'))"
proof (cases p)
  case NULL
  then show ?thesis using assms(1) by (simp add: iolink_init_def)
next
  case (Ref q)
  define cfg where "cfg = (case config of NULL \<Rightarrow> default_config | Ref cfg \<Rightarrow> cfg)"
  have init: "iolink_init plat p config k = iolink_init plat (Ref phy) (Ref cfg) k"
    using assms(2) Ref iolink_init_default by (cases config) (auto simp: init_ok_def cfg_def)
  have cfg: "config_ok cfg"
    using assms(2) Ref by (auto simp: init_ok_def cfg_def config_ok_def default_config_def zero_config_def split: ptr.splits)
  show ?thesis
  proof (cases "phy_starts phy (world (g_stack k))")
    case True
    then have "nvm_sane plat (boot_world phy (world (g_stack k)))" using assms(2) Ref by (simp add: init_ok_def)
    then show ?thesis
      unfolding init using liveD(2) [OF assms(1)] True fresh_live_J [OF _ cfg] assms(3)
      by (auto intro!: runs_mono [OF iolink_init_law])
  next
    case False
    from iolink_init_fails [OF this, of plat cfg] assms(1) show ?thesis
      unfolding init by (auto intro: live_set_world)
  qed
qed

context link_inv
begin

text \<open>
  Every legal call returns, and keeps the invariant; a further initialisation keeps one that holds
  of the state after start-up.
\<close>

lemma core_exec_live:
  assumes "live phy J (g_stack k)" and "call_ok plat phy c k"
    and "restarts c \<Longrightarrow> \<forall>r. J (IOLINK_DLL_STATE_STARTUP, IOLINK_BAUDRATE_COM2, 0, r)"
  shows "runs (core_exec plat c k) (\<lambda>k'. live phy J (g_stack k'))"
proof (cases c)
  case (Init p config)
  then show ?thesis
    using live_init [OF assms(1), of plat p config] assms(2,3) by (simp add: restarts_def split_def)
next
  case Process
  then show ?thesis
    using dll_process_live [OF assms(1)] by (simp add: iolink_process_def)
next
  case (PdInputUpdate data len valid)
  then show ?thesis
    using live_pd_input [OF assms(1), of data len valid] assms(2) by (simp add: split_def)
next
  case (PdOutputRead data len)
  then show ?thesis
    using live_pd_output [OF assms(1), of data len] assms(1,2) by (auto elim!: runs_mono)
next
  case ParamsInit
  then show ?thesis
    using assms(1,2) by (auto simp: mod_globals_def runs_map_option world_def
        intro!: runs_mono [OF iolink_params_init_wf [OF liveD(2) [OF assms(1)]]] live_globals)
next
  case (SetTimingEnforcement b)
  then show ?thesis
    using assms(1) by (auto simp: iolink_set_timing_enforcement_def iolink_dll_set_timing_enforcement_def ctx_upd intro!: live_mod_dll)
next
  case (SetTRenLimit l)
  then show ?thesis
    using assms(1) by (auto simp: iolink_set_t_ren_limit_us_def iolink_dll_set_t_ren_limit_us_def ctx_upd intro!: live_mod_dll)
qed (use assms(1,2) in \<open>auto intro!: live_ds live_set_world live_events live_mod_globals live_mod_info
      events_calls_wf info_calls_wf params_calls_wf iolink_event_trigger_wf\<close>)

lemma core_reaches_live:
  assumes "core_reaches plat (call_ok plat phy) k k'" and "live phy J (g_stack k)"
    and "\<And>r. J (IOLINK_DLL_STATE_STARTUP, IOLINK_BAUDRATE_COM2, 0, r)"
  shows "live phy J (g_stack k')"
  using assms(1,2)
proof (induction rule: core_reaches.induct)
  case (step k k1 c k2)
  with core_exec_live [of k1 c] assms(3) show ?case by simp
qed

lemma core_runs_live:
  "core_reaches plat (run_call plat phy) k k' \<Longrightarrow> live phy J (g_stack k) \<Longrightarrow> live phy J (g_stack k')"
proof (induction rule: core_reaches.induct)
  case (step k k1 c k2)
  with core_exec_live [of k1 c] show ?case by (simp add: run_call_def)
qed

end

text \<open>The instances for the control invariants of the data link layer.\<close>

context link_env
begin

lemma exec_safe:
  "live phy (\<lambda>_. True) (g_stack k) \<Longrightarrow> call_ok plat phy c k \<Longrightarrow> runs (core_exec plat c k) (\<lambda>k'. live phy (\<lambda>_. True) (g_stack k'))"
  by (rule always.core_exec_live) simp_all

lemmas reaches_safe = always.core_reaches_live
lemmas reaches_no_fallback = nofb.core_reaches_live
lemmas runs_com1 = com1.core_runs_live
lemmas runs_slow = slow.core_runs_live

end

section \<open>Correctness of the stack\<close>

lemma virtual_env: "link_env linux_platform iolink_phy_virtual_get (\<lambda>w. length (line_in w))"
  by (rule virtual_link.link_env_axioms)

definition demo_config :: iolink_config where
  "demo_config = \<lparr>cfg_m_seq_type = 1, cfg_min_cycle_time = 10, cfg_pd_in_len = 1, cfg_pd_out_len = 1, cfg_t_pd_us = 0\<rparr>"

lemma linux_nvm_sane_blank: "linux_nvm_blank w \<Longrightarrow> nvm_sane linux_platform w"
  by (auto simp: nvm_sane_def linux_platform_def linux_nvm_read_def linux_nvm_blank_def iolink_buf_is_valid_def Let_def
      split: if_splits)

lemma demo_boot:
  "phy_starts iolink_phy_virtual_get demo_world" "config_ok demo_config"
  "nvm_sane linux_platform (boot_world iolink_phy_virtual_get demo_world)"
proof -
  show "phy_starts iolink_phy_virtual_get demo_world" "config_ok demo_config"
    by (simp_all add: phy_starts_def iolink_phy_virtual_get_def virtual_init_def demo_world_def config_ok_def demo_config_def)
  have "linux_nvm_blank (boot_world iolink_phy_virtual_get demo_world)"
    by (simp add: linux_nvm_blank_def boot_world_def iolink_phy_virtual_get_def virtual_init_def demo_world_def
        virtual_set_mode_def virtual_set_baudrate_def Let_def)
  then show "nvm_sane linux_platform (boot_world iolink_phy_virtual_get demo_world)" by (rule linux_nvm_sane_blank)
qed

lemma core_static_wf: "globals_wf (sk_globals (g_stack (core_static w)))" "world (g_stack (core_static w)) = w"
  by (simp_all add: core_static_def globals_wf_static world_def, simp add: globals_static_def)

lemma init_static_law:
  assumes "phy_starts p w" and "nvm_sane plat (boot_world p w)"
  shows "runs (iolink_init plat (Ref p) (Ref cfg) (core_static w)) (\<lambda>(r, k). r = 0 \<and> fresh p cfg k \<and> g_config k = cfg)"
  by (rule iolink_init_law) (use assms in \<open>simp_all add: core_static_wf\<close>)

text \<open>
  C34: Start-up.  If the PHY's own initialisation succeeds and the stored record is sane, the stack
  starts: the call returns 0, the link is in start-up at COM2 in SIO mode with no open frame, and
  the M-sequence type and process data lengths are those of the configuration.  If the PHY
  reports an error, that error is returned and the link stays unbound, so that the main loop
  does nothing.
\<close>

theorem core_init:
  assumes "nvm_sane plat (boot_world p w)"
  shows "runs (iolink_init plat (Ref p) (Ref cfg) (core_static w))
    (\<lambda>(r, k). if phy_starts p w then r = 0 \<and> fresh p cfg k
       else (\<exists>f. phy_init p = Ref f \<and> r = fst (f w)) \<and> iolink_process plat k = Some k)"
proof (cases "phy_starts p w")
  case True
  then show ?thesis
    by (intro runs_mono [OF init_static_law [OF True assms]]) auto
next
  case False
  then obtain f w' err where f: "phy_init p = Ref f" "f w = (err, w')" "err \<noteq> 0"
    by (cases "phy_init p") (auto simp: phy_starts_def, metis prod.collapse)
  have "dll_phy (sk_dll (g_stack (core_static w))) = NULL"
    by (simp add: core_static_def zero_dll_ctx_def)
  then show ?thesis
    using False f
    by (simp add: iolink_init_def core_phy_init_def core_store_config_def core_static_wf(2) iolink_process_def
        iolink_dll_process_def core_static_wf [unfolded core_static_def])
qed

lemma core_init_witness:
  "runs (iolink_init linux_platform (Ref iolink_phy_virtual_get) (Ref demo_config) (core_static demo_world))
    (\<lambda>(r, k). r = 0 \<and> fresh iolink_phy_virtual_get demo_config k)"
  using core_init [OF demo_boot(3)] demo_boot(1) by simp

text \<open>
  C1: The stack is memory safe and its main loop terminates.  Start it with a configuration whose
  process data lengths fit the buffers.  Then after any sequence of API calls, further
  initialisations included, and changes outside, with any bytes on the line, every further legal
  call returns: no access outside an array, no unterminated string, no NULL dereference, no
  endless receive loop.  The invariant holds again afterwards.
\<close>

theorem core_safe:
  assumes "link_env plat phy backlog" and "config_ok cfg" and "phy_starts phy w" and "nvm_sane plat (boot_world phy w)"
  shows "runs (iolink_init plat (Ref phy) (Ref cfg) (core_static w)) (\<lambda>(r, k0). r = 0 \<and>
     (\<forall>k c. core_reaches plat (call_ok plat phy) k0 k \<longrightarrow> call_ok plat phy c k \<longrightarrow>
        runs (core_exec plat c k) (\<lambda>k'. stack_wf (g_stack k'))))"
proof -
  have "runs (core_exec plat c k) (\<lambda>k'. stack_wf (g_stack k'))"
    if "fresh phy cfg k0" "core_reaches plat (call_ok plat phy) k0 k" "call_ok plat phy c k" for k0 k c
  proof -
    have "live phy (\<lambda>_. True) (g_stack k)"
      by (rule link_env.reaches_safe [OF assms(1) that(2) fresh_live_J [OF that(1) assms(2)]]) simp_all
    from link_env.exec_safe [OF assms(1) this that(3)] show ?thesis
      by (rule runs_mono) (simp add: live_def)
  qed
  then show ?thesis
    by (auto intro!: runs_mono [OF init_static_law [OF assms(3,4)]])
qed

lemma core_safe_witness:
  "runs (iolink_init linux_platform (Ref iolink_phy_virtual_get) (Ref demo_config) (core_static demo_world)) (\<lambda>(r, k0). r = 0 \<and>
     (\<forall>k. core_exec linux_platform (SetApplicationTag (Ref [65]) 1) k0 = Some k \<longrightarrow>
        runs (core_exec linux_platform Process k) (\<lambda>k'. stack_wf (g_stack k'))))"
proof (rule runs_mono [OF core_safe [OF virtual_env demo_boot(2,1,3)]], clarsimp simp del: core_exec.simps)
  fix k0 k
  assume safe: "\<forall>k. core_reaches linux_platform (call_ok linux_platform iolink_phy_virtual_get) k0 k \<longrightarrow>
      (\<forall>c. call_ok linux_platform iolink_phy_virtual_get c k \<longrightarrow> runs (core_exec linux_platform c k) (\<lambda>k'. stack_wf (g_stack k')))"
    and k: "core_exec linux_platform (SetApplicationTag (Ref [65]) 1) k0 = Some k"
  have "core_reaches linux_platform (call_ok linux_platform iolink_phy_virtual_get) k0 k"
    by (rule core_reaches.step [OF core_reaches.refl _ k]) (simp add: buf_ok_def)
  then show "runs (core_exec linux_platform Process k) (\<lambda>k'. stack_wf (g_stack k'))"
    using safe by (simp del: core_exec.simps)
qed

text \<open>
  The enumerated state FALLBACK is never entered: after a start-up no sequence of calls leads
  to it, although the fallback handling exists.
\<close>

theorem core_no_fallback_state:
  assumes "link_env plat phy backlog" and "config_ok cfg" and "phy_starts phy w" and "nvm_sane plat (boot_world phy w)"
  shows "runs (iolink_init plat (Ref phy) (Ref cfg) (core_static w)) (\<lambda>(r, k0).
     \<forall>k. core_reaches plat (call_ok plat phy) k0 k \<longrightarrow> iolink_get_state k \<noteq> IOLINK_DLL_STATE_FALLBACK)"
proof -
  have "iolink_get_state k \<noteq> IOLINK_DLL_STATE_FALLBACK" if "fresh phy cfg k0" "core_reaches plat (call_ok plat phy) k0 k" for k0 k
    using link_env.reaches_no_fallback [OF assms(1) that(2) fresh_live_J [OF that(1) assms(2)]]
    by (simp add: no_fallback_state_def live_def ctl_def iolink_get_state_def)
  then show ?thesis
    by (auto intro!: runs_mono [OF init_static_law [OF assms(3,4)]])
qed

lemma core_no_fallback_state_witness:
  "runs (iolink_init linux_platform (Ref iolink_phy_virtual_get) (Ref demo_config) (core_static demo_world)) (\<lambda>(r, k0).
     iolink_get_state k0 \<noteq> IOLINK_DLL_STATE_FALLBACK)"
  by (rule runs_mono [OF core_no_fallback_state [OF virtual_env demo_boot(2,1,3)]]) (auto intro: core_reaches.refl)

text \<open>
  C25: A link that has fallen back to COM1 outside OPERATE operates again only after a new
  initialisation.  At COM1 the layer expects two bytes in every frame, OPERATE needs a longer one,
  and no call but \<^verbatim>\<open>iolink_init\<close> raises the baudrate: from such a state, with no frame open, no sequence of
  other calls and received bytes leads to OPERATE or away from COM1.  In every state reached, a
  new \<^verbatim>\<open>iolink_init\<close> that finds the PHY working and a sane record sets the link back to start-up at COM2.
\<close>

theorem core_com1_never_operates:
  assumes "link_env plat phy backlog" and "stack_wf (g_stack k)" and "dll_phy (sk_dll (g_stack k)) = Ref phy"
    and "iolink_get_baudrate k = IOLINK_BAUDRATE_COM1" and "iolink_get_state k \<noteq> IOLINK_DLL_STATE_OPERATE"
    and "dll_frame_index (sk_dll (g_stack k)) = 0" and "core_reaches plat (run_call plat phy) k k'"
  shows "iolink_get_baudrate k' = IOLINK_BAUDRATE_COM1 \<and> iolink_get_state k' \<noteq> IOLINK_DLL_STATE_OPERATE \<and>
     (phy_starts phy (world (g_stack k')) \<and> nvm_sane plat (boot_world phy (world (g_stack k'))) \<longrightarrow>
        runs (iolink_init plat (Ref phy) (Ref cfg) k') (\<lambda>(r, k2). r = 0 \<and>
          iolink_get_baudrate k2 = IOLINK_BAUDRATE_COM2 \<and> iolink_get_state k2 = IOLINK_DLL_STATE_STARTUP))"
proof -
  have "live phy com1_only (g_stack k)"
    using assms(2-6) by (simp add: live_def com1_only_def ctl_def iolink_get_baudrate_def iolink_get_state_def)
  from link_env.runs_com1 [OF assms(1,7) this] have k': "live phy com1_only (g_stack k')" .
  then have "iolink_get_baudrate k' = IOLINK_BAUDRATE_COM1 \<and> iolink_get_state k' \<noteq> IOLINK_DLL_STATE_OPERATE"
    by (simp add: live_def com1_only_def ctl_def iolink_get_baudrate_def iolink_get_state_def)
  then show ?thesis
    using liveD(2) [OF k']
    by (auto simp: fresh_def Let_def iolink_get_baudrate_def iolink_get_state_def intro!: runs_mono [OF iolink_init_law])
qed

text \<open>
  No call but a new initialisation raises the baudrate: whatever else the application calls and
  whatever arrives on the line, the rate of the link afterwards is at most the rate before.
\<close>

theorem core_baudrate_never_rises:
  assumes "link_env plat phy backlog" and "stack_wf (g_stack k)" and "dll_phy (sk_dll (g_stack k)) = Ref phy"
    and "core_reaches plat (run_call plat phy) k k'"
  shows "iolink_get_baudrate k' \<le> iolink_get_baudrate k"
proof -
  have "live phy (at_most (iolink_get_baudrate k)) (g_stack k)"
    using assms(2,3) by (simp add: live_def at_most_def ctl_def iolink_get_baudrate_def)
  from link_env.runs_slow [OF assms(1,4) this] show ?thesis
    by (simp add: live_def at_most_def ctl_def iolink_get_baudrate_def)
qed

definition stuck_core :: "host_world core" where
  "stuck_core =
     \<lparr>g_stack = mod_dll (\<lambda>c. c\<lparr>dll_baudrate := IOLINK_BAUDRATE_COM1, dll_state := IOLINK_DLL_STATE_STARTUP, dll_frame_index := 0\<rparr>)
        (demo_stack demo_frame), g_config = demo_config\<rparr>"

lemma stuck_core_simps:
  "stack_wf (g_stack stuck_core)" "dll_phy (sk_dll (g_stack stuck_core)) = Ref iolink_phy_virtual_get"
  "iolink_get_baudrate stuck_core = IOLINK_BAUDRATE_COM1" "iolink_get_state stuck_core \<noteq> IOLINK_DLL_STATE_OPERATE"
  "dll_frame_index (sk_dll (g_stack stuck_core)) = 0"
proof -
  have "dll_wf (sk_dll (demo_stack demo_frame))" by (rule demo_stack_wf) (simp_all add: demo_frame_valid)
  moreover have "globals_wf (sk_globals (demo_stack demo_frame))" by (simp add: demo_stack_def globals_wf_static)
  ultimately show "stack_wf (g_stack stuck_core)" by (simp add: stack_wf_def stuck_core_def dll_wf_def)
  show "dll_phy (sk_dll (g_stack stuck_core)) = Ref iolink_phy_virtual_get" by (simp add: stuck_core_def demo_stack_def)
qed (simp_all add: stuck_core_def iolink_get_baudrate_def iolink_get_state_def)

text \<open>Bytes arrive that would wake the device up and ask for OPERATE, and the main loop runs.\<close>

definition stuck_world :: host_world where
  "stuck_world = demo_world\<lparr>line_in := [0x55, 0x0F, crc6 [0x0F, 0], 0x0F, crc6 [0x0F, 0]]\<rparr>"

lemma stuck_core_process:
  "\<exists>k'. core_exec linux_platform Process (mod_stack (set_world stuck_world) stuck_core) = Some k' \<and>
     core_reaches linux_platform (run_call linux_platform iolink_phy_virtual_get) stuck_core k'"
proof -
  let ?k = "mod_stack (set_world stuck_world) stuck_core"
  have reach: "core_reaches linux_platform (run_call linux_platform iolink_phy_virtual_get) stuck_core ?k"
    by (rule core_reaches.step [OF core_reaches.refl, of _ "Outside stuck_world"]) (simp_all add: run_call_def restarts_def)
  have "live iolink_phy_virtual_get (\<lambda>_. True) (g_stack ?k)"
    using stuck_core_simps by (simp add: live_def stack_wf_def)
  from virtual_link.exec_safe [OF this, of Process] obtain k' where k': "core_exec linux_platform Process ?k = Some k'"
    by (auto elim!: runsE)
  show ?thesis
    using core_reaches.step [OF reach _ k'] k' by (auto simp: run_call_def restarts_def simp del: core_exec.simps)
qed

lemma core_baudrate_never_rises_witness:
  "runs (core_exec linux_platform Process (mod_stack (set_world stuck_world) stuck_core))
     (\<lambda>k'. iolink_get_baudrate k' \<le> iolink_get_baudrate stuck_core)"
  using stuck_core_process core_baudrate_never_rises [OF virtual_env stuck_core_simps(1,2)] by (auto simp del: core_exec.simps)

lemma core_com1_never_operates_witness:
  "runs (core_exec linux_platform Process (mod_stack (set_world stuck_world) stuck_core))
     (\<lambda>k'. iolink_get_baudrate k' = IOLINK_BAUDRATE_COM1 \<and> iolink_get_state k' \<noteq> IOLINK_DLL_STATE_OPERATE)"
  using stuck_core_process core_com1_never_operates [OF virtual_env stuck_core_simps] by (auto simp del: core_exec.simps)

text \<open>
  C13: One cycle of process data, from application to application.  The application hands over new
  input data of the configured length; the device is in OPERATE on the virtual line and a good
  frame on an allowed channel is complete.  Then the response on the line carries exactly that
  data after a status byte with the given validity flag and the flipped toggle flag, and reading
  the output data afterwards returns the process data bytes of the received frame.
\<close>

theorem core_pd_exchange:
  fixes k :: "host_world core"
  defines "c \<equiv> sk_dll (g_stack k)"
  assumes "dll_wf c" and "dll_frame_index c \<noteq> 0" and "dll_phy c = Ref iolink_phy_virtual_get"
    and "link_up (world (g_stack k))" and "dll_state c = IOLINK_DLL_STATE_OPERATE" and "dll_req_len c \<noteq> 2"
    and "frame_valid (received_frame c)" and "received_frame c ! 0 \<noteq> IOLINK_MC_TRANSITION_COMMAND"
    and "\<not> forbidden_channel (received_frame c ! 0)"
    and "length d = unat (dll_pd_in_len_current c)" and "dll_pd_out_len c = dll_pd_out_len_current c"
    and "unat (dll_pd_out_len c) \<le> length buf"
  shows "runs (do {
       (r, k1) \<leftarrow> iolink_pd_input_update (Ref d) (length d) valid k;
       s \<leftarrow> dll_frame_complete linux_platform (g_stack k1);
       (n, out) \<leftarrow> iolink_pd_output_read (Ref buf) (length buf) (k1\<lparr>g_stack := s\<rparr>);
       Some (r, n, out, line_out (world s)) })
    (\<lambda>(r, n, out, line). let m = unat (dll_pd_out_len c) in
       r = 0 \<and> n = int m \<and> out = Ref (take m (drop 2 (dll_frame_buf c)) @ drop m buf) \<and>
       (\<exists>st rest. line = line_out (world (g_stack k)) @ st # d @ rest \<and>
          (bit st 5 \<longleftrightarrow> valid) \<and> (bit st 6 \<longleftrightarrow> \<not> dll_pd_in_toggle c)))"
proof -
  define u where "u = (\<lambda>c :: host_world iolink_dll_ctx. c\<lparr>dll_pd_in := d @ drop (length d) (dll_pd_in c),
      dll_pd_in_len := word_of_nat (length d), dll_pd_valid := valid, dll_pd_in_toggle := \<not> dll_pd_in_toggle c\<rparr>)"
  define k1 where "k1 = mod_stack (mod_dll u) k"
  have len: "length (dll_pd_in c) = 32" "length d \<le> 32" "unat (dll_pd_out_len c) \<le> 32"
    using assms(2,11) by (simp_all add: dll_wf_def)
  have upd: "iolink_pd_input_update (Ref d) (length d) valid k = Some (0, k1)"
    using pd_input_update_law [of k "length d" d valid] len by (simp add: c_def k1_def u_def)
  have k1: "sk_dll (g_stack k1) = u c" "world (g_stack k1) = world (g_stack k)" by (simp_all add: k1_def c_def)
  have wf: "dll_wf (u c)" using assms(2) len by (simp add: dll_wf_def u_def)
  have rf: "received_frame (u c) = received_frame c" by (simp add: received_frame_def u_def)
  have cyc: "runs (dll_frame_complete linux_platform (g_stack k1)) (cycle_done (g_stack k1))"
    using assms(3-10) wf rf by (intro operate_frame_cycle) (simp_all add: k1 the_phy_def u_def)
  have read: "iolink_pd_output_read (Ref buf) (length buf) (k1\<lparr>g_stack := s\<rparr>)
      = Some (int (unat (dll_pd_out_len c)), Ref (take (unat (dll_pd_out_len c)) (drop 2 (dll_frame_buf c)) @ drop (unat (dll_pd_out_len c)) buf))"
    if "cycle_done (g_stack k1) s" for s
    using that pd_output_read_law [of "k1\<lparr>g_stack := s\<rparr>" "length buf" buf] len assms(12,13)
    by (auto simp: cycle_done_def k1 u_def Let_def min_absorb2 link_setup_def dll_wf_def)
  have line: "\<exists>st rest. line_out (world s) = line_out (world (g_stack k)) @ st # d @ rest \<and>
       (bit st 5 \<longleftrightarrow> valid) \<and> (bit st 6 \<longleftrightarrow> \<not> dll_pd_in_toggle c)" if "cycle_done (g_stack k1) s" for s
    using that assms(11) by (auto simp: cycle_done_def k1 u_def Let_def line_state_def)
  show ?thesis
    unfolding upd using read line by (simp add: runs_mono [OF cyc] Let_def)
qed

lemma core_pd_exchange_witness:
  "runs (do {
       (r, k1) \<leftarrow> iolink_pd_input_update (Ref [0x42]) 1 True \<lparr>g_stack = demo_stack demo_frame, g_config = demo_config\<rparr>;
       s \<leftarrow> dll_frame_complete linux_platform (g_stack k1);
       (n, out) \<leftarrow> iolink_pd_output_read (Ref [0]) 1 (k1\<lparr>g_stack := s\<rparr>);
       Some (r, n, out, line_out (world s)) }) (\<lambda>(r, n, out, line). n = 1 \<and> out = Ref [0xAA] \<and> line ! 1 = 0x42)"
proof -
  have len: "2 \<le> length demo_frame" "length demo_frame \<le> 37" by (simp_all add: demo_frame_valid)
  note d = demo_stack_wf [OF len]
  have "dll_req_len (sk_dll (demo_stack demo_frame)) \<noteq> 2"
    using u8_of_nat_eq_iff [of 5 2] by (simp add: demo_stack_def demo_frame_valid)
  moreover have "demo_frame ! 0 \<noteq> IOLINK_MC_TRANSITION_COMMAND" "\<not> forbidden_channel (demo_frame ! 0)"
    by (simp_all add: demo_frame_def forbidden_channel_def)
  moreover have "dll_phy (sk_dll (demo_stack demo_frame)) = Ref iolink_phy_virtual_get"
    "dll_pd_in_len_current (sk_dll (demo_stack demo_frame)) = 1" "dll_pd_out_len_current (sk_dll (demo_stack demo_frame)) = 1"
    "dll_pd_out_len (sk_dll (demo_stack demo_frame)) = 1" "line_out (world (demo_stack demo_frame)) = []"
    "take 1 (drop 2 (dll_frame_buf (sk_dll (demo_stack demo_frame)))) = [0xAA]"
    by (simp_all add: demo_stack_def world_def globals_static_def demo_world_def, simp add: demo_frame_def)
  ultimately show ?thesis
    using core_pd_exchange [of "\<lparr>g_stack = demo_stack demo_frame, g_config = demo_config\<rparr>" "[0x42]" "[0]" True] d demo_frame_valid
    by (auto simp: Let_def elim!: runs_mono)
qed

text \<open>
  C35: The process data lengths of the configuration are not checked.  A start with an input length
  above 32 is accepted like any other, and the first cyclic response then copies beyond the
  32-byte buffer.
\<close>

theorem core_unchecked_length:
  assumes "phy_starts p w" and "nvm_sane plat (boot_world p w)" and "32 < unat (cfg_pd_in_len cfg)"
  shows "runs (iolink_init plat (Ref p) (Ref cfg) (core_static w))
    (\<lambda>(r, k). r = 0 \<and> dll_build_response od (sk_dll (g_stack k)) = None)"
proof -
  have "dll_build_response od c = None" if "dll_pd_in_len_current c = cfg_pd_in_len cfg" "length (dll_pd_in c) = 32" for c :: "'a iolink_dll_ctx"
    using that assms(3) by (simp add: dll_build_response_def memcpy_def Let_def)
  then show ?thesis
    by (intro runs_mono [OF init_static_law [OF assms(1,2)]]) (auto simp: fresh_def Let_def)
qed

lemma core_unchecked_length_witness:
  "runs (iolink_init linux_platform (Ref iolink_phy_virtual_get) (Ref (demo_config\<lparr>cfg_pd_in_len := 40\<rparr>)) (core_static demo_world))
    (\<lambda>(r, k). r = 0 \<and> dll_build_response [0, 0] (sk_dll (g_stack k)) = None)"
  by (rule core_unchecked_length [OF demo_boot(1,3)]) simp

end
