(* ===== verification/Line_Reception.thy ===== *)
theory Line_Reception
  imports Dll_Behaviour
begin

text \<open>
  Reception on the virtual line, from bytes to frames.  With the timing checks off (the default of
  \<^verbatim>\<open>IOLINK_TIMING_ENFORCE_DEFAULT\<close>) the receive loop cuts the waiting bytes into frames of the
  length the first byte announces, hands each complete frame to the frame handler and ends when the
  line is empty.
\<close>

section \<open>One byte\<close>

text \<open>The fields frame assembly writes; everything else is as in \<open>c\<close>.\<close>

definition assembly_only :: "'w iolink_dll_ctx \<Rightarrow> 'w iolink_dll_ctx \<Rightarrow> bool" where
  "assembly_only c c' \<longleftrightarrow>
     (\<exists>buf i r t u m. c' = c\<lparr>dll_frame_buf := buf, dll_frame_index := i, dll_req_len := r, dll_last_byte_us := t,
        dll_last_frame_us := u, dll_last_activity_ms := m\<rparr>)"

lemma assembly_only_refl: "assembly_only c c"
  unfolding assembly_only_def
  by (intro exI [of _ "dll_frame_buf c"] exI [of _ "dll_frame_index c"] exI [of _ "dll_req_len c"]
      exI [of _ "dll_last_byte_us c"] exI [of _ "dll_last_frame_us c"] exI [of _ "dll_last_activity_ms c"]) simp

lemma assembly_onlyI:
  "assembly_only c (c\<lparr>dll_frame_buf := buf, dll_frame_index := i, dll_req_len := r, dll_last_byte_us := t,
     dll_last_frame_us := u, dll_last_activity_ms := m\<rparr>)"
  unfolding assembly_only_def by blast

lemma assembly_only_keeps:
  assumes "assembly_only c c'"
  shows "dll_data c' = dll_data c" "link_setup c' = link_setup c" "dll_state c' = dll_state c"
    "dll_events c' = dll_events c" "dll_req_len_for b c' = dll_req_len_for b c"
    "dll_fallback_count c' = dll_fallback_count c" "dll_sio_fallback_threshold c' = dll_sio_fallback_threshold c"
    "dll_t_pd_deadline_us c' = dll_t_pd_deadline_us c" "iolink_dll_get_stats c' = iolink_dll_get_stats c"
  using assms
  by (auto simp: assembly_only_def dll_data_def link_setup_def dll_req_len_for_def multi_req_len_def Let_def iolink_dll_get_stats_def)

lemma rx_byte_virtual:
  fixes s :: "host_world stack"
  assumes "\<not> dll_enforce_timing (sk_dll s)"
  obtains t m s1 where "line_state s1 = line_state s" and "sk_globals s1 = (sk_globals s)\<lparr>gl_world := world s1\<rparr>"
    and "dll_rx_byte linux_platform b s =
      Option.bind (dll_store_byte t b ((sk_dll s)\<lparr>dll_last_activity_ms := m, dll_last_byte_us := t\<rparr>))
        (\<lambda>c. if dll_frame_index c > 0 \<and> dll_frame_index c \<ge> dll_req_len c
             then dll_frame_complete linux_platform (s1\<lparr>sk_dll := c\<rparr>) else Some (s1\<lparr>sk_dll := c\<rparr>))"
proof -
  obtain t s0 where t: "iolink_time_get_us linux_platform s = (t, s0)" by fastforce
  obtain m s1 where m: "iolink_time_get_ms linux_platform s0 = (m, s1)" by fastforce
  have d: "sk_dll s0 = sk_dll s" "sk_dll s1 = sk_dll s" "sk_globals s1 = (sk_globals s)\<lparr>gl_world := world s1\<rparr>"
    using t m by (auto simp: iolink_time_get_us_def iolink_time_get_ms_def world_def set_world_def split: prod.splits)
  have l: "line_state s1 = line_state s" using linux_time_stack(1) [OF t] linux_time_stack(2) [OF m] by simp
  have "dll_rx_timing t (mod_dll (\<lambda>c. c\<lparr>dll_last_activity_ms := m\<rparr>) s1) =
      Some (mod_dll (\<lambda>c. c\<lparr>dll_last_activity_ms := m, dll_last_byte_us := t\<rparr>) s1)"
    using assms by (simp add: dll_rx_timing_def byte_limit_checked_def d mod_dll_def)
  then have "dll_rx_byte linux_platform b s =
      Option.bind (dll_store_byte t b ((sk_dll s)\<lparr>dll_last_activity_ms := m, dll_last_byte_us := t\<rparr>))
        (\<lambda>c. if dll_frame_index c > 0 \<and> dll_frame_index c \<ge> dll_req_len c
             then dll_frame_complete linux_platform (s1\<lparr>sk_dll := c\<rparr>) else Some (s1\<lparr>sk_dll := c\<rparr>))"
    by (simp add: dll_rx_byte_def t m d mod_dll_def Let_def cong: if_cong)
  with that [OF l d(3)] show ?thesis by blast
qed

section \<open>What the services see\<close>

text \<open>The events, the statistics and the parameters, which the ISDU services read.\<close>

definition service_env :: "'w stack \<Rightarrow> iolink_events_ctx \<times> iolink_dll_stats \<times> device_info_state \<times> iolink_params_nvm" where
  "service_env s = (dll_events (sk_dll s), iolink_dll_get_stats (sk_dll s), gl_info (sk_globals s), g_nvm_shadow (sk_globals s))"

lemma service_env_world [simp]: "service_env (set_world w s) = service_env s"
  by (simp add: service_env_def set_world_def)

section \<open>One frame\<close>

text \<open>\<open>f\<close> has been received of a frame opened in the context \<open>c\<close>.\<close>

definition partial_frame :: "host_world iolink_dll_ctx \<Rightarrow> bytes \<Rightarrow> host_world iolink_dll_ctx \<Rightarrow> bool" where
  "partial_frame c f c' \<longleftrightarrow> assembly_only c c' \<and> length (dll_frame_buf c') = 48 \<and>
     dll_frame_index c' = word_of_nat (length f) \<and> take (length f) (dll_frame_buf c') = f \<and>
     (f \<noteq> [] \<longrightarrow> dll_req_len c' = dll_req_len_for (hd f) c)"

lemma store_byte_partial:
  assumes "partial_frame c f c'" and "length f < 48"
  shows "runs (dll_store_byte t b (c'\<lparr>dll_last_activity_ms := m, dll_last_byte_us := t\<rparr>)) (partial_frame c (f @ [b]))"
proof -
  from assms(1) obtain buf i r x u y where
    c': "c' = c\<lparr>dll_frame_buf := buf, dll_frame_index := i, dll_req_len := r, dll_last_byte_us := x,
        dll_last_frame_us := u, dll_last_activity_ms := y\<rparr>"
    unfolding partial_frame_def assembly_only_def by blast
  have buf: "length buf = 48" "i = word_of_nat (length f)" "take (length f) buf = f"
    "f \<noteq> [] \<longrightarrow> r = dll_req_len_for (hd f) c"
    using assms(1) by (simp_all add: partial_frame_def c')
  have i0: "i = 0 \<longleftrightarrow> f = []" using assms(2) buf(2) u8_of_nat_eq_iff [of "length f" 0] by auto
  have ui: "unat i = length f" using assms(2) buf(2) by simp
  have tk: "take (Suc (length f)) (buf[length f := b]) = f @ [b]"
    using buf assms(2) by (simp add: take_Suc_conv_app_nth)
  have rl: "dll_req_len_for b (c'\<lparr>dll_last_activity_ms := m, dll_last_byte_us := t\<rparr>) = dll_req_len_for b c"
    by (simp add: c' dll_req_len_for_def multi_req_len_def Let_def)
  have e: "dll_store_byte t b (c'\<lparr>dll_last_activity_ms := m, dll_last_byte_us := t\<rparr>) =
      Some (c\<lparr>dll_frame_buf := buf[length f := b], dll_frame_index := word_of_nat (Suc (length f)),
        dll_req_len := if f = [] then dll_req_len_for b c else r, dll_last_byte_us := t,
        dll_last_frame_us := if f = [] then t else u, dll_last_activity_ms := m\<rparr>)"
    using buf(1,2) i0 ui rl assms(2)
    by (cases "f = []") (simp_all add: dll_store_byte_def arr_set_def c' add.commute)
  have "hd (f @ [b]) = (if f = [] then b else hd f)" by simp
  then show ?thesis
    unfolding e runs_Some partial_frame_def using buf(1,4) tk by (simp add: assembly_onlyI)
qed

text \<open>The loop reads one waiting byte, or stops on an empty line.\<close>

lemma rx_loop_virtual:
  assumes "the_phy s = Some iolink_phy_virtual_get" and "link_up (world s)"
  shows "line_in (world s) = [] \<Longrightarrow> dll_rx_loop linux_platform b s = Some s"
    and "line_in (world s) = x # xs \<Longrightarrow> dll_rx_loop linux_platform b s =
      Option.bind (dll_rx_byte linux_platform x (set_world ((world s)\<lparr>line_in := xs\<rparr>) s)) (dll_rx_loop linux_platform x)"
proof -
  have recv: "phy_recv_byte iolink_phy_virtual_get = Ref virtual_recv_byte" by (simp add: iolink_phy_virtual_get_def)
  have same: "set_world (world s) s = s" by (simp add: set_world_def world_def)
  show "dll_rx_loop linux_platform b s = Some s" if "line_in (world s) = []"
    using assms that same by (subst dll_rx_loop.simps) (simp add: recv virtual_recv_byte_def os_read1_def link_up_def)
  show "dll_rx_loop linux_platform b s =
      Option.bind (dll_rx_byte linux_platform x (set_world ((world s)\<lparr>line_in := xs\<rparr>) s)) (dll_rx_loop linux_platform x)"
    if "line_in (world s) = x # xs"
    using assms that by (subst dll_rx_loop.simps) (simp add: recv virtual_recv_byte_def os_read1_def link_up_def)
qed

lemma frame_full_iff:
  assumes "partial_frame c (f @ [x]) d" and "length f + Suc (length g) = unat (dll_req_len_for (hd (f @ [x])) c)" and "length f < 37"
  shows "0 < dll_frame_index d \<and> dll_req_len d \<le> dll_frame_index d \<longleftrightarrow> g = []"
proof -
  have "unat (1 + word_of_nat (length f) :: u8) = Suc (length f)"
    using assms(3) unat_of_nat_u8 [of "Suc (length f)"] by simp
  then show ?thesis
    using assms by (cases g) (auto simp: partial_frame_def word_le_nat_alt word_less_nat_alt)
qed

lemma assembly_env:
  assumes "assembly_only c (sk_dll s)" and "assembly_only c d" and "sk_globals s1 = (sk_globals (set_world w s))\<lparr>gl_world := w1\<rparr>"
  shows "service_env (s1\<lparr>sk_dll := d\<rparr>) = service_env s"
  using assembly_only_keeps(4,9) [OF assms(1)] assembly_only_keeps(4,9) [OF assms(2)] assms(3)
  by (simp add: service_env_def set_world_def)

text \<open>A complete frame on the line reaches the frame handler as it was sent; the rest stays waiting.\<close>

lemma rx_frame:
  assumes "partial_frame c f (sk_dll s)" and "dll_wf c" and "g \<noteq> []"
    and "length (f @ g) = unat (dll_req_len_for (hd (f @ g)) c)"
    and "dll_phy c = Ref iolink_phy_virtual_get" and "\<not> dll_enforce_timing c"
    and "line_state s = (g @ rest, out, fd)" and "fd"
    and "\<And>s1 b1. partial_frame c (f @ g) (sk_dll s1) \<Longrightarrow> line_state s1 = (rest, out, fd) \<Longrightarrow>
      service_env s1 = service_env s \<Longrightarrow> runs (dll_frame_complete linux_platform s1) (\<lambda>s2. runs (dll_rx_loop linux_platform b1 s2) Q)"
  shows "runs (dll_rx_loop linux_platform b s) Q"
  using assms(1,3,4,7,9)
proof (induction g arbitrary: f s b)
  case (Cons x g)
  let ?s = "set_world ((world s)\<lparr>line_in := g @ rest\<rparr>) s"
  have N: "length f + Suc (length g) = unat (dll_req_len_for (hd (f @ [x])) c)" "length f < 37"
  proof -
    have "hd (f @ x # g) = hd (f @ [x])" by (cases f) simp_all
    then show "length f + Suc (length g) = unat (dll_req_len_for (hd (f @ [x])) c)" using Cons.prems(3) by simp
    then show "length f < 37" using dll_req_len_for_bounds(2) [OF assms(2), of "hd (f @ [x])"] by linarith
  qed
  note keep = assembly_only_keeps [of c "sk_dll s"]
  have a: "assembly_only c (sk_dll s)" using Cons.prems(1) by (simp add: partial_frame_def)
  have phy: "the_phy s = Some iolink_phy_virtual_get" "\<not> dll_enforce_timing (sk_dll ?s)"
    using keep(2) [OF a] assms(5,6) by (simp_all add: the_phy_def link_setup_def)
  have w: "line_in (world s) = x # g @ rest" "line_state ?s = (g @ rest, out, fd)" "link_up (world s)"
    using Cons.prems(4) assms(8) by (auto simp: line_state_def)
  obtain t m s1 where s1: "line_state s1 = line_state ?s" and
    g1: "sk_globals s1 = (sk_globals ?s)\<lparr>gl_world := world s1\<rparr>" and
    rx: "dll_rx_byte linux_platform x ?s =
      Option.bind (dll_store_byte t x ((sk_dll ?s)\<lparr>dll_last_activity_ms := m, dll_last_byte_us := t\<rparr>))
        (\<lambda>c. if dll_frame_index c > 0 \<and> dll_frame_index c \<ge> dll_req_len c
             then dll_frame_complete linux_platform (s1\<lparr>sk_dll := c\<rparr>) else Some (s1\<lparr>sk_dll := c\<rparr>))"
    by (rule rx_byte_virtual [OF phy(2), of x])
  have st: "runs (dll_store_byte t x ((sk_dll ?s)\<lparr>dll_last_activity_ms := m, dll_last_byte_us := t\<rparr>)) (partial_frame c (f @ [x]))"
    using store_byte_partial [OF Cons.prems(1)] N(2) by simp
  note full = frame_full_iff [OF _ N]
  have env: "service_env (s1\<lparr>sk_dll := d\<rparr>) = service_env s" if "partial_frame c (f @ [x]) d" for d
    using that by (intro assembly_env [OF a _ g1]) (simp add: partial_frame_def)
  have more: "runs (dll_rx_loop linux_platform x (s1\<lparr>sk_dll := d\<rparr>)) Q" if "partial_frame c (f @ [x]) d" "g \<noteq> []" for d
    using Cons.IH [of "f @ [x]" "s1\<lparr>sk_dll := d\<rparr>" x] that Cons.prems(3,5) s1 w(2) env [OF that(1)] by simp
  have last: "runs (dll_frame_complete linux_platform (s1\<lparr>sk_dll := d\<rparr>)) (\<lambda>s2. runs (dll_rx_loop linux_platform x s2) Q)"
    if "partial_frame c (f @ [x]) d" "g = []" for d
    using Cons.prems(5) [of "s1\<lparr>sk_dll := d\<rparr>" x] that s1 w(2) env [OF that(1)] by simp
  show ?case
    unfolding rx_loop_virtual(2) [OF phy(1) w(3) w(1)] rx runs_bind runs_if
    by (rule runs_mono [OF st]) (use full more last in auto)
qed simp

end
