(* ===== verification/Cycles.thy ===== *)
theory Cycles
  imports Line_Reception
begin

text \<open>
  Cyclic operation on the virtual line: a backlog of good frames is answered frame by frame, and
  the on-request bytes of consecutive frames form one stream through the ISDU engine.
\<close>

section \<open>The stream of on-request bytes\<close>

fun od_stream :: "bytes \<Rightarrow> iolink_isdu_ctx \<Rightarrow> (bytes \<times> iolink_isdu_ctx) option" where
  "od_stream [] c = Some ([], c)"
| "od_stream (b # bs) c = do {
     (r, c) \<leftarrow> od_exchange b c;
     (rs, c) \<leftarrow> od_stream bs c;
     Some (r # rs, c) }"

lemma od_stream_append:
  "od_stream (xs @ ys) c = do {
     (rs, c) \<leftarrow> od_stream xs c;
     (qs, c) \<leftarrow> od_stream ys c;
     Some (rs @ qs, c) }"
proof (induction xs arbitrary: c)
  case Nil
  then show ?case by (cases "od_stream ys c") auto
next
  case (Cons x xs)
  then show ?case
    by (cases "od_exchange x c") (auto simp: split_def intro!: Option.bind_cong)
qed

lemma od_stream_length: "od_stream bs c = Some (rs, c') \<Longrightarrow> length rs = length bs"
  by (induction bs arbitrary: c rs) (auto split: bind_splits)

text \<open>The loop of one frame is a piece of the stream.\<close>

lemma od_loop_stream:
  assumes "n = 1 \<or> n = 2" and "length od = 2" and "od_loop n od c = Some (out, c')"
  shows "od_stream (take n od) c = Some (take n out, c')"
proof -
  obtain a b where od: "od = [a, b]" using assms(2) by (auto simp: numeral_2_eq_2 length_Suc_conv)
  show ?thesis
    using assms(1,3)
    by (auto simp: od od_loop_def numeral_2_eq_2 arr_get_def arr_set_def split: bind_splits if_splits)
qed

section \<open>Frames and responses\<close>

text \<open>A frame of the configured length with a good checksum on a channel the device serves.\<close>

definition good_frame :: "'w iolink_dll_ctx \<Rightarrow> bytes \<Rightarrow> bool" where
  "good_frame c f \<longleftrightarrow> length f = 3 + unat (dll_pd_out_len_current c) + unat (dll_od_len c) \<and> frame_valid f \<and>
     f ! 0 \<noteq> IOLINK_MC_TRANSITION_COMMAND \<and> \<not> forbidden_channel (f ! 0)"

definition frame_pd :: "'w iolink_dll_ctx \<Rightarrow> bytes \<Rightarrow> bytes" where
  "frame_pd c f = take (unat (dll_pd_out_len_current c)) (drop 2 f)"

definition frame_odata :: "'w iolink_dll_ctx \<Rightarrow> bytes \<Rightarrow> bytes" where
  "frame_odata c f = take (unat (dll_od_len c)) (drop (2 + unat (dll_pd_out_len_current c)) f)"

text \<open>A response: status with the flags of the input data, the data, on-request bytes, checksum.\<close>

definition response_ok :: "'w iolink_dll_ctx \<Rightarrow> bytes \<Rightarrow> bool" where
  "response_ok c r \<longleftrightarrow> length r = 2 + unat (dll_pd_in_len_current c) + unat (dll_od_len c) \<and>
     last r = crc6 (butlast r) \<and>
     (bit (hd r) 5 \<longleftrightarrow> dll_pd_valid c) \<and> (bit (hd r) 6 \<longleftrightarrow> dll_pd_in_toggle c) \<and>
     take (unat (dll_pd_in_len_current c)) (tl r) = take (unat (dll_pd_in_len_current c)) (dll_pd_in c)"

definition response_odata :: "'w iolink_dll_ctx \<Rightarrow> bytes \<Rightarrow> bytes" where
  "response_odata c r = take (unat (dll_od_len c)) (drop (1 + unat (dll_pd_in_len_current c)) r)"

text \<open>A link with its frames at full length and no frame open, and what cycles leave of it.\<close>

definition cyclic :: "host_world iolink_dll_ctx \<Rightarrow> bool" where
  "cyclic c \<longleftrightarrow> dll_wf c \<and> dll_phy c = Ref iolink_phy_virtual_get \<and>
     (dll_state c = IOLINK_DLL_STATE_OPERATE \<or> dll_state c = IOLINK_DLL_STATE_ESTAB_COM) \<and>
     dll_baudrate c \<noteq> IOLINK_BAUDRATE_COM1 \<and> dll_m_seq_type c \<noteq> IOLINK_M_SEQ_TYPE_0 \<and>
     dll_frame_index c = 0 \<and> \<not> dll_enforce_timing c"

lemma multi_len:
  assumes "cyclic c" and "good_frame c f"
  shows "length f = unat (dll_req_len_for (hd f) c)" "length f \<le> 37" "3 < length f"
proof -
  have wf: "dll_wf c" using assms(1) by (simp add: cyclic_def)
  have l: "unat (multi_req_len c) = length f" "f \<noteq> []"
    using unat_multi_req_len [OF wf] assms(2) by (auto simp: good_frame_def)
  then have "f ! 0 = hd f" by (simp add: hd_conv_nth)
  then show "length f = unat (dll_req_len_for (hd f) c)"
    using assms l by (auto simp: dll_req_len_for_def cyclic_def good_frame_def Let_def)
  then show "length f \<le> 37" using dll_req_len_for_bounds(2) [OF wf] by simp
  show "3 < length f" using assms by (auto simp: good_frame_def cyclic_def dll_wf_def)
qed


section \<open>Good frames leave the services alone\<close>

lemma service_env_time:
  "iolink_time_get_us plat s = (t, s') \<Longrightarrow> service_env s' = service_env s"
  by (auto simp: iolink_time_get_us_def split: prod.splits)

lemma after_send_quiet:
  assumes "\<not> dll_enforce_timing (sk_dll s)"
  shows "runs (dll_after_send plat s) (\<lambda>s'. service_env s' = service_env s)"
proof -
  obtain t s1 where t: "iolink_time_get_us plat (mod_dll (\<lambda>c. c\<lparr>dll_fallback_count := 0\<rparr>) s) = (t, s1)" by fastforce
  have "service_env s1 = service_env s" "\<not> dll_enforce_timing (sk_dll s1)"
    using service_env_time [OF t] time_get_us_ctx [OF t] assms by (simp_all add: service_env_def iolink_dll_get_stats_def)
  then show ?thesis
    unfolding dll_after_send_def t prod.case Let_def by (simp add: service_env_def iolink_dll_get_stats_def)
qed

lemma transmit_quiet:
  assumes "\<not> dll_enforce_timing (sk_dll s)" and "the_phy s = Some p"
  shows "runs (dll_transmit plat resp s) (\<lambda>s'. service_env s' = service_env s)"
proof -
  have sent: "runs (case phy_send p of NULL \<Rightarrow> Some s
          | Ref f \<Rightarrow> dll_after_send plat (set_world (snd (f resp (world s))) s)) (\<lambda>s'. service_env s' = service_env s)"
    using after_send_quiet [of "set_world w s" for w] assms(1) by (cases "phy_send p") simp_all
  show ?thesis
    unfolding dll_transmit_def assms(2)
    by (auto intro!: runs_mono [OF sent] split: prod.splits dest!: service_env_time)
       (simp add: service_env_def iolink_dll_get_stats_def)
qed

lemma type1_2_quiet:
  assumes "dll_wf (sk_dll s)" and "\<not> dll_enforce_timing (sk_dll s)" and "the_phy s = Some p"
  shows "runs (dll_handle_operate_type1_2 plat s) (\<lambda>s'. service_env s' = service_env s)"
proof -
  have "runs (dll_transmit plat resp (s\<lparr>sk_dll := c'\<rparr>)) (\<lambda>s'. service_env s' = service_env s)"
    if eq: "c' = (sk_dll s)\<lparr>dll_pd_out := dll_pd_out c', dll_isdu := dll_isdu c'\<rparr>" for c' resp
  proof -
    obtain a b where c': "c' = (sk_dll s)\<lparr>dll_pd_out := a, dll_isdu := b\<rparr>" using eq by blast
    have "runs (dll_transmit plat resp (s\<lparr>sk_dll := c'\<rparr>)) (\<lambda>s'. service_env s' = service_env (s\<lparr>sk_dll := c'\<rparr>))"
      using assms(2,3) by (intro transmit_quiet) (simp_all add: c' the_phy_def)
    then show ?thesis by (simp add: c' service_env_def iolink_dll_get_stats_def)
  qed
  then show ?thesis
    unfolding dll_handle_operate_type1_2_def
    by (auto simp: dll_build_response_eq intro!: runs_mono [OF receive_frame_law [OF assms(1)]])
qed

lemma cycle_timing_quiet:
  assumes "\<not> dll_enforce_timing (sk_dll s)"
  obtains t s1 where "dll_cycle_timing plat s = Some s1" and "sk_dll s1 = (sk_dll s)\<lparr>dll_last_cycle_start_us := t\<rparr>"
    and "service_env s1 = service_env s" and "the_phy s1 = the_phy s"
proof -
  obtain t s0 where t: "iolink_time_get_us plat s = (t, s0)" by fastforce
  note c = time_get_us_ctx [OF t] service_env_time [OF t]
  let ?s1 = "mod_dll (\<lambda>c. c\<lparr>dll_last_cycle_start_us := t\<rparr>) s0"
  have "dll_cycle_timing plat s = Some ?s1" using c assms by (simp add: dll_cycle_timing_def t Let_def)
  moreover have "service_env ?s1 = service_env s0" by (simp add: service_env_def iolink_dll_get_stats_def)
  ultimately show ?thesis using c by (intro that [of ?s1 t]) (auto simp: the_phy_def)
qed

text \<open>A completed frame leaves none open.\<close>

lemma frame_complete_closes: "runs (dll_frame_complete plat s) P \<Longrightarrow> runs (dll_frame_complete plat s) (\<lambda>s'. dll_frame_index (sk_dll s') = 0)"
  by (auto simp: dll_frame_complete_def elim!: runs_mono)

section \<open>A frame on the line is served\<close>

text \<open>\<open>c\<close> is the context before the frame \<open>f\<close>, \<open>r\<close> the response.\<close>

definition served :: "host_world iolink_dll_ctx \<Rightarrow> bytes \<Rightarrow> host_world stack \<Rightarrow> bytes \<Rightarrow> host_world stack \<Rightarrow> bool" where
  "served c f s r s' \<longleftrightarrow>
     cyclic (sk_dll s') \<and> dll_state (sk_dll s') = IOLINK_DLL_STATE_OPERATE \<and> link_setup (sk_dll s') = link_setup c \<and>
     dll_fallback_count (sk_dll s') = 0 \<and>
     (dll_pd_in (sk_dll s'), dll_pd_valid (sk_dll s'), dll_pd_in_toggle (sk_dll s')) = (dll_pd_in c, dll_pd_valid c, dll_pd_in_toggle c) \<and>
     response_ok c r \<and> (bit (hd r) 7 \<longleftrightarrow> iolink_events_pending (Ref (dll_events c))) \<and> take (unat (dll_pd_out_len_current c)) (dll_pd_out (sk_dll s')) = frame_pd c f \<and>
     od_stream (frame_odata c f) (dll_isdu c) = Some (response_odata c r, dll_isdu (sk_dll s')) \<and>
     line_state s' = (line_in (world s), line_out (world s) @ r, link_up (world s)) \<and> service_env s' = service_env s"

lemma partial_frame_wf:
  assumes "partial_frame c f d" and "dll_wf c"
  shows "dll_wf d"
proof -
  obtain buf i r x u y where d: "d = c\<lparr>dll_frame_buf := buf, dll_frame_index := i, dll_req_len := r, dll_last_byte_us := x,
        dll_last_frame_us := u, dll_last_activity_ms := y\<rparr>"
    using assms(1) unfolding partial_frame_def assembly_only_def by blast
  have "f \<noteq> []" if "i \<noteq> 0" using that assms(1) by (auto simp: d partial_frame_def)
  then show ?thesis
    using assms dll_req_len_for_bounds [OF assms(2)] by (auto simp: d partial_frame_def dll_wf_def)
qed


lemma partial_frame_keeps:
  "partial_frame c f d \<Longrightarrow> link_setup d = link_setup c" "partial_frame c f d \<Longrightarrow> dll_state d = dll_state c"
  "partial_frame c f d \<Longrightarrow> dll_data d = dll_data c" "partial_frame c f d \<Longrightarrow> dll_events d = dll_events c"
  by (simp_all add: partial_frame_def assembly_only_keeps)

lemma full_frame:
  assumes "cyclic c" and "good_frame c f" and "partial_frame c f d"
  shows "received_frame d = f" "dll_frame_index d \<noteq> 0" "2 < dll_req_len d"
    "frame_od d = frame_odata c f @ drop (unat (dll_od_len c)) [0, 0]"
    "take (unat (dll_pd_out_len_current c)) (drop 2 (dll_frame_buf d)) = frame_pd c f"
    "dll_frame_buf d ! 0 = f ! 0"
proof -
  note l = multi_len [OF assms(1,2)]
  have p: "dll_frame_index d = word_of_nat (length f)" "take (length f) (dll_frame_buf d) = f"
    "dll_req_len d = dll_req_len_for (hd f) c" "assembly_only c d"
    using assms(3) l(3) by (auto simp: partial_frame_def)
  show "received_frame d = f" using p l by (simp add: received_frame_def)
  have "unat (dll_frame_index d) = length f" using p(1) l(2) by simp
  then show "dll_frame_index d \<noteq> 0" using l(3) by auto
  show "2 < dll_req_len d" using p(3) l(1,3) by (simp add: word_less_nat_alt)
  have keep: "dll_od_len d = dll_od_len c" "dll_pd_out_len_current d = dll_pd_out_len_current c"
    using assembly_only_keeps(2) [OF p(4)] by (simp_all add: link_setup_def)
  have len: "2 + unat (dll_pd_out_len_current c) + unat (dll_od_len c) \<le> length f" using assms(2) by (simp add: good_frame_def)
  have piece: "take n (drop m (dll_frame_buf d)) = take n (drop m f)" if "m + n \<le> length f" for m n
  proof -
    have "take n (drop m f) = take n (drop m (take (length f) (dll_frame_buf d)))" by (simp only: p(2))
    then show ?thesis using that by (simp add: drop_take min_def)
  qed
  show "frame_od d = frame_odata c f @ drop (unat (dll_od_len c)) [0, 0]"
    unfolding frame_od_def keep frame_odata_def using len by (simp add: piece)
  show "take (unat (dll_pd_out_len_current c)) (drop 2 (dll_frame_buf d)) = frame_pd c f"
    unfolding frame_pd_def using len by (simp add: piece)
  have "f ! 0 = take (length f) (dll_frame_buf d) ! 0" by (simp only: p(2))
  also have "\<dots> = dll_frame_buf d ! 0" by (rule nth_take) (use l(3) in linarith)
  finally show "dll_frame_buf d ! 0 = f ! 0" ..
qed

lemma frame_quiet:
  assumes "cyclic c" and "good_frame c f" and "partial_frame c f (sk_dll s)"
  shows "runs (dll_frame_complete plat s) (\<lambda>s'. service_env s' = service_env s)"
proof -
  let ?d = "sk_dll s"
  note ff = full_frame [OF assms]
  have wf: "dll_wf ?d" using partial_frame_wf [OF assms(3)] assms(1) by (simp add: cyclic_def)
  note k = partial_frame_keeps [OF assms(3)]
  have "\<not> dll_enforce_timing ?d" using k(1) assms(1) by (simp add: link_setup_def cyclic_def)
  then obtain t s1 where s1: "dll_cycle_timing plat s = Some s1" "sk_dll s1 = ?d\<lparr>dll_last_cycle_start_us := t\<rparr>"
    "service_env s1 = service_env s" "the_phy s1 = the_phy s"
    by (rule cycle_timing_quiet)
  have wf1: "dll_wf (sk_dll s1)" using wf by (simp add: s1(2) dll_wf_def)
  have crc: "dll_crc_ok (sk_dll s1) = Some True"
  proof -
    have "received_frame (sk_dll s1) = f" using ff(1) by (simp add: s1(2) received_frame_def)
    then show ?thesis using dll_crc_ok_eq [OF wf1] ff(2) assms(2) by (simp add: s1(2) good_frame_def)
  qed
  let ?t = "mod_dll (\<lambda>c. c\<lparr>dll_state := IOLINK_DLL_STATE_OPERATE\<rparr>) s1"
  have disp: "dll_dispatch plat s1 = dll_handle_operate_type1_2 plat ?t"
    using ff(3,6) k(2) assms(1,2) wf by (intro dispatch_cyclic) (auto simp: s1(2) cyclic_def good_frame_def dll_wf_def)
  have "runs (dll_handle_operate_type1_2 plat ?t) (\<lambda>s'. service_env s' = service_env ?t)"
    using wf1 k(1) assms(1)
    by (intro type1_2_quiet [where p = iolink_phy_virtual_get]) (auto simp: s1(2) dll_wf_def link_setup_def cyclic_def the_phy_def)
  moreover have "service_env ?t = service_env s" using s1(3) by (simp add: service_env_def iolink_dll_get_stats_def)
  ultimately show ?thesis
    unfolding dll_frame_complete_def s1(1) bind.bind_lunit crc disp
    by (auto elim!: runs_mono simp: service_env_def iolink_dll_get_stats_def)
qed

lemma cycle_done_served:
  assumes "cyclic c" and "good_frame c f" and "partial_frame c f (sk_dll s)"
    and "cycle_done s s'" and "dll_frame_index (sk_dll s') = 0" and "service_env s' = service_env s"
  shows "\<exists>r. served c f s r s'"
proof -
  let ?d = "sk_dll s"
  note ff = full_frame [OF assms(1-3)]
  note k = partial_frame_keeps [OF assms(3)]
  have e: "dll_od_len ?d = dll_od_len c" "dll_pd_in_len_current ?d = dll_pd_in_len_current c"
    "dll_pd_out_len_current ?d = dll_pd_out_len_current c" "dll_isdu ?d = dll_isdu c" "dll_pd_in ?d = dll_pd_in c"
    "dll_pd_valid ?d = dll_pd_valid c" "dll_pd_in_toggle ?d = dll_pd_in_toggle c"
    using k(1,3) by (simp_all add: link_setup_def dll_data_def)
  have ev: "dll_events ?d = dll_events c" "\<not> dll_enforce_timing ?d"
    using k(1,4) assms(1) by (simp_all add: link_setup_def cyclic_def)
  let ?m = "unat (dll_pd_in_len_current c)" and ?n = "unat (dll_od_len c)"
  obtain st od where o: "od_loop ?n (frame_od ?d) (dll_isdu c) = Some (od, dll_isdu (sk_dll s'))"
    "bit st 5 \<longleftrightarrow> dll_pd_valid c" "bit st 6 \<longleftrightarrow> dll_pd_in_toggle c" "bit st 7 \<longleftrightarrow> iolink_events_pending (Ref (dll_events c))"
    "line_state s' = (line_in (world s), line_out (world s) @ (st # take ?m (dll_pd_in c) @ take ?n od)
       @ [crc6 (st # take ?m (dll_pd_in c) @ take ?n od)], link_up (world s))"
    using assms(4) ev by (auto simp: cycle_done_def Let_def e)
  let ?r = "(st # take ?m (dll_pd_in c) @ take ?n od) @ [crc6 (st # take ?m (dll_pd_in c) @ take ?n od)]"
  have od: "?n = 1 \<or> ?n = 2" and m: "length (take ?m (dll_pd_in c)) = ?m"
    using assms(1) by (auto simp: cyclic_def dll_wf_def)
  have fl: "length (frame_odata c f) = ?n" using assms(2) by (simp add: frame_odata_def good_frame_def)
  have str: "od_stream (frame_odata c f) (dll_isdu c) = Some (take ?n od, dll_isdu (sk_dll s'))"
    using od_loop_stream [OF od _ o(1)] od fl by (auto simp: ff(4))
  have n: "length (take ?n od) = ?n" using od_stream_length [OF str] fl by simp
  have "response_odata c ?r = take ?n od" "response_ok c ?r"
    using m n o(2,3) by (simp_all add: response_odata_def response_ok_def butlast_append)
  moreover have "cyclic (sk_dll s')" "link_setup (sk_dll s') = link_setup c"
    using assms(1,4,5) k(1) by (auto simp: cycle_done_def Let_def cyclic_def link_setup_def)
  ultimately have "served c f s ?r s'"
    using str o(4,5) assms(4,6) ff(5) e by (simp add: served_def cycle_done_def Let_def)
  then show ?thesis by blast
qed

lemma frame_served:
  assumes "cyclic c" and "good_frame c f" and "partial_frame c f (sk_dll s)" and "link_up (world s)"
  shows "runs (dll_frame_complete linux_platform s) (\<lambda>s'. \<exists>r. served c f s r s')"
proof -
  note ff = full_frame [OF assms(1-3)]
  have wf: "dll_wf (sk_dll s)" using partial_frame_wf [OF assms(3)] assms(1) by (simp add: cyclic_def)
  have run: "runs (dll_frame_complete linux_platform s) (cycle_done s)"
  proof (rule operate_frame_cycle [OF wf ff(2)])
    show "dll_req_len (sk_dll s) \<noteq> 2" using ff(3) by auto
  qed (use partial_frame_keeps [OF assms(3)] assms(1,2,4) ff(1) in
        \<open>auto simp: the_phy_def link_setup_def cyclic_def good_frame_def\<close>)
  show ?thesis
    by (rule runs_mono [OF runs_conj [OF run runs_conj [OF frame_complete_closes [OF run] frame_quiet [OF assms(1-3)]]]])
       (use cycle_done_served [OF assms(1-3)] in blast)
qed

section \<open>A backlog of frames\<close>

lemma cyclic_partial: "cyclic c \<Longrightarrow> partial_frame c [] c"
  by (auto simp: partial_frame_def assembly_only_refl cyclic_def dll_wf_def)

lemma same_setup:
  assumes "link_setup d = link_setup c"
  shows "good_frame d = good_frame c" "frame_pd d = frame_pd c" "frame_odata d = frame_odata c"
    "response_odata d = response_odata c"
    "(dll_pd_in d, dll_pd_valid d, dll_pd_in_toggle d) = (dll_pd_in c, dll_pd_valid c, dll_pd_in_toggle c) \<Longrightarrow>
      response_ok d = response_ok c"
  using assms
  by (auto simp: fun_eq_iff link_setup_def good_frame_def frame_pd_def frame_odata_def response_odata_def response_ok_def)

text \<open>
  All frames \<open>fs\<close> have been answered by the responses \<open>rs\<close>, in order; the on-request bytes of the
  frames went through the engine as one stream, and the last frame's process data is delivered.
\<close>

definition all_served :: "bytes list \<Rightarrow> host_world stack \<Rightarrow> bytes list \<Rightarrow> host_world stack \<Rightarrow> bool" where
  "all_served fs s rs s' \<longleftrightarrow>
     (let c = sk_dll s; c' = sk_dll s' in
      cyclic c' \<and> link_setup c' = link_setup c \<and>
      (dll_pd_in c', dll_pd_valid c', dll_pd_in_toggle c') = (dll_pd_in c, dll_pd_valid c, dll_pd_in_toggle c) \<and> length rs = length fs \<and> list_all (response_ok c) rs \<and>
      list_all (\<lambda>r. bit (hd r) 7 \<longleftrightarrow> iolink_events_pending (Ref (dll_events c))) rs \<and>
      (if fs = [] then dll_state c' = dll_state c \<and> dll_pd_out c' = dll_pd_out c
       else dll_state c' = IOLINK_DLL_STATE_OPERATE \<and> take (unat (dll_pd_out_len_current c)) (dll_pd_out c') = frame_pd c (last fs)) \<and>
      od_stream (concat (map (frame_odata c) fs)) (dll_isdu c) = Some (concat (map (response_odata c) rs), dll_isdu c') \<and>
      line_state s' = ([], line_out (world s) @ concat rs, link_up (world s)) \<and> service_env s' = service_env s)"

lemma served_step:
  assumes "served (sk_dll s) f s1 r s2" and "line_state s1 = (rest, line_out (world s), link_up (world s))"
    and "service_env s1 = service_env s" and "all_served fs s2 rs s3"
  shows "all_served (f # fs) s (r # rs) s3"
proof -
  let ?c = "sk_dll s"
  have e: "link_setup (sk_dll s2) = link_setup ?c"
      "(dll_pd_in (sk_dll s2), dll_pd_valid (sk_dll s2), dll_pd_in_toggle (sk_dll s2)) = (dll_pd_in ?c, dll_pd_valid ?c, dll_pd_in_toggle ?c)"
    using assms(1) by (simp_all add: served_def)
  note ss = same_setup [OF e(1)]
  have w: "line_out (world s2) = line_out (world s) @ r" "link_up (world s2) = link_up (world s)"
    using assms(1,2) by (auto simp: served_def line_state_def)
  have od: "od_stream (frame_odata ?c f @ concat (map (frame_odata ?c) fs)) (dll_isdu ?c) =
      Some (response_odata ?c r @ concat (map (response_odata ?c) rs), dll_isdu (sk_dll s3))"
    using assms(1,4) by (simp add: od_stream_append served_def all_served_def Let_def ss)
  have pd: "dll_pd_out_len_current (sk_dll s2) = dll_pd_out_len_current ?c" using e(1) by (simp add: link_setup_def)
  have "dll_events (sk_dll s2) = dll_events ?c" using assms(1,3) by (simp add: served_def service_env_def)
  then show ?thesis
    using assms(1,3,4) od pd by (auto simp: all_served_def Let_def served_def ss ss(5) [OF e(2)] w)
qed

lemma serve_frames:
  assumes "cyclic (sk_dll s)" and "\<forall>f \<in> set fs. good_frame (sk_dll s) f"
    and "line_in (world s) = concat fs" and "link_up (world s)"
  shows "runs (dll_rx_loop linux_platform b s) (\<lambda>s'. \<exists>rs. all_served fs s rs s')"
  using assms
proof (induction fs arbitrary: s b)
  case Nil
  have phy: "the_phy s = Some iolink_phy_virtual_get" using Nil.prems(1) by (simp add: cyclic_def the_phy_def)
  show ?case
    using Nil.prems by (auto simp: rx_loop_virtual(1) [OF phy Nil.prems(4)] all_served_def Let_def line_state_def)
next
  case (Cons f fs)
  let ?c = "sk_dll s"
  note l = multi_len [OF Cons.prems(1), of f]
  have g: "good_frame ?c f" using Cons.prems(2) by simp
  have next': "runs (dll_rx_loop linux_platform b1 s2) (\<lambda>s'. \<exists>rs. all_served (f # fs) s rs s')"
    if sv: "served ?c f s1 r s2" and ls: "line_state s1 = (concat fs, line_out (world s), link_up (world s))"
      and se: "service_env s1 = service_env s" for s1 s2 r b1
  proof (rule runs_mono [OF Cons.IH])
    have e: "link_setup (sk_dll s2) = link_setup ?c" "line_state s2 = (concat fs, line_out (world s) @ r, link_up (world s))"
      using sv ls by (auto simp: served_def line_state_def)
    show "cyclic (sk_dll s2)" using sv by (simp add: served_def)
    show "\<forall>f \<in> set fs. good_frame (sk_dll s2) f" using Cons.prems(2) same_setup(1) [OF e(1)] by simp
    show "line_in (world s2) = concat fs" "link_up (world s2)" using e(2) Cons.prems(4) by (simp_all add: line_state_def)
    show "\<exists>rs. all_served (f # fs) s rs s'" if "\<exists>rs. all_served fs s2 rs s'" for s'
      using served_step [OF sv ls se] that by blast
  qed
  show ?case
  proof (rule rx_frame [OF cyclic_partial [OF Cons.prems(1)], where g = f and rest = "concat fs"])
    show "length ([] @ f) = unat (dll_req_len_for (hd ([] @ f)) ?c)" using l(1) [OF g] by simp
    show "line_state s = (f @ concat fs, line_out (world s), link_up (world s))"
      using Cons.prems(3) by (simp add: line_state_def)
    show "runs (dll_frame_complete linux_platform s1) (\<lambda>s2. runs (dll_rx_loop linux_platform b1 s2) (\<lambda>s'. \<exists>rs. all_served (f # fs) s rs s'))"
      if "partial_frame ?c ([] @ f) (sk_dll s1)" "line_state s1 = (concat fs, line_out (world s), link_up (world s))"
        "service_env s1 = service_env s" for s1 b1
      using that Cons.prems(4) next'
      by (intro runs_mono [OF frame_served [OF Cons.prems(1) g]]) (auto simp: line_state_def)
  qed (use Cons.prems l(3) [OF g] in \<open>auto simp: cyclic_def\<close>)
qed

end
