(* ===== verification/Session.thy ===== *)
theory Session
  imports Core Cycles
begin

text \<open>
  The stack in use on the virtual line, over several calls of the main loop: from power-on to
  cyclic operation, and a complete ISDU read carried by the on-request bytes of cyclic frames.
\<close>

section \<open>A request and its response in the stream\<close>

lemma od_exchange_quiet:
  assumes "collect_step c b = Some c'" and "is_state c' \<noteq> ISDU_STATE_RESPONSE_READY"
  shows "od_exchange b c = Some (0, c')"
  using assms by (auto simp: collect_step_def od_exchange_def iolink_isdu_get_response_byte_def)

text \<open>Bytes collected without an answer becoming ready are all answered with zeros.\<close>

inductive quiet_path :: "iolink_isdu_ctx \<Rightarrow> bytes \<Rightarrow> iolink_isdu_ctx \<Rightarrow> bool" where
  quiet_end: "quiet_path c [] c"
| quiet_step: "collect_step c b = Some c1 \<Longrightarrow> is_state c1 \<noteq> ISDU_STATE_RESPONSE_READY \<Longrightarrow> quiet_path c1 bs c2 \<Longrightarrow>
     quiet_path c (b # bs) c2"

lemma quiet_path_stream:
  "quiet_path c bs c' \<Longrightarrow> od_stream bs c = Some (replicate (length bs) 0, c') \<and> collect_all c bs = Some c'"
  by (induction rule: quiet_path.induct) (simp_all add: od_exchange_quiet)

inductive_simps quiet_path_simps: "quiet_path c [] c'" "quiet_path c (b # bs) c'"

lemma quiet_read_request:
  assumes "is_state c = ISDU_STATE_IDLE \<or> is_state c = ISDU_STATE_RESPONSE_READY"
  shows "\<exists>c'. quiet_path c (encode_request seq (ReadReq i sub)) c'"
  using assms
  by (simp add: quiet_path_simps encode_request_def index_bytes_def collect_start collect_segment collect_data_step
      isdu_collect_data_def Let_def and.assoc)

text \<open>Zeros fetch the response and change nothing else.\<close>

lemma collect_zero:
  assumes "is_state c = ISDU_STATE_IDLE \<or> is_state c = ISDU_STATE_RESPONSE_READY"
  shows "collect_step c 0 = Some c"
  using assms
  by (auto simp: collect_step_def iolink_isdu_collect_byte_def isdu_collect_control_def isdu_handle_idle_def
      isdu_collect_data_def ctrl_start_def Let_def)

lemma od_stream_fetch:
  assumes "is_state c = ISDU_STATE_IDLE \<or> is_state c = ISDU_STATE_RESPONSE_READY"
  shows "od_stream (replicate n 0) c =
    map_option (\<lambda>(out, c'). (map (case_option 0 id) out, c')) (drain iolink_isdu_get_response_byte n c)"
  using assms
proof (induction n arbitrary: c)
  case (Suc n)
  have x: "od_exchange 0 c = map_option (\<lambda>(r, c'). (case_option 0 id r, c')) (iolink_isdu_get_response_byte c)"
    using collect_zero [OF Suc.prems]
    by (cases "iolink_isdu_get_response_byte c") (auto simp: od_exchange_def collect_step_def split: option.splits)
  have st: "is_state c' = ISDU_STATE_IDLE \<or> is_state c' = ISDU_STATE_RESPONSE_READY"
    if "iolink_isdu_get_response_byte c = Some (r, c')" for r c'
    using that Suc.prems by (auto simp: iolink_isdu_get_response_byte_def Let_def split: if_splits bind_splits)
  show ?case
  proof (cases "iolink_isdu_get_response_byte c")
    case (Some p)
    then obtain r c' where p: "iolink_isdu_get_response_byte c = Some (r, c')" by (cases p) auto
    show ?thesis
      using Suc.IH [OF st [OF p]] by (cases "drain iolink_isdu_get_response_byte n c'") (auto simp: x p)
  qed (simp add: x)
qed simp


section \<open>The start of the connection\<close>

definition transition_bytes :: bytes where
  "transition_bytes = [IOLINK_MC_TRANSITION_COMMAND, crc6 [IOLINK_MC_TRANSITION_COMMAND, 0]]"

definition before_connection :: "iolink_dll_state \<Rightarrow> bool" where
  "before_connection st \<longleftrightarrow> st = IOLINK_DLL_STATE_STARTUP \<or> st = IOLINK_DLL_STATE_AWAITING_COMM \<or> st = IOLINK_DLL_STATE_PREOPERATE"

lemma transition_frame:
  fixes s :: "host_world stack"
  assumes "dll_wf c" and "before_connection (dll_state c)" and "\<not> dll_enforce_timing c"
    and "partial_frame c transition_bytes (sk_dll s)"
  shows "runs (dll_frame_complete linux_platform s) (\<lambda>s'. dll_state (sk_dll s') = IOLINK_DLL_STATE_ESTAB_COM \<and>
     dll_frame_index (sk_dll s') = 0 \<and> link_setup (sk_dll s') = link_setup c \<and> dll_data (sk_dll s') = dll_data c \<and>
     dll_wf (sk_dll s') \<and> line_state s' = line_state s)"
proof -
  let ?d = "sk_dll s"
  note k = partial_frame_keeps [OF assms(4)]
  have wf: "dll_wf ?d" by (rule partial_frame_wf [OF assms(4,1)])
  have rl: "dll_req_len_for b c = 2" for b using assms(2) by (auto simp: dll_req_len_for_def before_connection_def Let_def)
  have d: "dll_req_len ?d = 2" "dll_frame_index ?d = 2" "take 2 (dll_frame_buf ?d) = transition_bytes" "length (dll_frame_buf ?d) = 48"
    using assms(4) rl by (auto simp: partial_frame_def transition_bytes_def numeral_2_eq_2 simp del: take_Suc_Cons)
  have b0: "dll_frame_buf ?d ! 0 = IOLINK_MC_TRANSITION_COMMAND"
    using nth_take [of 0 2 "dll_frame_buf ?d"] d(3) by (simp add: transition_bytes_def)
  have nt: "\<not> dll_enforce_timing ?d" using k(1) assms(3) by (simp add: link_setup_def)
  then obtain t s1 where s1: "dll_cycle_timing linux_platform s = Some s1" "sk_dll s1 = ?d\<lparr>dll_last_cycle_start_us := t\<rparr>"
    by (rule cycle_timing_quiet)
  have ls: "line_state s1 = line_state s" using cycle_timing_virtual [of s] s1(1) wf by (simp add: dll_wf_def)
  have crc: "dll_crc_ok (sk_dll s1) = Some True"
  proof -
    have "received_frame (sk_dll s1) = transition_bytes" using d by (simp add: s1(2) received_frame_def)
    moreover have "dll_wf (sk_dll s1)" "dll_frame_index (sk_dll s1) \<noteq> 0" using wf d by (simp_all add: s1(2) dll_wf_def)
    ultimately show ?thesis using dll_crc_ok_eq [of "sk_dll s1"] by (simp add: frame_valid_def transition_bytes_def)
  qed
  have "dll_dispatch linux_platform s1 = Some (mod_dll (\<lambda>c. c\<lparr>dll_state := IOLINK_DLL_STATE_ESTAB_COM, dll_fallback_count := 0\<rparr>) (dll_first_frame s1))"
    using assms(2) d b0 k(2)
    by (auto simp: dll_dispatch_def dll_first_frame_def dll_dispatch_preoperate_def dll_handle_preoperate_def Let_def s1(2) before_connection_def)
  then have "dll_frame_complete linux_platform s = Some (mod_dll (\<lambda>c. c\<lparr>dll_frame_index := 0\<rparr>)
      (mod_dll (\<lambda>c. c\<lparr>dll_state := IOLINK_DLL_STATE_ESTAB_COM, dll_fallback_count := 0\<rparr>) (dll_first_frame s1)))"
    by (simp add: dll_frame_complete_def s1(1) crc)
  then show ?thesis
    using wf k ls by (auto simp: dll_first_frame_def s1(2) link_setup_def dll_data_def dll_wf_def)
qed

lemma connection_frames:
  assumes "dll_wf (sk_dll s)" and "before_connection (dll_state (sk_dll s))" and "\<not> dll_enforce_timing (sk_dll s)"
    and "dll_phy (sk_dll s) = Ref iolink_phy_virtual_get" and "dll_baudrate (sk_dll s) \<noteq> IOLINK_BAUDRATE_COM1"
    and "dll_m_seq_type (sk_dll s) \<noteq> IOLINK_M_SEQ_TYPE_0" and "dll_frame_index (sk_dll s) = 0"
    and "line_in (world s) = transition_bytes @ concat fs" and "link_up (world s)"
    and "\<forall>f \<in> set fs. good_frame (sk_dll s) f"
  shows "runs (dll_rx_loop linux_platform b s) (\<lambda>s'. \<exists>s1 rs. link_setup (sk_dll s1) = link_setup (sk_dll s) \<and>
     dll_data (sk_dll s1) = dll_data (sk_dll s) \<and> line_out (world s1) = line_out (world s) \<and> all_served fs s1 rs s')"
proof -
  let ?c = "sk_dll s"
  have p0: "partial_frame ?c [] ?c" using assms(1,7) by (simp add: partial_frame_def assembly_only_refl dll_wf_def)
  have rl: "dll_req_len_for x ?c = 2" for x using assms(2) by (auto simp: dll_req_len_for_def before_connection_def Let_def)
  show ?thesis
  proof (rule rx_frame [OF p0 assms(1), where g = transition_bytes and rest = "concat fs"])
    show "line_state s = (transition_bytes @ concat fs, line_out (world s), link_up (world s))"
      using assms(8) by (simp add: line_state_def)
    fix s1 b1
    assume p: "partial_frame ?c ([] @ transition_bytes) (sk_dll s1)" and l: "line_state s1 = (concat fs, line_out (world s), link_up (world s))"
    have fin: "runs (dll_rx_loop linux_platform b1 s2) (\<lambda>s'. \<exists>s1 rs. link_setup (sk_dll s1) = link_setup ?c \<and>
         dll_data (sk_dll s1) = dll_data ?c \<and> line_out (world s1) = line_out (world s) \<and> all_served fs s1 rs s')"
      if "dll_state (sk_dll s2) = IOLINK_DLL_STATE_ESTAB_COM" "dll_frame_index (sk_dll s2) = 0"
        "link_setup (sk_dll s2) = link_setup ?c" "dll_data (sk_dll s2) = dll_data ?c" "dll_wf (sk_dll s2)" "line_state s2 = line_state s1" for s2
    proof -
      have "cyclic (sk_dll s2)" using that assms(3-6) by (simp add: cyclic_def link_setup_def)
      moreover have "line_in (world s2) = concat fs" "link_up (world s2)" "line_out (world s2) = line_out (world s)"
        using that(6) l assms(9) by (simp_all add: line_state_def)
      ultimately show ?thesis
        using assms(10) same_setup(1) [OF that(3)] that(3,4)
        by (intro runs_mono [OF serve_frames]) auto
    qed
    show "runs (dll_frame_complete linux_platform s1) (\<lambda>s2. runs (dll_rx_loop linux_platform b1 s2) (\<lambda>s'. \<exists>s1 rs. link_setup (sk_dll s1) = link_setup ?c \<and>
       dll_data (sk_dll s1) = dll_data ?c \<and> line_out (world s1) = line_out (world s) \<and> all_served fs s1 rs s'))"
      using p fin by (intro runs_mono [OF transition_frame [OF assms(1-3)]]) auto
  qed (use assms(3,4,9) in \<open>simp_all add: transition_bytes_def rl\<close>)
qed

section \<open>The phases before reception\<close>

definition timed_out :: "'w platform \<Rightarrow> 'w stack \<Rightarrow> bool" where
  "timed_out plat s \<longleftrightarrow> dll_last_activity_ms (sk_dll s) \<noteq> 0 \<and>
     fst (iolink_time_get_ms plat s) - dll_last_activity_ms (sk_dll s) > 1000"

lemma time_get_ms_ctx: "sk_dll (snd (iolink_time_get_ms plat s)) = sk_dll s"
  "service_env (snd (iolink_time_get_ms plat s)) = service_env s"
  by (simp_all add: iolink_time_get_ms_def split_def)

lemma inactivity_none: "\<not> timed_out plat s \<Longrightarrow> dll_inactivity plat s = Some (snd (iolink_time_get_ms plat s))"
  using time_get_ms_ctx [of plat s] by (auto simp: dll_inactivity_def timed_out_def split_def Let_def)

lemma poll_virtual: "dll_phy (sk_dll s) = Ref iolink_phy_virtual_get \<Longrightarrow> dll_poll_diagnostics s = Some s"
  by (simp add: dll_poll_diagnostics_def dll_poll_voltage_def dll_poll_short_def iolink_phy_virtual_get_def)

lemma isdu_process_idle: "is_state (dll_isdu (sk_dll s)) \<noteq> ISDU_STATE_SERVICE_EXECUTE \<Longrightarrow> dll_isdu_process plat s = Some s"
  by (simp add: dll_isdu_process_def iolink_isdu_process_def isdu_view_def)

text \<open>On the virtual PHY, without timing checks and delays, a call is its service step and then reception.\<close>

lemma process_virtual:
  assumes "dll_phy (sk_dll s) = Ref iolink_phy_virtual_get" and "dll_isdu_process linux_platform s = Some s1"
    and "dll_phy (sk_dll s1) = Ref iolink_phy_virtual_get" and "\<not> timed_out linux_platform s1"
    and "dll_t_pd_deadline_us (sk_dll s1) = 0" and "\<not> dll_enforce_timing (sk_dll s1)"
  shows "iolink_dll_process linux_platform s =
     (let s2 = snd (iolink_time_get_ms linux_platform s1) in
      if dll_phy_mode (sk_dll s1) = IOLINK_PHY_MODE_SIO then dll_sio_phase linux_platform s2 else dll_rx_loop linux_platform 0 s2)"
proof -
  let ?s2 = "snd (iolink_time_get_ms linux_platform s1)"
  have "dll_communicate linux_platform ?s2 = dll_rx_loop linux_platform 0 ?s2"
    using assms(6) by (simp add: dll_communicate_def dll_byte_timeout_def byte_limit_checked_def dll_wakeup_wait_def time_get_ms_ctx Let_def)
  then show ?thesis
    using assms
    by (simp add: iolink_dll_process_def poll_virtual inactivity_none dll_t_pd_active_def time_get_ms_ctx Let_def)
qed


section \<open>Cyclic operation over the main loop\<close>

text \<open>In cyclic operation on the virtual line: SDCI mode, start-up delay over, recent activity.\<close>

definition operating :: "host_world core \<Rightarrow> bool" where
  "operating k \<longleftrightarrow>
     (let s = g_stack k in cyclic (sk_dll s) \<and> dll_phy_mode (sk_dll s) = IOLINK_PHY_MODE_SDCI \<and>
      dll_t_pd_deadline_us (sk_dll s) = 0 \<and> link_up (world s) \<and> \<not> timed_out linux_platform s)"

lemma line_state_time [simp]: "line_state (snd (iolink_time_get_ms linux_platform s)) = line_state s"
  using linux_time_stack(2) [of s "fst (iolink_time_get_ms linux_platform s)"] by simp

lemma all_served_time: "all_served fs (snd (iolink_time_get_ms linux_platform s)) rs s' \<longleftrightarrow> all_served fs s rs s'"
  using line_state_time [of s]
  by (simp add: all_served_def time_get_ms_ctx line_state_def Let_def)

lemma timed_out_clock:
  fixes s s1 :: "host_world stack"
  assumes "lw_clock (world s1) = lw_clock (world s)" and "dll_last_activity_ms (sk_dll s1) = dll_last_activity_ms (sk_dll s)"
  shows "timed_out linux_platform s1 = timed_out linux_platform s"
proof -
  have a: "fst (clock_gettime w) = fst (clock_gettime w')" if "lw_clock w = lw_clock w'" for w w' :: host_world
    unfolding clock_gettime_def that by (cases "lw_clock w'"; cases "tl (lw_clock w')") auto
  have b: "fst (linux_time_get_ms w) = (case fst (clock_gettime w) of (r, sec, nsec) \<Rightarrow>
      if r \<noteq> 0 then 0 else ucast (word_of_nat sec * 1000 + word_of_nat nsec div 1000000 :: u64))" for w :: host_world
    by (simp only: linux_time_get_ms_def split_beta fst_conv if_distrib [of fst])
  have "fst (linux_time_get_ms (world s1)) = fst (linux_time_get_ms (world s))"
    by (simp only: b a [OF assms(1)])
  then show ?thesis
    using assms by (simp add: timed_out_def iolink_time_get_ms_def linux_platform_def split_beta)
qed

text \<open>After a service step that leaves line and clock alone the waiting frames are served.\<close>

lemma process_serves_io:
  assumes "operating k" and "dll_isdu_process linux_platform (g_stack k) = Some s1"
    and "sk_dll s1 = (sk_dll (g_stack k))\<lparr>dll_isdu := i, dll_events := q, dll_ds := d\<rparr>" and "isdu_wf i" and "events_wf q"
    and "line_state s1 = line_state (g_stack k)" and "lw_clock (world s1) = lw_clock (world (g_stack k))"
    and "line_in (world (g_stack k)) = concat fs" and "\<forall>f \<in> set fs. good_frame (sk_dll (g_stack k)) f"
  shows "runs (iolink_process linux_platform k) (\<lambda>k'. \<exists>rs. all_served fs s1 rs (g_stack k'))"
proof -
  let ?c = "sk_dll (g_stack k)" and ?s2 = "snd (iolink_time_get_ms linux_platform s1)"
  have c: "cyclic (sk_dll s1)" "good_frame (sk_dll s1) = good_frame ?c"
    using assms(1,4,5) by (auto simp: operating_def Let_def cyclic_def assms(3) dll_wf_def good_frame_def fun_eq_iff)
  have t: "timed_out linux_platform s1 = timed_out linux_platform (g_stack k)"
    using assms(7) by (intro timed_out_clock) (simp_all add: assms(3))
  have "iolink_dll_process linux_platform (g_stack k) = dll_rx_loop linux_platform 0 ?s2"
    using assms(1) t by (subst process_virtual [OF _ assms(2)]) (auto simp: operating_def Let_def cyclic_def assms(3))
  moreover have "runs (dll_rx_loop linux_platform 0 ?s2) (\<lambda>s'. \<exists>rs. all_served fs ?s2 rs s')"
    using c assms(1,6,8,9) line_state_time [of s1]
    by (intro serve_frames) (auto simp: time_get_ms_ctx line_state_def operating_def Let_def)
  ultimately show ?thesis by (simp add: iolink_process_def all_served_time)
qed

lemma process_serves:
  assumes "operating k" and "dll_isdu_process linux_platform (g_stack k) = Some s1"
    and "sk_dll s1 = (sk_dll (g_stack k))\<lparr>dll_isdu := i, dll_events := q, dll_ds := d\<rparr>" and "isdu_wf i" and "events_wf q"
    and "world s1 = world (g_stack k)"
    and "line_in (world (g_stack k)) = concat fs" and "\<forall>f \<in> set fs. good_frame (sk_dll (g_stack k)) f"
  shows "runs (iolink_process linux_platform k) (\<lambda>k'. \<exists>rs. all_served fs s1 rs (g_stack k'))"
  using assms by (intro process_serves_io) (simp_all add: line_state_def)

text \<open>A frame of the master on the process channel, and a device in operation with frames waiting.\<close>

definition cyclic_frame :: "bytes \<Rightarrow> bytes \<Rightarrow> bytes" where
  "cyclic_frame pd od = [0, 0] @ pd @ od @ [crc6 ([0, 0] @ pd @ od)]"

lemma cyclic_frame_good:
  assumes "length pd = unat (dll_pd_out_len_current c)" and "length od = unat (dll_od_len c)"
  shows "good_frame c (cyclic_frame pd od)" "frame_odata c (cyclic_frame pd od) = od" "frame_pd c (cyclic_frame pd od) = pd"
  using assms
  by (simp_all add: good_frame_def cyclic_frame_def frame_valid_def forbidden_channel_def frame_odata_def frame_pd_def nth_append)

definition demo_operating :: "bytes list \<Rightarrow> host_world core" where
  "demo_operating fs =
     \<lparr>g_stack = set_world (demo_world\<lparr>line_in := concat fs\<rparr>) (mod_dll (\<lambda>c. c\<lparr>dll_frame_index := 0\<rparr>) (demo_stack demo_frame)),
      g_config = demo_config\<rparr>"

lemma demo_operating_simps:
  "operating (demo_operating fs)" "is_state (dll_isdu (sk_dll (g_stack (demo_operating fs)))) = ISDU_STATE_IDLE"
  "line_in (world (g_stack (demo_operating fs))) = concat fs" "unat (dll_od_len (sk_dll (g_stack (demo_operating fs)))) = 1"
  "unat (dll_pd_out_len_current (sk_dll (g_stack (demo_operating fs)))) = 1" "globals_wf (sk_globals (g_stack (demo_operating fs)))"
proof -
  have wf: "dll_wf (sk_dll (demo_stack demo_frame))" by (rule demo_stack_wf) (simp_all add: demo_frame_valid)
  then show "operating (demo_operating fs)"
    by (simp add: operating_def cyclic_def demo_operating_def dll_wf_def timed_out_def Let_def)
       (simp add: demo_stack_def zero_dll_ctx_def demo_world_def link_up_def)
qed (simp_all add: demo_operating_def demo_stack_def zero_dll_ctx_def zero_isdu_ctx_def globals_wf_def
       globals_wf_static [unfolded globals_wf_def] set_world_def demo_world_def world_def)

text \<open>
  Every cycle is answered.  A device in cyclic operation that finds any number of good frames
  on the line serves them all in one call of the main loop: the line is empty afterwards, the
  responses are exactly one per frame, in order, each with the current input data, its flags and
  a good checksum, the output data is that of the last frame, and the on-request bytes have gone
  through the ISDU engine as one stream.
\<close>

theorem session_cycles:
  assumes "operating k" and "is_state (dll_isdu (sk_dll (g_stack k))) \<noteq> ISDU_STATE_SERVICE_EXECUTE"
    and "line_in (world (g_stack k)) = concat fs" and "\<forall>f \<in> set fs. good_frame (sk_dll (g_stack k)) f"
  shows "runs (iolink_process linux_platform k) (\<lambda>k'. \<exists>rs. all_served fs (g_stack k) rs (g_stack k'))"
  using assms
  by (intro process_serves [where i = "dll_isdu (sk_dll (g_stack k))" and q = "dll_events (sk_dll (g_stack k))"
        and d = "dll_ds (sk_dll (g_stack k))"])
     (auto simp: isdu_process_idle operating_def cyclic_def dll_wf_def Let_def)


lemma session_cycles_witness:
  "runs (iolink_process linux_platform (demo_operating [cyclic_frame [0xAA] [0], cyclic_frame [0xBB] [0]]))
     (\<lambda>k'. \<exists>rs. all_served [cyclic_frame [0xAA] [0], cyclic_frame [0xBB] [0]]
        (g_stack (demo_operating [cyclic_frame [0xAA] [0], cyclic_frame [0xBB] [0]])) rs (g_stack k'))"
  by (rule session_cycles [OF demo_operating_simps(1)]) (simp_all add: demo_operating_simps cyclic_frame_good)

section \<open>A read over cyclic frames\<close>

lemma read_spec_env:
  assumes "sy_events y' = sy_events y" and "sy_stats y' = sy_stats y" and "gl_info (sy_globals y') = gl_info (sy_globals y)"
    and "g_nvm_shadow (sy_globals y') = g_nvm_shadow (sy_globals y)" and "isdu_bindings (sy_isdu y') = isdu_bindings (sy_isdu y)"
  shows "read_spec y' i sub = read_spec y i sub"
  using assms
  by (simp add: read_spec_def pending_def stats_spec_def mandatory_spec_def isdu_bindings_def tag_shown_def tag_value_def
      has_app_tag_def Let_def cong: option.case_cong)

text \<open>The frames that carried a read request leave the engine about to execute it.\<close>

lemma request_collected:
  assumes "od_stream (encode_request seq (ReadReq i sub)) c = Some (out, c')" and "isdu_wf c"
    and "is_state c = ISDU_STATE_IDLE \<or> is_state c = ISDU_STATE_RESPONSE_READY"
  shows "is_state c' = ISDU_STATE_SERVICE_EXECUTE" "holds_request (ReadReq i sub) c'" "isdu_bindings c' = isdu_bindings c" "isdu_wf c'"
proof -
  obtain d where "quiet_path c (encode_request seq (ReadReq i sub)) d" using quiet_read_request [OF assms(3)] by blast
  from quiet_path_stream [OF this] assms(1) have "collect_all c (encode_request seq (ReadReq i sub)) = Some c'" by simp
  with collect_request [OF assms(2,3), of "ReadReq i sub" seq]
  show "is_state c' = ISDU_STATE_SERVICE_EXECUTE" "holds_request (ReadReq i sub) c'" "isdu_bindings c' = isdu_bindings c" "isdu_wf c'"
    by simp_all
qed

lemma answer_fetched:
  assumes "answered bs c" and "bs \<noteq> []" and "od_stream (replicate (2 * length bs) 0) c = Some (out, c')"
  shows "decode_segments True 0 out = Some bs" "is_state c' = ISDU_STATE_IDLE" "isdu_bindings c' = isdu_bindings c"
proof -
  have "is_state c = ISDU_STATE_RESPONSE_READY" using assms(1) by (simp add: answered_def prepared_def)
  then have "out = encode_segments True 0 bs \<and> is_state c' = ISDU_STATE_IDLE \<and> isdu_bindings c' = isdu_bindings c"
    using assms(3) drain_answered [OF assms(1,2)] by (auto simp: od_stream_fetch comp_def elim!: runsE)
  then show "decode_segments True 0 out = Some bs" "is_state c' = ISDU_STATE_IDLE" "isdu_bindings c' = isdu_bindings c"
    using decode_encode_segments [OF assms(2)] by simp_all
qed

text \<open>The service step of a call that finds a read request.\<close>

lemma read_service_step:
  assumes "executing (isdu_view s)" and "holds_request (ReadReq i sub) (dll_isdu (sk_dll s))"
    and "read_spec (isdu_view s) i sub = Some bs"
  obtains e q d g where "dll_isdu_process plat s =
      Some (s\<lparr>sk_dll := (sk_dll s)\<lparr>dll_isdu := e, dll_events := q, dll_ds := d\<rparr>, sk_globals := g\<rparr>)"
    and "answered bs e" and "isdu_wf e" and "events_wf q" and "gl_world g = world s"
proof -
  have "runs (iolink_isdu_process plat (isdu_view s)) (\<lambda>y. sys_wf y \<and> read_effect i (isdu_view s) y \<and> answered bs (sy_isdu y))"
    using isdu_read_process [OF assms(1), of plat] assms(2,3) by (simp add: is_read_def isdu_view_def)
  then obtain y where y: "iolink_isdu_process plat (isdu_view s) = Some y" "sys_wf y" "read_effect i (isdu_view s) y"
    "answered bs (sy_isdu y)" by (auto elim!: runsE)
  have "gl_world (sy_globals y) = world s"
    using y(3) by (auto simp: read_effect_def isdu_view_def installed_def world_def split: prod.splits)
  then show ?thesis
    using y by (intro that) (auto simp: dll_isdu_process_def sys_wf_def)
qed

lemma read_exchange:
  assumes "operating k1" and "executing (isdu_view (g_stack k1))" and "holds_request (ReadReq i sub) (dll_isdu (sk_dll (g_stack k1)))"
    and "read_spec (isdu_view (g_stack k1)) i sub = Some bs"
    and "line_in (world (g_stack k1)) = concat fs" and "\<forall>f \<in> set fs. good_frame (sk_dll (g_stack k1)) f"
  obtains s1 where "dll_isdu_process linux_platform (g_stack k1) = Some s1" and "answered bs (dll_isdu (sk_dll s1))"
    and "world s1 = world (g_stack k1)" and "link_setup (sk_dll s1) = link_setup (sk_dll (g_stack k1))"
    and "response_ok (sk_dll s1) = response_ok (sk_dll (g_stack k1))"
    and "runs (iolink_process linux_platform k1) (\<lambda>k2. \<exists>rs. all_served fs s1 rs (g_stack k2))"
proof -
  let ?s = "g_stack k1"
  obtain e q d g where step: "dll_isdu_process linux_platform ?s =
      Some (?s\<lparr>sk_dll := (sk_dll ?s)\<lparr>dll_isdu := e, dll_events := q, dll_ds := d\<rparr>, sk_globals := g\<rparr>)" (is "_ = Some ?s1")
    and e: "answered bs e" "isdu_wf e" "events_wf q" "gl_world g = world ?s"
    by (rule read_service_step [OF assms(2-4)])
  have w: "world ?s1 = world ?s" "sk_dll ?s1 = (sk_dll ?s)\<lparr>dll_isdu := e, dll_events := q, dll_ds := d\<rparr>"
    using e(4) by (simp_all add: world_def)
  have ls: "link_setup (sk_dll ?s1) = link_setup (sk_dll ?s)" by (simp add: link_setup_def)
  have "response_ok (sk_dll ?s1) = response_ok (sk_dll ?s)" by (rule same_setup(5) [OF ls]) simp
  then show ?thesis
    using e(1) by (intro that [OF step _ w(1) ls _ process_serves [OF assms(1) step w(2) e(2,3) w(1) assms(5,6)]]) simp_all
qed

lemma read_answered:
  assumes "operating k1" and "executing (isdu_view (g_stack k1))" and "holds_request (ReadReq i sub) (dll_isdu (sk_dll (g_stack k1)))"
    and "read_spec (isdu_view (g_stack k1)) i sub = Some bs" and "bs \<noteq> []"
    and "line_in (world (g_stack k1)) = concat fs" and "\<forall>f \<in> set fs. good_frame (sk_dll (g_stack k1)) f"
    and "concat (map (frame_odata (sk_dll (g_stack k1))) fs) = replicate (2 * length bs) 0"
  shows "runs (iolink_process linux_platform k1) (\<lambda>k2. \<exists>rs. line_out (world (g_stack k2)) = line_out (world (g_stack k1)) @ concat rs \<and>
     length rs = length fs \<and> list_all (response_ok (sk_dll (g_stack k1))) rs \<and>
     decode_segments True 0 (concat (map (response_odata (sk_dll (g_stack k1))) rs)) = Some bs)"
proof -
  let ?c = "sk_dll (g_stack k1)"
  obtain s1 where s1: "answered bs (dll_isdu (sk_dll s1))" "world s1 = world (g_stack k1)" "link_setup (sk_dll s1) = link_setup ?c"
      "response_ok (sk_dll s1) = response_ok ?c"
    and served: "runs (iolink_process linux_platform k1) (\<lambda>k2. \<exists>rs. all_served fs s1 rs (g_stack k2))"
    by (rule read_exchange [OF assms(1-4,6,7)])
  have "decode_segments True 0 (concat (map (response_odata ?c) rs)) = Some bs" if "all_served fs s1 rs s2" for rs s2
    using that assms(8) answer_fetched(1) [OF s1(1) assms(5)] same_setup(3,4) [OF s1(3)] by (simp add: all_served_def Let_def)
  then show ?thesis
    by (intro runs_mono [OF served]) (use s1(2,4) in \<open>auto simp: all_served_def Let_def line_state_def\<close>)
qed

section \<open>From power-on to operation\<close>

lemma skip_to_wakeup_found: "0x55 \<in> set bs \<Longrightarrow> fst (skip_to_wakeup bs) = 1"
  by (induction bs) auto

lemma wakeup_phase:
  fixes s :: "host_world stack"
  assumes "dll_phy (sk_dll s) = Ref iolink_phy_virtual_get" and "dll_frame_index (sk_dll s) = 0"
    and "0x55 \<in> set (line_in (world s))" and "link_up (world s)"
  shows "runs (dll_sio_phase linux_platform s) (\<lambda>s'. \<exists>x. sk_dll s' = (sk_dll s)\<lparr>dll_wakeup_seen := True,
     dll_state := IOLINK_DLL_STATE_AWAITING_COMM, dll_wakeup_deadline_us := x, dll_phy_mode := IOLINK_PHY_MODE_SDCI\<rparr>)"
proof -
  obtain r bs where r: "skip_to_wakeup (line_in (world s)) = (r, bs)" "r = 1"
    using skip_to_wakeup_found [OF assms(3)] by (cases "skip_to_wakeup (line_in (world s))") auto
  let ?s = "mod_dll (\<lambda>c. c\<lparr>dll_wakeup_seen := True, dll_state := IOLINK_DLL_STATE_AWAITING_COMM\<rparr>) (set_world ((world s)\<lparr>line_in := bs\<rparr>) s)"
  obtain t s1 where t: "iolink_time_get_us linux_platform ?s = (t, s1)" by fastforce
  have phy: "phy_detect_wakeup iolink_phy_virtual_get = Ref virtual_detect_wakeup" "phy_set_mode iolink_phy_virtual_get = Ref virtual_set_mode"
    by (simp_all add: iolink_phy_virtual_get_def)
  have "dll_sio_phase linux_platform s = iolink_dll_set_sdci_mode (mod_dll (\<lambda>c. c\<lparr>dll_wakeup_deadline_us := t + IOLINK_T_DWU_US\<rparr>) s1)"
    using assms r t by (simp add: dll_sio_phase_def the_phy_def phy virtual_detect_wakeup_def link_up_def)
  then show ?thesis
    using time_get_us_ctx [OF t] assms(1)
    by (auto simp: iolink_dll_set_sdci_mode_def dll_set_mode_def the_phy_def phy)
qed

text \<open>The configuration as a context, for the lengths it gives frames and responses.\<close>

definition config_ctx :: "iolink_config \<Rightarrow> host_world iolink_dll_ctx" where
  "config_ctx cfg = apply_lengths (apply_config cfg zero_dll_ctx)"

text \<open>Woken up and waiting for the first frame.\<close>

definition awaiting :: "iolink_config \<Rightarrow> host_world iolink_dll_ctx \<Rightarrow> bool" where
  "awaiting cfg c \<longleftrightarrow>
     dll_wf c \<and> dll_state c = IOLINK_DLL_STATE_AWAITING_COMM \<and> dll_phy_mode c = IOLINK_PHY_MODE_SDCI \<and>
     \<not> dll_enforce_timing c \<and> dll_phy c = Ref iolink_phy_virtual_get \<and> dll_baudrate c = IOLINK_BAUDRATE_COM2 \<and>
     dll_m_seq_type c \<noteq> IOLINK_M_SEQ_TYPE_0 \<and> dll_frame_index c = 0 \<and> dll_t_pd_deadline_us c = 0 \<and>
     dll_last_activity_ms c = 0 \<and> is_state (dll_isdu c) = ISDU_STATE_IDLE \<and>
     good_frame c = good_frame (config_ctx cfg) \<and> frame_pd c = frame_pd (config_ctx cfg) \<and>
     dll_pd_out_len_current c = cfg_pd_out_len cfg"

lemma fresh_wakes:
  assumes "fresh iolink_phy_virtual_get cfg k" and "config_ok cfg" and "cfg_m_seq_type cfg \<noteq> IOLINK_M_SEQ_TYPE_0"
    and "cfg_t_pd_us cfg = 0" and "0x55 \<in> set (line_in w)" and "link_up w"
  shows "runs (iolink_process linux_platform (mod_stack (set_world w) k)) (\<lambda>k'. awaiting cfg (sk_dll (g_stack k')))"
proof -
  let ?s = "set_world w (g_stack k)" and ?c = "sk_dll (g_stack k)"
  let ?s2 = "snd (iolink_time_get_ms linux_platform ?s)"
  note f = assms(1) [unfolded fresh_def Let_def]
  have wf: "dll_wf ?c" using fresh_live [OF assms(1,2)] by (simp add: live_def stack_wf_def)
  have len: "dll_pd_out_len_current (config_ctx cfg) = cfg_pd_out_len cfg" "dll_od_len (config_ctx cfg) = od_len_of (cfg_m_seq_type cfg)"
    by (simp_all add: config_ctx_def apply_lengths_def apply_config_def)
  have "iolink_dll_process linux_platform ?s = dll_sio_phase linux_platform ?s2"
    using f assms(4) by (subst process_virtual [OF _ isdu_process_idle]) (auto simp: timed_out_def)
  moreover have "runs (dll_sio_phase linux_platform ?s2) (\<lambda>s'. \<exists>x. sk_dll s' = (sk_dll ?s2)\<lparr>dll_wakeup_seen := True,
     dll_state := IOLINK_DLL_STATE_AWAITING_COMM, dll_wakeup_deadline_us := x, dll_phy_mode := IOLINK_PHY_MODE_SDCI\<rparr>)"
    using f assms(5,6) line_state_time [of ?s] by (intro wakeup_phase) (auto simp: time_get_ms_ctx line_state_def)
  ultimately show ?thesis
    using wf f assms(3,4) len
    by (auto simp: iolink_process_def awaiting_def dll_wf_def good_frame_def frame_pd_def fun_eq_iff time_get_ms_ctx elim!: runs_mono)
qed

lemma awaiting_connects:
  assumes "awaiting cfg (sk_dll (g_stack k))" and "line_in w = transition_bytes @ concat fs" and "link_up w" and "fs \<noteq> []"
    and "\<forall>f \<in> set fs. good_frame (config_ctx cfg) f"
  shows "runs (iolink_process linux_platform (mod_stack (set_world w) k)) (\<lambda>k.
     iolink_get_state k = IOLINK_DLL_STATE_OPERATE \<and> line_in (world (g_stack k)) = [] \<and>
     (\<exists>rs. line_out (world (g_stack k)) = line_out w @ concat rs \<and> length rs = length fs \<and>
        list_all (response_ok (sk_dll (g_stack k))) rs) \<and>
     take (unat (cfg_pd_out_len cfg)) (dll_pd_out (sk_dll (g_stack k))) = frame_pd (config_ctx cfg) (last fs))"
    (is "runs _ ?Q")
proof -
  let ?s = "set_world w (g_stack k)"
  let ?s2 = "snd (iolink_time_get_ms linux_platform ?s)"
  note f = assms(1) [unfolded awaiting_def]
  have "iolink_dll_process linux_platform ?s = dll_rx_loop linux_platform 0 ?s2"
    using f by (subst process_virtual [OF _ isdu_process_idle]) (auto simp: timed_out_def)
  moreover have "runs (dll_rx_loop linux_platform 0 ?s2) (\<lambda>s'. \<exists>s1 rs. link_setup (sk_dll s1) = link_setup (sk_dll ?s2) \<and>
     dll_data (sk_dll s1) = dll_data (sk_dll ?s2) \<and> line_out (world s1) = line_out (world ?s2) \<and> all_served fs s1 rs s')"
    using f assms(2,3,5) line_state_time [of ?s]
    by (intro connection_frames) (auto simp: time_get_ms_ctx before_connection_def line_state_def)
  moreover have "?Q (mod_stack (\<lambda>_. s') (mod_stack (set_world w) k))"
    if "link_setup (sk_dll s1) = link_setup (sk_dll ?s2)" "line_out (world s1) = line_out (world ?s2)" "all_served fs s1 rs s'" for s1 s' rs
  proof -
    have ls: "link_setup (sk_dll s') = link_setup (sk_dll s1)" using that(3) by (simp add: all_served_def Let_def)
    have ro: "response_ok (sk_dll s') = response_ok (sk_dll s1)"
      using that(3) by (intro same_setup(5) [OF ls]) (simp add: all_served_def Let_def)
    have out: "line_out (world ?s2) = line_out w" using line_state_time [of ?s] by (simp add: line_state_def)
    have pd: "frame_pd (sk_dll s1) = frame_pd (config_ctx cfg)" "dll_pd_out_len_current (sk_dll s1) = cfg_pd_out_len cfg"
      using same_setup(2) [OF that(1)] f that(1) by (simp_all add: time_get_ms_ctx link_setup_def)
    show ?thesis
      using that(2,3) assms(4) pd ro out by (auto simp: all_served_def Let_def iolink_get_state_def line_state_def)
  qed
  ultimately show ?thesis
    by (auto simp: iolink_process_def mod_stack_def elim!: runs_mono)
qed

text \<open>
  C4: The device comes up.  Power on, a wake-up request on the line, the transition command and
  then cyclic frames: after \<^verbatim>\<open>iolink_init\<close> and two calls of the main loop the device is in OPERATE,
  every cyclic frame has been answered by exactly one well-formed response and the output data of
  the last frame is in the application's buffer.
\<close>

theorem session_bring_up:
  assumes "config_ok cfg" and "cfg_m_seq_type cfg \<noteq> IOLINK_M_SEQ_TYPE_0" and "cfg_t_pd_us cfg = 0"
    and "phy_starts iolink_phy_virtual_get w" and "nvm_sane linux_platform (boot_world iolink_phy_virtual_get w)"
    and "0x55 \<in> set (line_in w1)" and "link_up w1"
    and "line_in w2 = transition_bytes @ concat fs" and "link_up w2" and "fs \<noteq> []"
    and "\<forall>f \<in> set fs. good_frame (config_ctx cfg) f"
  shows "runs (do {
       (r, k) \<leftarrow> iolink_init linux_platform (Ref iolink_phy_virtual_get) (Ref cfg) (core_static w);
       k \<leftarrow> iolink_process linux_platform (mod_stack (set_world w1) k);
       k \<leftarrow> iolink_process linux_platform (mod_stack (set_world w2) k);
       Some (r, k) })
    (\<lambda>(r, k). r = 0 \<and> iolink_get_state k = IOLINK_DLL_STATE_OPERATE \<and> line_in (world (g_stack k)) = [] \<and>
       (\<exists>rs. line_out (world (g_stack k)) = line_out w2 @ concat rs \<and> length rs = length fs \<and>
          list_all (response_ok (sk_dll (g_stack k))) rs) \<and>
       take (unat (cfg_pd_out_len cfg)) (dll_pd_out (sk_dll (g_stack k))) = frame_pd (config_ctx cfg) (last fs))"
  by (auto intro!: runs_mono [OF init_static_law [OF assms(4,5)]] runs_mono [OF fresh_wakes [OF _ assms(1-3,6,7)]]
      runs_mono [OF awaiting_connects [OF _ assms(8-11)]])

lemma session_bring_up_witness:
  "runs (do {
       (r, k) \<leftarrow> iolink_init linux_platform (Ref iolink_phy_virtual_get) (Ref demo_config) (core_static demo_world);
       k \<leftarrow> iolink_process linux_platform (mod_stack (set_world (demo_world\<lparr>line_in := [0x00, 0x55]\<rparr>)) k);
       k \<leftarrow> iolink_process linux_platform (mod_stack (set_world
              (demo_world\<lparr>line_in := transition_bytes @ concat [cyclic_frame [0xAA] [0]]\<rparr>)) k);
       Some (r, k) })
    (\<lambda>(r, k). r = 0 \<and> iolink_get_state k = IOLINK_DLL_STATE_OPERATE \<and> take 1 (dll_pd_out (sk_dll (g_stack k))) = [0xAA])"
proof -
  have len: "length [0xAA :: u8] = unat (dll_pd_out_len_current (config_ctx demo_config))"
    "length [0 :: u8] = unat (dll_od_len (config_ctx demo_config))"
    by (simp_all add: config_ctx_def apply_lengths_def apply_config_def demo_config_def od_len_of_def)
  have "runs (do {
       (r, k) \<leftarrow> iolink_init linux_platform (Ref iolink_phy_virtual_get) (Ref demo_config) (core_static demo_world);
       k \<leftarrow> iolink_process linux_platform (mod_stack (set_world (demo_world\<lparr>line_in := [0x00, 0x55]\<rparr>)) k);
       k \<leftarrow> iolink_process linux_platform (mod_stack (set_world
              (demo_world\<lparr>line_in := transition_bytes @ concat [cyclic_frame [0xAA] [0]]\<rparr>)) k);
       Some (r, k) })
    (\<lambda>(r, k). r = 0 \<and> iolink_get_state k = IOLINK_DLL_STATE_OPERATE \<and> line_in (world (g_stack k)) = [] \<and>
       (\<exists>rs. line_out (world (g_stack k)) = line_out (demo_world\<lparr>line_in := transition_bytes @ concat [cyclic_frame [0xAA] [0]]\<rparr>) @ concat rs \<and>
          length rs = length [cyclic_frame [0xAA] [0]] \<and> list_all (response_ok (sk_dll (g_stack k))) rs) \<and>
       take (unat (cfg_pd_out_len demo_config)) (dll_pd_out (sk_dll (g_stack k))) = frame_pd (config_ctx demo_config) (last [cyclic_frame [0xAA] [0]]))"
    by (rule session_bring_up [OF demo_boot(2) _ _ demo_boot(1,3)])
       (simp_all add: demo_config_def demo_world_def link_up_def cyclic_frame_good [OF len, unfolded demo_config_def])
  then show ?thesis
    by (rule runs_mono) (auto simp: cyclic_frame_good [OF len], simp add: demo_config_def)
qed

text \<open>The frames of the request leave the device about to execute it.\<close>

lemma read_delivered:
  assumes "operating k" and "globals_wf (sk_globals (g_stack k))" and "is_state (dll_isdu (sk_dll (g_stack k))) = ISDU_STATE_IDLE"
    and "concat (map (frame_odata (sk_dll (g_stack k))) fs) = encode_request seq (ReadReq i sub)"
    and a: "all_served fs (g_stack k) rs (g_stack k1)" and w: "link_up w" "\<not> timed_out linux_platform (set_world w (g_stack k1))"
  shows "operating (mod_stack (set_world w) k1) \<and> executing (isdu_view (set_world w (g_stack k1))) \<and>
      holds_request (ReadReq i sub) (dll_isdu (sk_dll (g_stack k1))) \<and>
      read_spec (isdu_view (set_world w (g_stack k1))) i sub = read_spec (isdu_view (g_stack k)) i sub \<and>
      isdu_bindings (dll_isdu (sk_dll (g_stack k1))) = isdu_bindings (dll_isdu (sk_dll (g_stack k))) \<and>
      link_setup (sk_dll (g_stack k1)) = link_setup (sk_dll (g_stack k)) \<and>
      response_ok (sk_dll (g_stack k1)) = response_ok (sk_dll (g_stack k))"
proof -
  let ?c = "sk_dll (g_stack k)" and ?c1 = "sk_dll (g_stack k1)" and ?s = "set_world w (g_stack k1)"
  have wf: "isdu_wf (dll_isdu ?c)" using assms(1) by (simp add: operating_def cyclic_def dll_wf_def Let_def)
  have ls: "link_setup ?c1 = link_setup ?c" and cyc: "cyclic ?c1" and env: "service_env (g_stack k1) = service_env (g_stack k)"
    and ok: "response_ok ?c1 = response_ok ?c"
    using a same_setup(5) [of ?c1 ?c] by (simp_all add: all_served_def Let_def)
  have od: "od_stream (encode_request seq (ReadReq i sub)) (dll_isdu ?c) = Some (concat (map (response_odata ?c) rs), dll_isdu ?c1)"
    using a assms(4) by (simp add: all_served_def Let_def)
  have rq: "is_state (dll_isdu ?c1) = ISDU_STATE_SERVICE_EXECUTE" "holds_request (ReadReq i sub) (dll_isdu ?c1)"
    "isdu_bindings (dll_isdu ?c1) = isdu_bindings (dll_isdu ?c)" "isdu_wf (dll_isdu ?c1)"
    using request_collected [OF od wf] assms(3) by simp_all
  have env': "dll_events ?c1 = dll_events ?c" "iolink_dll_get_stats ?c1 = iolink_dll_get_stats ?c"
    "gl_info (sk_globals ?s) = gl_info (sk_globals (g_stack k))" "g_nvm_shadow (sk_globals ?s) = g_nvm_shadow (sk_globals (g_stack k))"
    using env by (simp_all add: service_env_def set_world_def)
  have "executing (isdu_view ?s)"
    using rq(1,4) cyc assms(2) env' by (simp add: executing_def sys_wf_def isdu_view_def cyclic_def dll_wf_def globals_wf_def)
  moreover have "read_spec (isdu_view ?s) i sub = read_spec (isdu_view (g_stack k)) i sub"
    using env' rq(3) by (intro read_spec_env) (simp_all add: isdu_view_def)
  moreover have "operating (mod_stack (set_world w) k1)"
    using cyc ls w assms(1) by (simp add: operating_def Let_def link_setup_def)
  ultimately show ?thesis using rq(2,3) ls ok by simp
qed

text \<open>
  C5: A read over the wire.  A device in cyclic operation receives frames whose on-request bytes
  carry a read request; the next call of the main loop executes it, and the frames that call finds,
  with empty on-request bytes, fetch the answer.  The on-request bytes of their responses decode to
  exactly the bytes that \<open>read_spec\<close> gives for the index and subindex in the state before the
  request, and every response also carries the cyclic process data.
\<close>

theorem session_isdu_read:
  fixes k :: "host_world core"
  defines "c \<equiv> sk_dll (g_stack k)"
  assumes "operating k" and "globals_wf (sk_globals (g_stack k))" and "is_state (dll_isdu c) = ISDU_STATE_IDLE"
    and "line_in (world (g_stack k)) = concat fs1" and "\<forall>f \<in> set fs1. good_frame c f"
    and "concat (map (frame_odata c) fs1) = encode_request seq (ReadReq i sub)"
    and "read_spec (isdu_view (g_stack k)) i sub = Some bs" and "bs \<noteq> []"
  shows "runs (iolink_process linux_platform k) (\<lambda>k1. \<forall>w fs2.
     line_in w = concat fs2 \<and> (\<forall>f \<in> set fs2. good_frame c f) \<and> concat (map (frame_odata c) fs2) = replicate (2 * length bs) 0 \<and>
     link_up w \<and> \<not> timed_out linux_platform (set_world w (g_stack k1)) \<longrightarrow>
     runs (iolink_process linux_platform (mod_stack (set_world w) k1)) (\<lambda>k2. \<exists>rs.
       line_out (world (g_stack k2)) = line_out w @ concat rs \<and> length rs = length fs2 \<and> list_all (response_ok c) rs \<and>
       decode_segments True 0 (concat (map (response_odata c) rs)) = Some bs))"
proof -
  have served: "runs (iolink_process linux_platform k) (\<lambda>k'. \<exists>rs. all_served fs1 (g_stack k) rs (g_stack k'))"
    by (rule session_cycles) (use assms(2,4-6) in \<open>simp_all add: c_def\<close>)
  have main: "runs (iolink_process linux_platform (mod_stack (set_world w) k1)) (\<lambda>k2. \<exists>rs.
       line_out (world (g_stack k2)) = line_out w @ concat rs \<and> length rs = length fs2 \<and> list_all (response_ok c) rs \<and>
       decode_segments True 0 (concat (map (response_odata c) rs)) = Some bs)"
    if a: "all_served fs1 (g_stack k) rs (g_stack k1)" and w: "line_in w = concat fs2" "\<forall>f \<in> set fs2. good_frame c f"
      "concat (map (frame_odata c) fs2) = replicate (2 * length bs) 0" "link_up w" "\<not> timed_out linux_platform (set_world w (g_stack k1))"
    for rs k1 w fs2
  proof -
    note r = read_delivered [OF assms(2,3) assms(4) [unfolded c_def] assms(7) [unfolded c_def] a w(4,5), folded c_def]
    have ls: "link_setup (sk_dll (g_stack k1)) = link_setup c" using r by blast
    show ?thesis
      using read_answered [of "mod_stack (set_world w) k1" i sub bs fs2] r assms(8,9) w(1-3) same_setup(1,3,4) [OF ls] by simp
  qed
  show ?thesis
    by (rule runs_mono [OF served]) (use main in blast)
qed



text \<open>The second world of the example shows the time of the last activity.\<close>

definition demo_reply_world :: "host_world core \<Rightarrow> bytes list \<Rightarrow> host_world" where
  "demo_reply_world k fs = demo_world\<lparr>line_in := concat fs,
     lw_clock := [(0, 0, unat (dll_last_activity_ms (sk_dll (g_stack k))) * 1000000)]\<rparr>"

lemma clock_shows: "ucast (ucast m * 1000000 div 1000000 :: u64) = (m :: u32)"
proof -
  have "unat m < 2 ^ 32" using unsigned_less [of m] by simp
  then have m: "take_bit 32 (unat m) = unat m" and "unat (ucast m * 1000000 :: u64) = unat m * 1000000" by (simp_all add: unat_word_ariths unsigned_ucast_eq take_bit_nat_eq_self)
  then have "unat (ucast m * 1000000 div 1000000 :: u64) = unat m" by (simp add: unat_div)
  then show ?thesis by (simp add: word_unat_eq_iff unsigned_ucast_eq m)
qed

lemma demo_reply_world_simps:
  "line_in (demo_reply_world k fs) = concat fs" "link_up (demo_reply_world k fs)"
  "\<not> timed_out linux_platform (set_world (demo_reply_world k fs) (g_stack k))" "line_out (demo_reply_world k fs) = []"
  by (simp_all add: demo_reply_world_def demo_world_def link_up_def timed_out_def iolink_time_get_ms_def linux_platform_def
      linux_time_get_ms_def clock_gettime_def clock_shows)

lemma session_isdu_read_witness:
  "let c = sk_dll (g_stack (demo_operating [])); fs = map (\<lambda>b. cyclic_frame [0xAA] [b]) (encode_request 0 (ReadReq 0x0A 0)) in
   runs (iolink_process linux_platform (demo_operating fs)) (\<lambda>k1.
     runs (iolink_process linux_platform (mod_stack (set_world (demo_reply_world k1 (replicate 4 (cyclic_frame [0xAA] [0])))) k1))
       (\<lambda>k2. \<exists>rs. line_out (world (g_stack k2)) = concat rs \<and> length rs = 4 \<and>
          decode_segments True 0 (concat (map (response_odata c) rs)) = Some [0xFF, 0xFF]))"
proof -
  let ?fs = "map (\<lambda>b. cyclic_frame [0xAA] [b]) (encode_request 0 (ReadReq 0x0A 0))"
  let ?c = "sk_dll (g_stack (demo_operating ?fs))"
  have same: "sk_dll (g_stack (demo_operating [])) = ?c" by (simp add: demo_operating_def)
  have spec: "read_spec (isdu_view (g_stack (demo_operating ?fs))) 0x0A 0 = Some [0xFF, 0xFF]"
    by (simp add: read_spec_def mandatory_spec_def isdu_view_def demo_operating_def set_world_def demo_stack_def mod_dll_def
        globals_static_def device_info_static_def current_info_def default_info_def u16_be_def)
  have g: "good_frame ?c (cyclic_frame [x] [b])" "frame_odata ?c (cyclic_frame [x] [b]) = [b]" for x b
    by (simp_all add: cyclic_frame_good demo_operating_simps)
  have req: "concat (map (frame_odata ?c) ?fs) = encode_request 0 (ReadReq 0x0A 0)" by (simp add: comp_def g)
  have "runs (iolink_process linux_platform (demo_operating ?fs)) (\<lambda>k1. \<forall>w fs2.
     line_in w = concat fs2 \<and> (\<forall>f \<in> set fs2. good_frame ?c f) \<and> concat (map (frame_odata ?c) fs2) = replicate (2 * length [0xFF :: u8, 0xFF]) 0 \<and>
     link_up w \<and> \<not> timed_out linux_platform (set_world w (g_stack k1)) \<longrightarrow>
     runs (iolink_process linux_platform (mod_stack (set_world w) k1)) (\<lambda>k2. \<exists>rs.
       line_out (world (g_stack k2)) = line_out w @ concat rs \<and> length rs = length fs2 \<and> list_all (response_ok ?c) rs \<and>
       decode_segments True 0 (concat (map (response_odata ?c) rs)) = Some [0xFF, 0xFF]))"
    by (rule session_isdu_read [OF demo_operating_simps(1,6,2,3) _ req spec]) (use g in auto)
  then show ?thesis
    unfolding Let_def same
  proof (rule runs_mono)
    fix k1 :: "host_world core"
    assume a: "\<forall>w fs2.
     line_in w = concat fs2 \<and> (\<forall>f \<in> set fs2. good_frame ?c f) \<and> concat (map (frame_odata ?c) fs2) = replicate (2 * length [0xFF :: u8, 0xFF]) 0 \<and>
     link_up w \<and> \<not> timed_out linux_platform (set_world w (g_stack k1)) \<longrightarrow>
     runs (iolink_process linux_platform (mod_stack (set_world w) k1)) (\<lambda>k2. \<exists>rs.
       line_out (world (g_stack k2)) = line_out w @ concat rs \<and> length rs = length fs2 \<and> list_all (response_ok ?c) rs \<and>
       decode_segments True 0 (concat (map (response_odata ?c) rs)) = Some [0xFF, 0xFF])"
    let ?f2 = "replicate 4 (cyclic_frame [0xAA] [0])"
    have "concat (map (frame_odata ?c) ?f2) = replicate (2 * length [0xFF :: u8, 0xFF]) 0" "\<forall>f \<in> set ?f2. good_frame ?c f"
      using g by (simp_all add: numeral_eq_Suc)
    with a [rule_format, of "demo_reply_world k1 ?f2" ?f2] demo_reply_world_simps [of k1 ?f2]
    show "runs (iolink_process linux_platform (mod_stack (set_world (demo_reply_world k1 ?f2)) k1))
       (\<lambda>k2. \<exists>rs. line_out (world (g_stack k2)) = concat rs \<and> length rs = 4 \<and>
          decode_segments True 0 (concat (map (response_odata ?c) rs)) = Some [0xFF, 0xFF])"
      by (auto elim!: runs_mono)
  qed
qed

end
