(* ===== verification/Applications.thy ===== *)
theory Applications
  imports Session
begin

text \<open>
  The example applications under \<^verbatim>\<open>examples/\<close>: the host demo with its command line and echo loop,
  the bare-metal super-loop, and the start of the simple, Zephyr and FreeRTOS devices.  Console
  output is left out.  What happens outside while an application sleeps is given as a sequence of
  outside states.
\<close>

section \<open>Numbers on the command line\<close>

text \<open>\<^verbatim>\<open>atoi\<close>: white space, a sign, digits; undefined when the value does not fit an \<^verbatim>\<open>int\<close>.\<close>

definition c_isspace :: "char \<Rightarrow> bool" where
  "c_isspace c \<longleftrightarrow> of_char c = (32 :: nat) \<or> (9 \<le> (of_char c :: nat) \<and> of_char c \<le> (13 :: nat))"

definition c_isdigit :: "char \<Rightarrow> bool" where
  "c_isdigit c \<longleftrightarrow> 48 \<le> (of_char c :: nat) \<and> of_char c \<le> (57 :: nat)"

definition digits_value :: "string \<Rightarrow> int" where
  "digits_value s = foldl (\<lambda>v c. 10 * v + (of_char c - 48)) 0 (takeWhile c_isdigit s)"

definition atoi :: "string \<Rightarrow> int option" where
  "atoi s =
     (let v = (case dropWhile c_isspace s of
                 [] \<Rightarrow> 0
               | c # cs \<Rightarrow> if c = CHR ''-'' then - digits_value cs
                         else if c = CHR ''+'' then digits_value cs else digits_value (c # cs))
      in if - (2 ^ 31) \<le> v \<and> v < 2 ^ 31 then Some v else None)"

section \<open>Host demo\<close>

definition host_m_seq :: "int \<Rightarrow> u8" where
  "host_m_seq ty =
     (if ty = 1 then IOLINK_M_SEQ_TYPE_1_2
      else if ty = 2 then IOLINK_M_SEQ_TYPE_2_2
      else if ty = 3 then IOLINK_M_SEQ_TYPE_1_V
      else if ty = 4 then IOLINK_M_SEQ_TYPE_2_V
      else IOLINK_M_SEQ_TYPE_0)"

definition host_config :: "string list \<Rightarrow> iolink_config option" where
  "host_config argv = do {
     ty \<leftarrow> (if length argv \<ge> 3 then map_option host_m_seq (atoi (argv ! 2)) else Some IOLINK_M_SEQ_TYPE_0);
     let config = zero_config\<lparr>cfg_m_seq_type := ty\<rparr>;
     if length argv \<ge> 4 then do {
       len \<leftarrow> atoi (argv ! 3);
       Some (config\<lparr>cfg_pd_in_len := word_of_int len, cfg_pd_out_len := word_of_int len\<rparr>) }
     else if ty \<noteq> IOLINK_M_SEQ_TYPE_0 then Some (config\<lparr>cfg_pd_in_len := 2, cfg_pd_out_len := 2\<rparr>)
     else Some config }"

text \<open>Up to the loop: \<open>Inl\<close> is a return of \<^verbatim>\<open>main\<close>, \<open>Inr\<close> the state at the loop.\<close>

definition host_demo_start :: "string list \<Rightarrow> host_world core \<Rightarrow> (int + host_world core) option" where
  "host_demo_start argv k =
     (if length argv < 2 then Some (Inl (-1))
      else do {
        config \<leftarrow> host_config argv;
        let k = mod_stack (\<lambda>s. set_world (iolink_phy_virtual_set_port (Ref (argv ! 1)) (world s)) s) k;
        (r, k) \<leftarrow> iolink_init linux_platform (Ref iolink_phy_virtual_get) (Ref config) k;
        Some (if r \<noteq> 0 then Inl (-1) else Inr k) })"

text \<open>\<open>buf\<close> is the uninitialised array of the loop body.\<close>

definition echo_loop :: "nat \<Rightarrow> bytes \<Rightarrow> bytes option" where
  "echo_loop n buf = for_loop n (\<lambda>i buf. do { b \<leftarrow> arr_get buf i; arr_set buf i (b + 1) }) buf"

definition host_demo_round :: "bytes \<Rightarrow> host_world core \<Rightarrow> host_world core option" where
  "host_demo_round buf k = do {
     k \<leftarrow> iolink_process linux_platform k;
     k \<leftarrow> iolink_process linux_platform k;
     (len, out) \<leftarrow> iolink_pd_output_read (Ref buf) 32 k;
     if len > 0 then do {
       d \<leftarrow> echo_loop (nat len) (deref out);
       map_option snd (iolink_pd_input_update (Ref d) (nat len) True k) }
     else Some k }"

text \<open>Rounds of the loop; before each one the outside has changed, as it does while the loop sleeps.\<close>

fun host_demo_run :: "(host_world \<times> bytes) list \<Rightarrow> host_world core \<Rightarrow> host_world core option" where
  "host_demo_run [] k = Some k"
| "host_demo_run ((w, buf) # ws) k = host_demo_round buf (mod_stack (set_world w) k) \<bind> host_demo_run ws"

section \<open>Bare metal\<close>

text \<open>
  The port's clock at a value of \<^verbatim>\<open>g_iolink_ticks_ms\<close>.  The counter is written by
  \<^verbatim>\<open>sys_tick_handler\<close> only, which the loop itself calls between two rounds, so that it is constant
  during a call of the stack.
\<close>

definition baremetal_at :: "u32 \<Rightarrow> 'w platform" where
  "baremetal_at t =
     \<lparr>time_get_ms = (\<lambda>w. (fst (baremetal_time_get_ms \<lparr>bm_ticks_ms = t\<rparr>), w)),
      time_get_us = (\<lambda>w. (fst (baremetal_time_get_us \<lparr>bm_ticks_ms = t\<rparr>), w)),
      nvm_read = weak_nvm_read, nvm_write = weak_nvm_write\<rparr>"

definition sys_tick_handler :: "u32 \<Rightarrow> u32" where
  "sys_tick_handler t = t + 1"

text \<open>\<open>env t\<close> is what the outside does before the round at tick \<open>t\<close>.\<close>

partial_function (option) bare_metal_loop ::
  "(u32 \<Rightarrow> host_world \<Rightarrow> host_world) \<Rightarrow> u32 \<Rightarrow> host_world core \<Rightarrow> (u32 \<times> host_world core) option" where
  "bare_metal_loop env t k =
     Option.bind (iolink_process (baremetal_at t) (mod_stack (\<lambda>s. set_world (env t (world s)) s) k))
       (\<lambda>k. if sys_tick_handler t > 100 then Some (sys_tick_handler t, k) else bare_metal_loop env (sys_tick_handler t) k)"

definition bare_metal_main ::
  "(u32 \<Rightarrow> host_world \<Rightarrow> host_world) \<Rightarrow> host_world core \<Rightarrow> (int \<times> u32 \<times> host_world core) option" where
  "bare_metal_main env k = do {
     let k = mod_stack (\<lambda>s. set_world (iolink_phy_virtual_set_port (Ref ''/dev/null'') (world s)) s) k;
     (r, k) \<leftarrow> iolink_init (baremetal_at 0) (Ref iolink_phy_virtual_get) NULL k;
     if r \<noteq> 0 then Some (-1, 0, k)
     else map_option (\<lambda>(t, k). (0, t, k)) (bare_metal_loop env 0 k) }"

section \<open>The devices without a line\<close>

definition g_hw_phy :: "'w iolink_phy_api" where
  "g_hw_phy =
     \<lparr>phy_init = NULL, phy_set_mode = NULL, phy_set_baudrate = NULL, phy_send = NULL, phy_recv_byte = NULL,
      phy_detect_wakeup = NULL, phy_set_cq_line = NULL, phy_get_voltage_mv = NULL, phy_is_short_circuit = NULL\<rparr>"

definition simple_device_main :: "'w platform \<Rightarrow> 'w core \<Rightarrow> (int \<times> 'w core) option" where
  "simple_device_main plat k = do {
     (r, k) \<leftarrow> iolink_init plat (Ref g_hw_phy) NULL k;
     Some (if r \<noteq> 0 then -1 else 0, k) }"

definition g_phy_freertos :: "'w iolink_phy_api" where
  "g_phy_freertos =
     \<lparr>phy_init = NULL, phy_set_mode = NULL, phy_set_baudrate = NULL, phy_send = NULL, phy_recv_byte = NULL,
      phy_detect_wakeup = NULL, phy_set_cq_line = NULL, phy_get_voltage_mv = NULL, phy_is_short_circuit = NULL\<rparr>"

text \<open>One round of the FreeRTOS application task, which passes no context.\<close>

definition app_task_round :: "(unit \<times> iolink_events_ctx ptr) option" where
  "app_task_round = iolink_event_trigger_p NULL 0x1800 IOLINK_EVENT_TYPE_NOTIFICATION"

section \<open>Zephyr demo\<close>

text \<open>\<open>getenv\<close> is the environment of the process.\<close>

definition zephyr_config :: "(string \<Rightarrow> string option) \<Rightarrow> iolink_config option" where
  "zephyr_config getenv = do {
     ty \<leftarrow> (case getenv ''IOLINK_M_SEQ_TYPE'' of None \<Rightarrow> Some IOLINK_M_SEQ_TYPE_0
            | Some s \<Rightarrow> map_option word_of_int (atoi s));
     len \<leftarrow> (case getenv ''IOLINK_PD_LEN'' of None \<Rightarrow> Some 2 | Some s \<Rightarrow> map_option word_of_int (atoi s));
     Some (zero_config\<lparr>cfg_m_seq_type := ty, cfg_pd_in_len := len, cfg_pd_out_len := len\<rparr>) }"

definition zephyr_start ::
  "host_world platform \<Rightarrow> (string \<Rightarrow> string option) \<Rightarrow> host_world core \<Rightarrow> (int + host_world core) option" where
  "zephyr_start plat getenv k = do {
     let k = (case getenv ''IOLINK_PORT'' of None \<Rightarrow> k
              | Some port \<Rightarrow> mod_stack (\<lambda>s. set_world (iolink_phy_virtual_set_port (Ref port) (world s)) s) k);
     config \<leftarrow> zephyr_config getenv;
     (r, k) \<leftarrow> iolink_init plat (Ref iolink_phy_virtual_get) (Ref config) k;
     Some (if r \<noteq> 0 then Inl (-1) else Inr k) }"

fun zephyr_run :: "host_world platform \<Rightarrow> host_world list \<Rightarrow> host_world core \<Rightarrow> host_world core option" where
  "zephyr_run plat [] k = Some k"
| "zephyr_run plat (w # ws) k = iolink_process plat (mod_stack (set_world w) k) \<bind> zephyr_run plat ws"

declare bare_metal_loop.simps [code]


section \<open>The loops are safe\<close>

lemma echo_loop_eq:
  "n \<le> length buf \<Longrightarrow> echo_loop n buf = Some (map (\<lambda>b. b + 1) (take n buf) @ drop n buf)"
proof (induction n)
  case (Suc n)
  then have "drop n buf = buf ! n # drop (Suc n) buf" by (simp add: Cons_nth_drop_Suc)
  with Suc show ?case
    by (simp add: echo_loop_def arr_get_def arr_set_def nth_append list_update_append take_Suc_conv_app_nth)
qed (simp add: echo_loop_def)

definition echoed :: "host_world core \<Rightarrow> bool" where
  "echoed k \<longleftrightarrow>
     (let c = sk_dll (g_stack k); n = unat (dll_pd_out_len c) in
      take n (dll_pd_in c) = map (\<lambda>b. b + 1) (take n (dll_pd_out c)))"

abbreviation running :: "host_world core \<Rightarrow> bool" where
  "running k \<equiv> live iolink_phy_virtual_get (\<lambda>_. True) (g_stack k)"

lemma running_process:
  assumes "link_env plat iolink_phy_virtual_get backlog" and "running k"
  shows "runs (iolink_process plat k) running"
  using link_env.exec_safe [OF assms, of Process] by simp

lemma host_round_law:
  assumes "running k" and "length buf = 32"
  shows "runs (host_demo_round buf k) (\<lambda>k'. running k' \<and> echoed k')"
proof -
  have out: "runs (iolink_pd_output_read (Ref buf) 32 k \<bind> (\<lambda>(len, out). if len > 0 then do {
       d \<leftarrow> echo_loop (nat len) (deref out);
       map_option snd (iolink_pd_input_update (Ref d) (nat len) True k) } else Some k)) (\<lambda>k'. running k' \<and> echoed k')"
    if r: "running k" for k
  proof -
    let ?c = "sk_dll (g_stack k)" and ?n = "unat (dll_pd_out_len (sk_dll (g_stack k)))"
    have len: "?n \<le> 32" "length (dll_pd_out ?c) = 32" "length (dll_pd_in ?c) = 32"
      using liveD(1) [OF r] by (simp_all add: dll_wf_def)
    let ?d = "map (\<lambda>b. b + 1) (take ?n (dll_pd_out ?c)) @ drop ?n buf"
    let ?k = "mod_stack (mod_dll (\<lambda>c. c\<lparr>dll_pd_in := take ?n ?d @ drop ?n (dll_pd_in c),
             dll_pd_in_len := word_of_nat ?n, dll_pd_valid := True, dll_pd_in_toggle := \<not> dll_pd_in_toggle c\<rparr>)) k"
    have read: "iolink_pd_output_read (Ref buf) 32 k = Some (int ?n, Ref (take ?n (dll_pd_out ?c) @ drop ?n buf))"
      using pd_output_read_law [of k 32 buf] len assms(2) by (simp add: min_absorb2)
    have echo: "echo_loop ?n (take ?n (dll_pd_out ?c) @ drop ?n buf) = Some ?d"
      using len assms(2) by (subst echo_loop_eq) simp_all
    have upd: "iolink_pd_input_update (Ref ?d) ?n True k = Some (0, ?k)"
      using pd_input_update_law [of k ?n ?d True] len assms(2) by simp
    have "running ?k" using r len by (auto simp: ctx_upd intro!: live_mod_dll)
    moreover have "echoed ?k" using len by (simp add: echoed_def Let_def)
    moreover have "echoed k" if "?n = 0" using that by (simp add: echoed_def Let_def)
    ultimately show ?thesis using r by (cases "?n = 0") (simp_all only: read echo upd runs_bind runs_Some prod.case runs_if runs_map_option
          nat_int ptr.sel snd_conv if_False if_True of_nat_0 of_nat_0_less_iff, simp_all)
  qed
  show ?thesis
    unfolding host_demo_round_def
    by (intro runs_bindI [OF running_process [OF virtual_env assms(1)]] runs_bindI [OF running_process [OF virtual_env]] out)
qed

lemma host_run_law:
  assumes "running k" and "\<forall>(w, buf) \<in> set ws. length buf = 32"
  shows "runs (host_demo_run ws k) (\<lambda>k'. running k' \<and> (ws = [] \<or> echoed k'))"
  using assms
proof (induction ws arbitrary: k)
  case (Cons x ws)
  obtain w buf where x: "x = (w, buf)" by (cases x)
  have "running (mod_stack (set_world w) k)" using Cons.prems(1) by (simp add: live_set_world)
  then have "runs (host_demo_round buf (mod_stack (set_world w) k)) (\<lambda>k'. running k' \<and> echoed k')"
    using host_round_law Cons.prems(2) x by simp
  then show ?case
    unfolding x host_demo_run.simps runs_bind
  proof (rule runs_mono)
    fix k' assume k': "running k' \<and> echoed k'"
    then have "runs (host_demo_run ws k') (\<lambda>k'. running k' \<and> (ws = [] \<or> echoed k'))"
      using Cons by simp
    then show "runs (host_demo_run ws k') (\<lambda>k'. running k' \<and> ((w, buf) # ws = [] \<or> echoed k'))"
      using k' by (cases ws) (auto elim!: runs_mono)
  qed
qed simp

text \<open>On bare metal the clock is constant during a call.\<close>

interpretation tick_link: link_env "baremetal_at t" iolink_phy_virtual_get "\<lambda>w. length (line_in w)" for t
  using virtual_link.link_env_axioms
  by (simp add: link_env_def baremetal_at_def linux_platform_def)

lemma bare_metal_loop_law:
  assumes "running k" and "t \<le> 100"
  shows "runs (bare_metal_loop env t k) (\<lambda>(t', k'). t' = 101 \<and> running k')"
  using assms
proof (induction "100 - unat t" arbitrary: t k)
  case 0
  then have "t = 100" by (simp add: word_le_nat_alt word_unat_eq_iff)
  have "running (mod_stack (\<lambda>s. set_world (env t (world s)) s) k)" using "0.prems"(1) by (simp add: live_set_world)
  from running_process [OF tick_link.link_env_axioms this, of t] show ?case
    by (subst bare_metal_loop.simps) (simp add: \<open>t = 100\<close> sys_tick_handler_def)
next
  case (Suc n)
  have small: "unat t < 100" using Suc.hyps(2) by simp
  then have t1: "unat (t + 1) = Suc (unat t)" by (simp add: unat_word_ariths)
  have "\<not> t + 1 > 100" using small t1 by (simp add: word_less_nat_alt)
  moreover have "runs (bare_metal_loop env (t + 1) k') (\<lambda>(t', k'). t' = 101 \<and> running k')" if "running k'" for k'
    using Suc.hyps small t1 that by (intro Suc.hyps(1)) (simp_all add: word_le_nat_alt)
  moreover have "running (mod_stack (\<lambda>s. set_world (env t (world s)) s) k)" using Suc.prems(1) by (simp add: live_set_world)
  ultimately show ?case
    by (subst bare_metal_loop.simps)
       (simp add: sys_tick_handler_def runs_mono [OF running_process [OF tick_link.link_env_axioms]])
qed


section \<open>Correctness of the applications\<close>

lemma core_static_world: "mod_stack (\<lambda>s. set_world (f (world s)) s) (core_static w) = core_static (f w)"
  by (simp add: core_static_def mod_stack_def set_world_def world_def globals_static_def)

lemma init_no_config: "iolink_init plat phy NULL k = iolink_init plat phy (Ref zero_config) k"
proof -
  have "core_store_config NULL k = core_store_config (Ref zero_config) k" by (simp add: core_store_config_def zero_config_def)
  then show ?thesis by (simp only: iolink_init_def)
qed

lemma fresh_running: "fresh iolink_phy_virtual_get cfg k \<Longrightarrow> config_ok cfg \<Longrightarrow> running k"
  using fresh_live_J [of iolink_phy_virtual_get cfg k "\<lambda>_. True"] by simp

lemma config_ok_zero: "config_ok zero_config"
  by (simp add: config_ok_def zero_config_def)

lemma weak_nvm_sane: "nvm_sane (baremetal_at t) w"
  by (simp add: nvm_sane_def baremetal_at_def weak_nvm_read_def)

text \<open>
  C37: The host demo echoes safely.  Started with a port that opens and a command line whose process
  data length fits the buffers, the demo reaches its loop, and any number of rounds, with any
  bytes arriving meanwhile, return without undefined behaviour; after every round the input data
  offered to the master is the last output data with each byte incremented.
\<close>

theorem host_demo_echoes:
  assumes "2 \<le> length argv" and "host_config argv = Some cfg" and "config_ok cfg"
    and "phy_starts iolink_phy_virtual_get (iolink_phy_virtual_set_port (Ref (argv ! 1)) w)"
    and "nvm_sane linux_platform (boot_world iolink_phy_virtual_get (iolink_phy_virtual_set_port (Ref (argv ! 1)) w))"
  shows "runs (host_demo_start argv (core_static w)) (\<lambda>r. \<exists>k. r = Inr k \<and>
     (\<forall>ws. (\<forall>(w, buf) \<in> set ws. length buf = 32) \<longrightarrow>
        runs (host_demo_run ws k) (\<lambda>k'. stack_wf (g_stack k') \<and> (ws = [] \<or> echoed k'))))"
proof -
  have run: "runs (host_demo_run ws k) (\<lambda>k'. stack_wf (g_stack k') \<and> (ws = [] \<or> echoed k'))"
    if "fresh iolink_phy_virtual_get cfg k" "\<forall>(w, buf) \<in> set ws. length buf = 32" for k ws
    by (rule runs_mono [OF host_run_law [OF fresh_running [OF that(1) assms(3)] that(2)]]) (auto simp: live_def)
  show ?thesis
    unfolding host_demo_start_def
    using assms(1,2) run
    by (auto simp: core_static_world Let_def simp del: One_nat_def intro!: runs_mono [OF init_static_law [OF assms(4,5)]])
qed

lemma host_demo_echoes_witness:
  "host_config [''host_demo'', ''tty'', ''1'', ''4''] = Some (zero_config\<lparr>cfg_m_seq_type := 2, cfg_pd_in_len := 4, cfg_pd_out_len := 4\<rparr>) \<and>
   runs (host_demo_start [''host_demo'', ''tty'', ''1'', ''4''] (core_static demo_world)) (\<lambda>r. \<exists>k. r = Inr k \<and>
     runs (host_demo_run [(demo_world, replicate 32 0)] k) (\<lambda>k'. echoed k'))"
proof -
  have cfg: "host_config [''host_demo'', ''tty'', ''1'', ''4''] = Some (zero_config\<lparr>cfg_m_seq_type := 2, cfg_pd_in_len := 4, cfg_pd_out_len := 4\<rparr>)"
    by (simp add: host_config_def host_m_seq_def atoi_def digits_value_def c_isspace_def c_isdigit_def Let_def)
  have port: "iolink_phy_virtual_set_port (Ref ''tty'') demo_world = demo_world"
    by (simp add: iolink_phy_virtual_set_port_def demo_world_def)
  have "runs (host_demo_start [''host_demo'', ''tty'', ''1'', ''4''] (core_static demo_world)) (\<lambda>r. \<exists>k. r = Inr k \<and>
     (\<forall>ws. (\<forall>(w, buf) \<in> set ws. length buf = 32) \<longrightarrow>
        runs (host_demo_run ws k) (\<lambda>k'. stack_wf (g_stack k') \<and> (ws = [] \<or> echoed k'))))"
    by (rule host_demo_echoes [OF _ cfg]) (simp_all add: port demo_boot config_ok_def)
  then have "runs (host_demo_start [''host_demo'', ''tty'', ''1'', ''4''] (core_static demo_world)) (\<lambda>r. \<exists>k. r = Inr k \<and>
     runs (host_demo_run [(demo_world, replicate 32 0)] k) (\<lambda>k'. echoed k'))"
    by (rule runs_mono) (auto dest!: spec [of _ "[(demo_world, replicate 32 0)]"] elim!: runs_mono simp del: host_demo_run.simps)
  with cfg show ?thesis by blast
qed

text \<open>
  C38: The bare-metal loop ends.  Whatever arrives on the line between the rounds, the program
  returns 0 after exactly 101 ticks, or -1 without entering the loop when the port does not open.
\<close>

theorem bare_metal_ends:
  "runs (bare_metal_main env (core_static w)) (\<lambda>(rc, t, k).
     if phy_starts iolink_phy_virtual_get (iolink_phy_virtual_set_port (Ref ''/dev/null'') w)
     then rc = 0 \<and> t = 101 \<and> stack_wf (g_stack k) else rc = -1 \<and> t = 0)"
proof (cases "phy_starts iolink_phy_virtual_get (iolink_phy_virtual_set_port (Ref ''/dev/null'') w)")
  case True
  have "runs (bare_metal_loop env 0 k) (\<lambda>(t, k'). t = 101 \<and> stack_wf (g_stack k'))" if "fresh iolink_phy_virtual_get zero_config k" for k
    by (rule runs_mono [OF bare_metal_loop_law [OF fresh_running [OF that config_ok_zero]]]) (auto simp: live_def)
  then show ?thesis
    unfolding bare_metal_main_def
    using True
    by (auto simp: core_static_world init_no_config Let_def split_def intro!: runs_mono [OF init_static_law [OF True weak_nvm_sane]])
next
  case False
  have "phy_init iolink_phy_virtual_get = Ref virtual_init" by (simp add: iolink_phy_virtual_get_def)
  then show ?thesis
    unfolding bare_metal_main_def
    using False
    by (auto simp: core_static_world init_no_config Let_def phy_starts_def iolink_init_def core_phy_init_def core_store_config_def
        core_static_wf split: prod.splits)
qed

text \<open>The simple device starts and returns 0; the FreeRTOS task's event goes nowhere.\<close>

lemma simple_device_starts:
  assumes "nvm_sane plat w"
  shows "runs (simple_device_main plat (core_static w)) (\<lambda>(rc, k). rc = 0 \<and> fresh g_hw_phy zero_config k)"
proof -
  have "boot_world g_hw_phy w = w" "phy_starts g_hw_phy w" by (simp_all add: boot_world_def g_hw_phy_def phy_starts_def)
  with assms show ?thesis
    unfolding simple_device_main_def init_no_config
    by (auto intro!: runs_mono [OF init_static_law])
qed

lemma app_task_no_effect: "app_task_round = Some ((), NULL)"
  by (simp add: app_task_round_def iolink_event_trigger_p_def with_ptr_def)

text \<open>The Zephyr demo is safe under the same condition on its environment.\<close>

lemma zephyr_run_safe:
  assumes "link_env plat iolink_phy_virtual_get backlog" and "running k"
  shows "runs (zephyr_run plat ws k) running"
  using assms(2)
proof (induction ws arbitrary: k)
  case (Cons w ws)
  then have "running (mod_stack (set_world w) k)" by (simp add: live_set_world)
  with Cons.IH show ?case by (simp add: runs_mono [OF running_process [OF assms(1)]])
qed simp

end
