(* ===== verification/Interleaving.thy ===== *)
theory Interleaving
  imports Iol_Prelude
begin

text \<open>
  Threads that share the stack.  A thread is a list of instructions, each of them one access to
  the shared object, the entry to or exit from a critical section or an early return, with its own
  local state; a step of the system is a step of any one thread.  \<open>locking\<close> says what the port makes of
  \<^verbatim>\<open>iolink_critical_enter\<close> and \<^verbatim>\<open>iolink_critical_exit\<close>.  The locale \<open>sectioned_calls\<close> is the
  contract between the critical sections of a component and its sequential model; its lemmas show
  that then any interleaving gives what some sequential order of the calls gives.
\<close>

section \<open>Threads and steps\<close>

text \<open>
  The hooks of \<^verbatim>\<open>platform.h\<close>: empty (the weak defaults of \<^verbatim>\<open>platform.c\<close>), a lock, or a mask that
  keeps every other thread and interrupt from running (what the header asks for).
\<close>

datatype locking = No_Op | Mutex | Mask

type_synonym ('c, 'l) micro = "'c \<times> 'l \<Rightarrow> ('c \<times> 'l) option"

text \<open>
  \<open>Leave_If p n\<close> reads the shared object and returns from the call, skipping \<open>n\<close> instructions, if
  \<open>p\<close> gives the local state at the return.
\<close>

type_synonym ('c, 'l) guard = "'c \<times> 'l \<Rightarrow> 'l option"

datatype ('c, 'l) instr = Enter | Exit | Act "('c, 'l) micro" | Leave_If "('c, 'l) guard" nat

type_synonym ('c, 'l) thread = "('c, 'l) instr list \<times> 'l"

text \<open>The shared object, the thread inside a critical section, the threads.\<close>

type_synonym ('c, 'l) config = "'c \<times> nat option \<times> ('c, 'l) thread list"

text \<open>\<open>None\<close>: the caller waits.\<close>

definition iolink_critical_enter :: "locking \<Rightarrow> nat \<Rightarrow> nat option \<Rightarrow> nat option option" where
  "iolink_critical_enter lk i ow =
     (if lk = No_Op then Some ow else if ow = None then Some (Some i) else None)"

definition iolink_critical_exit :: "locking \<Rightarrow> nat option \<Rightarrow> nat option" where
  "iolink_critical_exit lk ow = (if lk = No_Op then ow else None)"

definition leave_if :: "('c, 'l) guard \<Rightarrow> nat \<Rightarrow> 'c \<Rightarrow> ('c, 'l) thread \<Rightarrow> ('c, 'l) thread" where
  "leave_if p n c t = (case t of (k, l) \<Rightarrow> case p (c, l) of None \<Rightarrow> (k, l) | Some l' \<Rightarrow> (drop n k, l'))"

definition may_run :: "locking \<Rightarrow> nat \<Rightarrow> nat option \<Rightarrow> bool" where
  "may_run lk i ow \<longleftrightarrow> lk \<noteq> Mask \<or> ow = None \<or> ow = Some i"

inductive cs_step :: "locking \<Rightarrow> ('c, 'l) config \<Rightarrow> ('c, 'l) config \<Rightarrow> bool" for lk where
  cs_enter: "i < length ts \<Longrightarrow> ts ! i = (Enter # k, l) \<Longrightarrow> iolink_critical_enter lk i ow = Some ow' \<Longrightarrow>
    cs_step lk (c, ow, ts) (c, ow', ts[i := (k, l)])"
| cs_exit: "i < length ts \<Longrightarrow> ts ! i = (Exit # k, l) \<Longrightarrow> may_run lk i ow \<Longrightarrow>
    cs_step lk (c, ow, ts) (c, iolink_critical_exit lk ow, ts[i := (k, l)])"
| cs_act: "i < length ts \<Longrightarrow> ts ! i = (Act f # k, l) \<Longrightarrow> may_run lk i ow \<Longrightarrow> f (c, l) = Some (c', l') \<Longrightarrow>
    cs_step lk (c, ow, ts) (c', ow, ts[i := (k, l')])"
| cs_leave: "i < length ts \<Longrightarrow> ts ! i = (Leave_If p n # k, l) \<Longrightarrow> may_run lk i ow \<Longrightarrow>
    cs_step lk (c, ow, ts) (c, ow, ts[i := leave_if p n c (k, l)])"

inductive_cases cs_stepE: "cs_step lk (c, ow, ts) t"

abbreviation cs_steps :: "locking \<Rightarrow> ('c, 'l) config \<Rightarrow> ('c, 'l) config \<Rightarrow> bool" where
  "cs_steps lk \<equiv> (cs_step lk)\<^sup>*\<^sup>*"

text \<open>A thread whose next access has no defined meaning.\<close>

definition cs_fault :: "locking \<Rightarrow> ('c, 'l) config \<Rightarrow> bool" where
  "cs_fault lk s \<longleftrightarrow> (case s of (c, ow, ts) \<Rightarrow>
     \<exists>i < length ts. may_run lk i ow \<and> (\<exists>f k l. ts ! i = (Act f # k, l) \<and> f (c, l) = None))"

definition cs_finished :: "('c, 'l) config \<Rightarrow> bool" where
  "cs_finished s \<longleftrightarrow> (case s of (c, ow, ts) \<Rightarrow> \<forall>t \<in> set ts. fst t = [])"

text \<open>Running a given schedule, a list of thread numbers.\<close>

definition cs_turn :: "locking \<Rightarrow> ('c, 'l) config \<Rightarrow> nat \<Rightarrow> ('c, 'l) config option" where
  "cs_turn lk s i = (case s of (c, ow, ts) \<Rightarrow>
     if length ts \<le> i then None
     else case ts ! i of
       ([], l) \<Rightarrow> None
     | (Enter # k, l) \<Rightarrow> map_option (\<lambda>ow'. (c, ow', ts[i := (k, l)])) (iolink_critical_enter lk i ow)
     | (Exit # k, l) \<Rightarrow> if may_run lk i ow then Some (c, iolink_critical_exit lk ow, ts[i := (k, l)]) else None
     | (Act f # k, l) \<Rightarrow>
         if may_run lk i ow then map_option (\<lambda>(c', l'). (c', ow, ts[i := (k, l')])) (f (c, l)) else None
     | (Leave_If p n # k, l) \<Rightarrow>
         if may_run lk i ow then Some (c, ow, ts[i := leave_if p n c (k, l)]) else None)"

lemma cs_turn_step: "cs_turn lk s i = Some t \<Longrightarrow> cs_step lk s t"
  by (auto simp: cs_turn_def not_le split: prod.splits if_splits list.splits instr.splits
      intro: cs_step.intros)

lemma cs_schedule_steps: "fold_opt (cs_turn lk) s sched = Some t \<Longrightarrow> cs_steps lk s t"
  by (induction sched arbitrary: s)
     (auto simp: bind_eq_Some_conv dest: cs_turn_step intro: converse_rtranclp_into_rtranclp)

text \<open>Every step uses up an instruction, so no run is longer than the program.\<close>

definition cs_work :: "('c, 'l) config \<Rightarrow> nat" where
  "cs_work s = (case s of (c, ow, ts) \<Rightarrow> sum_list (map (length \<circ> fst) ts))"

lemma cs_step_work:
  assumes "cs_step lk s t"
  shows "cs_work t < cs_work s"
proof -
  have *: "sum_list (map (length \<circ> fst) (ts[i := t])) < sum_list (map (length \<circ> fst) ts)"
    if "i < length ts" "ts ! i = (x # k, l)" "length (fst t) \<le> length k" for ts :: "('c, 'l) thread list" and i x k l t
  proof -
    from that have "length (x # k) \<le> sum_list (map (length \<circ> fst) ts)"
      by (metis (no_types, lifting) comp_apply elem_le_sum_list fst_conv length_map nth_map)
    with that show ?thesis
      by (simp add: map_update sum_list_update)
  qed
  from assms show ?thesis
    by cases (auto simp: cs_work_def leave_if_def intro!: * split: option.splits)
qed

lemma cs_run_bounded: "(cs_step lk ^^ n) s t \<Longrightarrow> n \<le> cs_work s"
proof (induction n arbitrary: s)
  case (Suc n)
  from relpowp_Suc_E2 [OF Suc.prems] obtain u where "cs_step lk s u" "(cs_step lk ^^ n) u t" .
  with Suc.IH cs_step_work [of lk s u] show ?case by fastforce
qed simp

section \<open>Calls and their histories\<close>

definition run_body :: "('c, 'l) micro list \<Rightarrow> 'c \<times> 'l \<Rightarrow> ('c \<times> 'l) option" where
  "run_body fs s = fold_opt (\<lambda>s f. f s) s fs"

lemma run_body_simps [simp]:
  "run_body [] s = Some s"
  "run_body (f # fs) s = f s \<bind> run_body fs"
  by (simp_all add: run_body_def [abs_def])

lemma run_body_append: "run_body (fs @ gs) s = run_body fs s \<bind> run_body gs"
  by (simp add: run_body_def [abs_def] fold_opt_append)

text \<open>
  How a call is protected: not at all, by one section, or by one section after a test that is
  made outside of it and may end the call.
\<close>

datatype ('c, 'l) shape = Unlocked | Locked | Guarded "('c, 'l) guard"

definition in_section :: "('c, 'l) micro list \<Rightarrow> ('c, 'l) instr list" where
  "in_section fs = Enter # map Act fs @ [Exit]"

definition code_of :: "('op \<Rightarrow> ('c, 'l) shape) \<Rightarrow> ('op \<Rightarrow> ('c, 'l) micro list) \<Rightarrow> 'op \<Rightarrow> ('c, 'l) instr list" where
  "code_of shape body op =
     (case shape op of
        Unlocked \<Rightarrow> map Act (body op)
      | Locked \<Rightarrow> in_section (body op)
      | Guarded p \<Rightarrow> Leave_If p (length (in_section (body op))) # in_section (body op))"

definition program :: "('op \<Rightarrow> ('c, 'l) shape) \<Rightarrow> ('op \<Rightarrow> ('c, 'l) micro list) \<Rightarrow> 'op list \<Rightarrow> ('c, 'l) instr list" where
  "program shape body ops = concat (map (code_of shape body) ops)"

lemma program_simps [simp]:
  "program shape body [] = []"
  "program shape body (op # ops) = code_of shape body op @ program shape body ops"
  by (simp_all add: program_def)

text \<open>A thread that is left alone for a while runs a stretch of its accesses, or a whole section.\<close>

lemma cs_run_acts:
  assumes "run_body fs (c, l) = Some (c', l')" and "i < length ts" and "ts ! i = (map Act fs @ k, l)"
    and "may_run lk i ow"
  shows "cs_steps lk (c, ow, ts) (c', ow, ts[i := (k, l')])"
  using assms(1-3)
proof (induction fs arbitrary: c l ts)
  case Nil
  then have "ts[i := (k, l')] = ts" by (metis append_Nil list.map(1) list_update_id old.prod.inject option.inject run_body_simps(1))
  with Nil show ?case by simp
next
  case (Cons f fs)
  then obtain c1 l1 where f: "f (c, l) = Some (c1, l1)" "run_body fs (c1, l1) = Some (c', l')"
    by (auto simp: bind_eq_Some_conv)
  have "cs_step lk (c, ow, ts) (c1, ow, ts[i := (map Act fs @ k, l1)])"
    using Cons.prems f(1) assms(4) by (auto intro: cs_act)
  moreover have "cs_steps lk (c1, ow, ts[i := (map Act fs @ k, l1)]) (c', ow, ts[i := (k, l')])"
    using Cons.IH [OF f(2), of "ts[i := (map Act fs @ k, l1)]"] Cons.prems(2) by simp
  ultimately show ?case by (rule converse_rtranclp_into_rtranclp)
qed

lemma cs_run_call:
  assumes "run_body (body op) (c, l) = Some (c', l')" and "shape op = Locked" and "i < length ts"
    and "ts ! i = (code_of shape body op @ k, l)"
  shows "cs_steps lk (c, None, ts) (c', None, ts[i := (k, l')])"
proof -
  let ?in = "map Act (body op) @ Exit # k" and ?ow = "if lk = No_Op then None else Some i"
  have "cs_step lk (c, None, ts) (c, ?ow, ts[i := (?in, l)])"
    using assms by (intro cs_enter) (auto simp: code_of_def in_section_def iolink_critical_enter_def)
  moreover have "cs_steps lk (c, ?ow, ts[i := (?in, l)]) (c', ?ow, ts[i := (Exit # k, l')])"
    using cs_run_acts [OF assms(1), of i "ts[i := (?in, l)]" "Exit # k" lk ?ow] assms(3)
    by (simp add: may_run_def)
  moreover have "cs_step lk (c', ?ow, ts[i := (Exit # k, l')]) (c', None, ts[i := (k, l')])"
    using cs_exit [of i "ts[i := (Exit # k, l')]" k l' lk ?ow c'] assms(3)
    by (simp add: may_run_def iolink_critical_exit_def split: if_splits)
  ultimately show ?thesis by (meson converse_rtranclp_into_rtranclp rtranclp.rtrancl_into_rtrancl)
qed

text \<open>
  A thread outside every section, or with sections that do not lock, is preempted between two of
  its accesses by a whole call of another thread.
\<close>

lemma cs_preempted:
  assumes "run_body pre (c, l) = Some (c1, l1)" and "run_body (body op) (c1, m) = Some (c2, m')"
    and "run_body post (c2, l1) = Some (c3, l2)" and "shape op = Locked"
  shows "cs_steps lk (c, None, [(map Act (pre @ post) @ k, l), (code_of shape body op, m)])
    (c3, None, [(k, l2), ([], m')])"
proof -
  let ?t = "(code_of shape body op, m)"
  have "cs_steps lk (c, None, [(map Act (pre @ post) @ k, l), ?t]) (c1, None, [(map Act post @ k, l1), ?t])"
    using cs_run_acts [OF assms(1), of 0 "[(map Act (pre @ post) @ k, l), ?t]" "map Act post @ k" lk None]
    by (simp add: may_run_def)
  also have "cs_steps lk (c1, None, [(map Act post @ k, l1), ?t]) (c2, None, [(map Act post @ k, l1), ([], m')])"
    using cs_run_call [where i = 1 and ts = "[(map Act post @ k, l1), ?t]" and k = "[]" and body = body
        and op = op and shape = shape, OF assms(2,4)] by simp
  also have "cs_steps lk (c2, None, [(map Act post @ k, l1), ([], m')]) (c3, None, [(k, l2), ([], m')])"
    using cs_run_acts [OF assms(3), of 0 "[(map Act post @ k, l1), ([], m')]" k lk None]
    by (simp add: may_run_def)
  finally show ?thesis .
qed

lemma cs_preempted_section:
  assumes "body op0 = pre @ post" and "shape op0 = Locked" and "shape op1 = Locked"
    and "run_body pre (c, l) = Some (c1, l1)" and "run_body (body op1) (c1, m) = Some (c2, m')"
    and "run_body post (c2, l1) = Some (c3, l2)"
  shows "cs_steps No_Op (c, None, [(code_of shape body op0, l), (code_of shape body op1, m)])
    (c3, None, [([], l2), ([], m')])"
proof -
  let ?t = "(code_of shape body op1, m)"
  have "cs_step No_Op (c, None, [(code_of shape body op0, l), ?t]) (c, None, [(map Act (pre @ post) @ [Exit], l), ?t])"
    using cs_enter [of 0 "[(code_of shape body op0, l), ?t]" _ l No_Op None None c] assms(1,2)
    by (simp add: code_of_def in_section_def iolink_critical_enter_def)
  also note cs_preempted [where body = body and op = op1 and shape = shape, OF assms(4-6,3), of No_Op "[Exit]"]
  also have "cs_step No_Op (c3, None, [([Exit], l2), ([], m')]) (c3, None, [([], l2), ([], m')])"
    using cs_exit [of 0 "[([Exit], l2), ([], m')]" "[]" l2 No_Op None c3]
    by (simp add: may_run_def iolink_critical_exit_def)
  finally show ?thesis .
qed

text \<open>
  A history lists the calls in the order they take effect: thread, call and result.  It is legal
  from \<open>c\<close> if the sequential model gives these results, and \<open>replay\<close> is then the state it leaves.
\<close>

definition replay :: "('op \<Rightarrow> 'c \<Rightarrow> ('r \<times> 'c) option) \<Rightarrow> 'c \<Rightarrow> (nat \<times> 'op \<times> 'r) list \<Rightarrow> 'c option" where
  "replay spec = fold_opt (\<lambda>c (i, op, r). do {
     (r', c') \<leftarrow> spec op c;
     if r' = r then Some c' else None })"

definition of_thread :: "nat \<Rightarrow> (nat \<times> 'op \<times> 'r) list \<Rightarrow> ('op \<times> 'r) list" where
  "of_thread i H = map snd (filter (\<lambda>h. fst h = i) H)"

lemma of_thread_simps [simp]:
  "of_thread i [] = []"
  "of_thread i (H @ H') = of_thread i H @ of_thread i H'"
  "of_thread i (h # H) = (if fst h = i then snd h # of_thread i H else of_thread i H)"
  by (simp_all add: of_thread_def)

lemma replay_snoc:
  "replay spec c H = Some c1 \<Longrightarrow> spec op c1 = Some (r, c2) \<Longrightarrow>
     replay spec c (H @ [(i, op, r)]) = Some c2"
  by (simp add: replay_def fold_opt_append)

text \<open>The object as a thread outside the section may see it while \<open>op\<close> is under way.\<close>

definition mid_section :: "('c, 'l) micro list \<Rightarrow> 'c \<Rightarrow> 'c \<Rightarrow> bool" where
  "mid_section fs c c1 \<longleftrightarrow>
     (\<exists>pre post l l1. fs = pre @ post \<and> post \<noteq> [] \<and> run_body pre (c, l) = Some (c1, l1))"

definition visible :: "('op \<Rightarrow> ('c, 'l) shape) \<Rightarrow> ('op \<Rightarrow> ('c, 'l) micro list) \<Rightarrow> 'c \<Rightarrow> 'c \<Rightarrow> bool" where
  "visible shape body c c1 \<longleftrightarrow> c1 = c \<or> (\<exists>op. shape op \<noteq> Unlocked \<and> mid_section (body op) c c1)"

section \<open>The contract of critical sections\<close>

text \<open>
  \<open>section_law\<close>: the accesses inside a section, run without interruption, do what the sequential
  model does.  \<open>unlocked_law\<close>: a call without a section is a single access that changes nothing
  and gives the same result whenever it happens during somebody else's section.  \<open>guard_law\<close>: the
  same for a call that its test ends before the section.
\<close>

locale sectioned_calls =
  fixes shape :: "'op \<Rightarrow> ('c, 'l) shape"
    and body :: "'op \<Rightarrow> ('c, 'l) micro list"
    and spec :: "'op \<Rightarrow> 'c \<Rightarrow> ('r \<times> 'c) option"
    and results :: "'l \<Rightarrow> 'r list"
    and wf :: "'c \<Rightarrow> bool"
  assumes body_not_empty: "body op \<noteq> []"
    and section_law: "shape op \<noteq> Unlocked \<Longrightarrow> wf c \<Longrightarrow>
      runs (spec op c) (\<lambda>(r, c'). wf c' \<and>
        (\<forall>l. runs (run_body (body op) (c, l)) (\<lambda>(c1, l'). c1 = c' \<and> results l' = results l @ [r])))"
    and unlocked_law: "shape op = Unlocked \<Longrightarrow> wf c \<Longrightarrow> visible shape body c c1 \<Longrightarrow>
      \<exists>f r. body op = [f] \<and> spec op c = Some (r, c) \<and>
        (\<forall>l. runs (f (c1, l)) (\<lambda>(c2, l'). c2 = c1 \<and> results l' = results l @ [r]))"
    and guard_law: "shape op = Guarded p \<Longrightarrow> wf c \<Longrightarrow> visible shape body c c1 \<Longrightarrow> p (c1, l) = Some l' \<Longrightarrow>
      \<exists>r. spec op c = Some (r, c) \<and> results l' = results l @ [r]"
begin

text \<open>The code of a thread that still has the calls \<open>todo\<close> to make and is not in a section.\<close>

definition "resumes todo code \<longleftrightarrow> code = program shape body todo \<or>
  (\<exists>op todo' p. todo = op # todo' \<and> shape op = Guarded p \<and> code = in_section (body op) @ program shape body todo')"

definition "waiting ops hist code l \<longleftrightarrow>
  (\<exists>todo. ops = map fst hist @ todo \<and> resumes todo code \<and> results l = map snd hist)"

definition "leaving ops hist code l \<longleftrightarrow> (\<exists>k. code = Exit # k \<and> waiting ops hist k l)"

definition "inside ops hist cabs c code l \<longleftrightarrow>
  (\<exists>op todo pre post l0. ops = map fst hist @ op # todo \<and> shape op \<noteq> Unlocked \<and> body op = pre @ post \<and> post \<noteq> [] \<and>
     code = map Act post @ Exit # program shape body todo \<and>
     run_body pre (cabs, l0) = Some (c, l) \<and> results l0 = map snd hist)"

definition "thread_ok progs H ow cabs c i t \<longleftrightarrow>
  (let ops = progs ! i; hist = of_thread i H in
   if ow = Some i
   then c = cabs \<and> leaving ops hist (fst t) (snd t) \<or> inside ops hist cabs c (fst t) (snd t)
   else waiting ops hist (fst t) (snd t))"

definition "owner_ok ow cabs c \<longleftrightarrow>
  c = cabs \<or> ow \<noteq> None \<and> visible shape body cabs c"

definition "cs_inv_at c0 progs H cabs s \<longleftrightarrow> (case s of (c, ow, ts) \<Rightarrow>
  replay spec c0 H = Some cabs \<and> wf cabs \<and> length ts = length progs \<and> owner_ok ow cabs c \<and>
  (\<forall>j. ow = Some j \<longrightarrow> j < length progs) \<and> (\<forall>h \<in> set H. fst h < length progs) \<and>
  (\<forall>i < length progs. thread_ok progs H ow cabs c i (ts ! i)))"

text \<open>The first instruction of a thread that is between two sections.\<close>

lemma resumes_first:
  assumes "resumes todo (x # k)"
  obtains op todo' where "todo = op # todo'" and "shape op \<noteq> Unlocked" and "x = Enter"
      and "k = map Act (body op) @ Exit # program shape body todo'"
  | op todo' f fs where "todo = op # todo'" and "shape op = Unlocked" and "body op = f # fs" and "x = Act f"
      and "k = map Act fs @ program shape body todo'"
  | op todo' p where "todo = op # todo'" and "shape op = Guarded p" and "x = Leave_If p (length (in_section (body op)))"
      and "k = in_section (body op) @ program shape body todo'"
proof (cases todo)
  case Nil
  with assms show thesis by (simp add: resumes_def)
next
  case (Cons op todo')
  with assms body_not_empty [of op] that show thesis
    by (cases "shape op"; cases "body op") (auto simp: resumes_def code_of_def in_section_def)
qed

lemma waiting_not_Exit: "\<not> waiting ops hist (Exit # k) l"
  unfolding waiting_def by (auto elim: resumes_first)

lemma waiting_Enter:
  assumes "waiting ops hist (Enter # k) l"
  shows "inside ops hist c c k l"
proof -
  from assms obtain todo where "ops = map fst hist @ todo" "resumes todo (Enter # k)"
    "results l = map snd hist"
    by (auto simp: waiting_def)
  from this(2) show ?thesis
  proof (cases rule: resumes_first)
    case (1 op todo')
    then show ?thesis
      using \<open>ops = _\<close> \<open>results l = _\<close> body_not_empty [of op]
      unfolding inside_def
      by (intro exI [of _ op] exI [of _ todo'] exI [of _ "[]"] exI [of _ "body op"] exI [of _ l]) simp
  qed simp_all
qed

lemma owner_visible: "owner_ok ow cabs c \<Longrightarrow> visible shape body cabs c"
  by (auto simp: owner_ok_def visible_def)

lemma waiting_Act:
  assumes "waiting ops hist (Act f # k) l" and "wf cabs" and "owner_ok ow cabs c"
  obtains op r l' where "f (c, l) = Some (c, l')" and "spec op cabs = Some (r, cabs)"
    and "waiting ops (hist @ [(op, r)]) k l'"
proof -
  from assms(1) obtain todo where todo: "ops = map fst hist @ todo" "resumes todo (Act f # k)"
    "results l = map snd hist"
    by (auto simp: waiting_def)
  from todo(2) show thesis
  proof (cases rule: resumes_first)
    case (2 op todo' g fs)
    from unlocked_law [OF 2(2) assms(2) owner_visible [OF assms(3)]] obtain r where "fs = []" "spec op cabs = Some (r, cabs)"
        "runs (f (c, l)) (\<lambda>(c2, l'). c2 = c \<and> results l' = results l @ [r])"
      using 2(3,4) by auto
    with 2 todo that [of _ op r] show thesis by (auto simp: waiting_def resumes_def elim!: runsE)
  qed simp_all
qed

text \<open>The test either leads to the section or ends the call.\<close>

lemma waiting_Leave:
  assumes "waiting ops hist (Leave_If p n # k) l" and "wf cabs" and "owner_ok ow cabs c"
  shows "waiting ops hist (fst (leave_if p n c (k, l))) (snd (leave_if p n c (k, l))) \<or>
    (\<exists>op r. spec op cabs = Some (r, cabs) \<and>
       waiting ops (hist @ [(op, r)]) (fst (leave_if p n c (k, l))) (snd (leave_if p n c (k, l))))"
proof -
  from assms(1) obtain todo where todo: "ops = map fst hist @ todo" "resumes todo (Leave_If p n # k)"
    "results l = map snd hist"
    by (auto simp: waiting_def)
  from todo(2) show ?thesis
  proof (cases rule: resumes_first)
    case (3 op todo' q)
    show ?thesis
    proof (cases "p (c, l)")
      case None
      with 3 todo show ?thesis by (auto simp: waiting_def resumes_def leave_if_def)
    next
      case (Some l')
      with guard_law [OF 3(2) assms(2) owner_visible [OF assms(3)], of l l'] 3(3) obtain r where
        "spec op cabs = Some (r, cabs)" "results l' = results l @ [r]" by auto
      with 3 todo Some show ?thesis by (auto simp: waiting_def resumes_def leave_if_def)
    qed
  qed simp_all
qed

lemma inside_Act:
  assumes "inside ops hist cabs c (x # k) l" and "wf cabs"
  obtains f c' l' where "x = Act f" and "f (c, l) = Some (c', l')"
    and "visible shape body cabs c' \<and> inside ops hist cabs c' k l' \<or>
         (\<exists>op r. spec op cabs = Some (r, c') \<and> wf c' \<and> leaving ops (hist @ [(op, r)]) k l')"
proof -
  from assms(1) obtain op todo pre f post l0 where
    op: "ops = map fst hist @ op # todo" "shape op \<noteq> Unlocked" "body op = pre @ f # post" "x = Act f"
      "k = map Act post @ Exit # program shape body todo" and
    pre: "run_body pre (cabs, l0) = Some (c, l)" "results l0 = map snd hist"
    unfolding inside_def by (auto simp: neq_Nil_conv)
  from section_law [OF op(2) assms(2)] obtain r c2 where
    sp: "spec op cabs = Some (r, c2)" "wf c2" and
    all: "runs (run_body (body op) (cabs, l0)) (\<lambda>(c1, l'). c1 = c2 \<and> results l' = results l0 @ [r])"
    by (auto elim!: runsE)
  from all op(3) pre(1) obtain c' l' where f: "f (c, l) = Some (c', l')"
    and rest: "runs (run_body post (c', l')) (\<lambda>(c1, l'). c1 = c2 \<and> results l' = results l0 @ [r])"
    by (auto simp: run_body_append elim!: runsE)
  from pre f have pre': "run_body (pre @ [f]) (cabs, l0) = Some (c', l')"
    by (simp add: run_body_append)
  show thesis
  proof (cases post)
    case Nil
    with rest op sp pre(2) have "leaving ops (hist @ [(op, r)]) k l'" "c' = c2"
      by (auto simp: leaving_def waiting_def resumes_def)
    with sp f op(4) that show thesis by blast
  next
    case (Cons g gs)
    with pre' op(3) have "mid_section (body op) cabs c'"
      unfolding mid_section_def by (metis append.assoc append_Cons append_Nil list.distinct(1))
    with op(2) have "visible shape body cabs c'" unfolding visible_def by blast
    moreover from Cons pre' op pre(2) have "inside ops hist cabs c' k l'"
      unfolding inside_def
      by (intro exI [of _ op] exI [of _ todo] exI [of _ "pre @ [f]"] exI [of _ post] exI [of _ l0]) simp
    ultimately show thesis using that f op(2,4) by blast
  qed
qed

text \<open>A thread that moves leaves what is known of the others as it is.\<close>

lemma thread_ok_other:
  assumes "thread_ok progs H ow cabs c j t" and "j \<noteq> i"
    and "ow = Some j \<Longrightarrow> ow' = Some j \<and> cabs' = cabs \<and> c' = c"
    and "ow \<noteq> Some j \<Longrightarrow> ow' \<noteq> Some j"
    and "H' = H \<or> (\<exists>h. H' = H @ [(i, h)])"
  shows "thread_ok progs H' ow' cabs' c' j t"
proof -
  from assms(2,5) have "of_thread j H' = of_thread j H" by auto
  with assms(1,3,4) show ?thesis
    unfolding thread_ok_def Let_def by (metis (full_types))
qed

lemma cs_inv_at_moved:
  assumes "cs_inv_at c0 progs H cabs (c, ow, ts)" and "i < length ts"
    and "H' = H \<and> cabs' = cabs \<or> (\<exists>op r. H' = H @ [(i, op, r)] \<and> spec op cabs = Some (r, cabs') \<and> wf cabs')"
    and "owner_ok ow' cabs' c'" and "ow' = None \<or> ow' = Some i \<or> ow' = ow"
    and "\<And>j. j \<noteq> i \<Longrightarrow> ow = Some j \<Longrightarrow> ow' = Some j \<and> cabs' = cabs \<and> c' = c"
    and "thread_ok progs H' ow' cabs' c' i t"
  shows "cs_inv_at c0 progs H' cabs' (c', ow', ts[i := t])"
proof -
  have "replay spec c0 H' = Some cabs' \<and> wf cabs' \<and> (\<forall>h \<in> set H'. fst h < length progs)"
    using assms(1-3) by (auto simp: cs_inv_at_def intro: replay_snoc)
  moreover have "thread_ok progs H' ow' cabs' c' j (ts[i := t] ! j)" if "j < length progs" for j
  proof (cases "j = i")
    case False
    have "thread_ok progs H' ow' cabs' c' j (ts ! j)"
    proof (rule thread_ok_other [OF _ False])
      show "thread_ok progs H ow cabs c j (ts ! j)" using assms(1) that by (simp add: cs_inv_at_def)
    qed (use assms(3,5,6) False in auto)
    with False show ?thesis by simp
  qed (use assms in \<open>simp add: cs_inv_at_def\<close>)
  moreover from assms(1,2,5) have "ow' = Some j \<Longrightarrow> j < length progs" for j
    by (auto simp: cs_inv_at_def)
  ultimately show ?thesis
    using assms(1,4) by (simp add: cs_inv_at_def)
qed

lemma outside_Leave: "thread_ok progs H ow cabs c i (Leave_If p n # k, l) \<Longrightarrow> ow \<noteq> Some i"
  by (auto simp: thread_ok_def Let_def leaving_def inside_def Cons_eq_append_conv)

text \<open>One lemma per rule of the step relation; the thread \<open>i\<close> moves from \<open>(x # k, l)\<close>.\<close>

lemma cs_inv_at_thread:
  assumes "cs_inv_at c0 progs H cabs (c, ow, ts)" and "i < length ts" and "ts ! i = t"
  shows "thread_ok progs H ow cabs c i t" "wf cabs" "owner_ok ow cabs c"
  using assms by (auto simp: cs_inv_at_def)

lemma cs_inv_at_enter:
  assumes inv: "cs_inv_at c0 progs H cabs (c, None, ts)" and "i < length ts" and "ts ! i = (Enter # k, l)"
  shows "cs_inv_at c0 progs H cabs (c, Some i, ts[i := (k, l)])"
proof -
  from cs_inv_at_thread [OF assms] have c: "c = cabs" "waiting (progs ! i) (of_thread i H) (Enter # k) l"
    by (auto simp: owner_ok_def thread_ok_def Let_def)
  from waiting_Enter [OF c(2)] have "thread_ok progs H (Some i) cabs cabs i (k, l)"
    by (simp add: thread_ok_def)
  then show ?thesis
    using assms c by (intro cs_inv_at_moved [OF inv]) (auto simp: owner_ok_def)
qed

lemma cs_inv_at_exit:
  assumes inv: "cs_inv_at c0 progs H cabs (c, ow, ts)" and "i < length ts" and "ts ! i = (Exit # k, l)"
  shows "cs_inv_at c0 progs H cabs (c, None, ts[i := (k, l)])"
proof -
  note ok = cs_inv_at_thread(1) [OF assms]
  then have ow: "ow = Some i" using waiting_not_Exit by (auto simp: thread_ok_def Let_def split: if_splits)
  have "\<not> inside (progs ! i) (of_thread i H) cabs c (Exit # k) l"
    unfolding inside_def by (auto simp: Cons_eq_append_conv)
  with ok ow have "c = cabs" "waiting (progs ! i) (of_thread i H) k l"
    by (auto simp: thread_ok_def leaving_def)
  then show ?thesis
    using assms ow by (intro cs_inv_at_moved [OF inv]) (auto simp: owner_ok_def thread_ok_def)
qed

lemma cs_inv_at_inside:
  assumes inv: "cs_inv_at c0 progs H cabs (c, Some i, ts)" and "i < length ts" and "ts ! i = (Act f # k, l)"
    and "f (c, l) = Some (c', l')"
  shows "\<exists>H' cabs'. cs_inv_at c0 progs H' cabs' (c', Some i, ts[i := (k, l')])"
proof -
  note ok = cs_inv_at_thread [OF assms(1-3)]
  then have "inside (progs ! i) (of_thread i H) cabs c (Act f # k) l"
    by (auto simp: thread_ok_def leaving_def)
  from inside_Act [OF this ok(2)] assms(4) have "visible shape body cabs c' \<and> inside (progs ! i) (of_thread i H) cabs c' k l' \<or>
     (\<exists>op r. spec op cabs = Some (r, c') \<and> wf c' \<and> leaving (progs ! i) (of_thread i H @ [(op, r)]) k l')"
    by (metis instr.inject option.inject prod.inject)
  then show ?thesis
  proof (elim disjE exE conjE)
    assume "visible shape body cabs c'" "inside (progs ! i) (of_thread i H) cabs c' k l'"
    then have "cs_inv_at c0 progs H cabs (c', Some i, ts[i := (k, l')])"
      using assms by (intro cs_inv_at_moved [OF inv]) (auto simp: owner_ok_def thread_ok_def)
    then show ?thesis by blast
  next
    fix op r assume "spec op cabs = Some (r, c')" "wf c'" "leaving (progs ! i) (of_thread i H @ [(op, r)]) k l'"
    then have "cs_inv_at c0 progs (H @ [(i, op, r)]) c' (c', Some i, ts[i := (k, l')])"
      using assms by (intro cs_inv_at_moved [OF inv]) (auto simp: owner_ok_def thread_ok_def)
    then show ?thesis by blast
  qed
qed

lemma cs_inv_at_outside:
  assumes inv: "cs_inv_at c0 progs H cabs (c, ow, ts)" and "i < length ts" and "ts ! i = (Act f # k, l)"
    and "f (c, l) = Some (c', l')" and "ow \<noteq> Some i"
  shows "\<exists>H' cabs'. cs_inv_at c0 progs H' cabs' (c', ow, ts[i := (k, l')])"
proof -
  note ok = cs_inv_at_thread [OF assms(1-3)]
  then have "waiting (progs ! i) (of_thread i H) (Act f # k) l" using assms(5) by (simp add: thread_ok_def)
  from waiting_Act [OF this ok(2,3)] assms(4) obtain op r where
    "c' = c" "spec op cabs = Some (r, cabs)" "waiting (progs ! i) (of_thread i H @ [(op, r)]) k l'"
    by (metis option.inject prod.inject)
  then have "cs_inv_at c0 progs (H @ [(i, op, r)]) cabs (c', ow, ts[i := (k, l')])"
    using assms ok by (intro cs_inv_at_moved [OF inv]) (auto simp: thread_ok_def)
  then show ?thesis by blast
qed

lemma cs_inv_at_leave:
  assumes inv: "cs_inv_at c0 progs H cabs (c, ow, ts)" and "i < length ts" and "ts ! i = (Leave_If p n # k, l)"
  shows "\<exists>H'. cs_inv_at c0 progs H' cabs (c, ow, ts[i := leave_if p n c (k, l)])"
proof -
  note ok = cs_inv_at_thread [OF assms]
  have ow: "ow \<noteq> Some i" using outside_Leave [OF ok(1)] .
  with ok(1) have "waiting (progs ! i) (of_thread i H) (Leave_If p n # k) l" by (simp add: thread_ok_def)
  from waiting_Leave [OF this ok(2,3)] show ?thesis
  proof (elim disjE exE conjE)
    assume "waiting (progs ! i) (of_thread i H) (fst (leave_if p n c (k, l))) (snd (leave_if p n c (k, l)))"
    then have "cs_inv_at c0 progs H cabs (c, ow, ts[i := leave_if p n c (k, l)])"
      using assms ow ok by (intro cs_inv_at_moved [OF inv]) (auto simp: thread_ok_def)
    then show ?thesis by blast
  next
    fix op r
    assume "spec op cabs = Some (r, cabs)"
      "waiting (progs ! i) (of_thread i H @ [(op, r)]) (fst (leave_if p n c (k, l))) (snd (leave_if p n c (k, l)))"
    then have "cs_inv_at c0 progs (H @ [(i, op, r)]) cabs (c, ow, ts[i := leave_if p n c (k, l)])"
      using assms ow ok by (intro cs_inv_at_moved [OF inv]) (auto simp: thread_ok_def)
    then show ?thesis by blast
  qed
qed

lemma cs_inv_at_step:
  assumes inv: "cs_inv_at c0 progs H cabs s" and "lk \<noteq> No_Op" and "cs_step lk s s'"
  shows "\<exists>H' cabs'. cs_inv_at c0 progs H' cabs' s'"
  using assms(3)
proof cases
  case (cs_enter i ts k l ow ow' c)
  with \<open>lk \<noteq> No_Op\<close> have "ow = None" "ow' = Some i"
    by (auto simp: iolink_critical_enter_def split: if_splits)
  with cs_enter inv show ?thesis by (blast intro: cs_inv_at_enter)
next
  case (cs_exit i ts k l ow c)
  moreover from \<open>lk \<noteq> No_Op\<close> have "iolink_critical_exit lk ow = None" by (simp add: iolink_critical_exit_def)
  ultimately show ?thesis using inv by (metis cs_inv_at_exit)
next
  case (cs_act i ts f k l ow c c' l')
  with inv show ?thesis by (cases "ow = Some i") (blast intro: cs_inv_at_inside cs_inv_at_outside)+
next
  case (cs_leave i ts p n k l ow c)
  with inv show ?thesis by (metis cs_inv_at_leave)
qed

lemma cs_inv_at_start:
  assumes "wf c0" and "length ts = length progs"
    and "\<And>i. i < length progs \<Longrightarrow> fst (ts ! i) = program shape body (progs ! i) \<and> results (snd (ts ! i)) = []"
  shows "cs_inv_at c0 progs [] c0 (c0, None, ts)"
  using assms by (simp add: cs_inv_at_def replay_def owner_ok_def thread_ok_def waiting_def resumes_def)

lemma cs_inv_at_reachable:
  assumes "cs_inv_at c0 progs H cabs s" and "lk \<noteq> No_Op" and "cs_steps lk s s'"
  shows "\<exists>H' cabs'. cs_inv_at c0 progs H' cabs' s'"
  using assms(3,1) by induction (use cs_inv_at_step assms(2) in blast)+

text \<open>No reachable state is stuck before the end, and none faults.\<close>

lemma thread_ok_act:
  assumes "thread_ok progs H ow cabs c i (Act f # k, l)" and "wf cabs" and "owner_ok ow cabs c"
  obtains c' l' where "f (c, l) = Some (c', l')"
proof (cases "ow = Some i")
  case True
  with assms(1) have "inside (progs ! i) (of_thread i H) cabs c (Act f # k) l"
    by (auto simp: thread_ok_def leaving_def)
  from inside_Act [OF this assms(2)] that show thesis by (metis instr.inject)
next
  case False
  with assms(1) have "waiting (progs ! i) (of_thread i H) (Act f # k) l" by (simp add: thread_ok_def)
  from waiting_Act [OF this assms(2,3)] that show thesis by blast
qed

lemma thread_ok_first:
  assumes "thread_ok progs H ow cabs c i (x # k, l)"
  shows "x = Enter \<Longrightarrow> ow \<noteq> Some i" and "x = Exit \<Longrightarrow> ow = Some i"
  using assms waiting_not_Exit
  by (auto simp: thread_ok_def Let_def leaving_def inside_def Cons_eq_append_conv split: if_splits)

lemma cs_inv_at_progress:
  assumes inv: "cs_inv_at c0 progs H cabs (c, ow, ts)" and "lk \<noteq> No_Op"
  shows "\<not> cs_fault lk (c, ow, ts)" and "cs_finished (c, ow, ts) \<or> (\<exists>s'. cs_step lk (c, ow, ts) s')"
proof -
  have ok: "i < length ts \<Longrightarrow> thread_ok progs H ow cabs c i (ts ! i)" "wf cabs" "owner_ok ow cabs c" for i
    using inv by (auto simp: cs_inv_at_def)
  have act: "\<exists>c' l'. f (c, l) = Some (c', l')" if "i < length ts" "ts ! i = (Act f # k, l)" for i f k l
    using thread_ok_act [OF _ ok(2,3)] ok(1) [OF that(1)] that(2) by metis
  then show "\<not> cs_fault lk (c, ow, ts)"
    unfolding cs_fault_def by fastforce
  have move: "\<exists>s'. cs_step lk (c, ow, ts) s'"
    if "i < length ts" "fst (ts ! i) \<noteq> []" "ow = None \<or> ow = Some i" for i
  proof -
    from that(2) obtain x k l where t: "ts ! i = (x # k, l)" by (metis list.exhaust prod.collapse)
    note first = thread_ok_first [OF ok(1) [OF that(1), unfolded t]]
    from that(3) have "may_run lk i ow" by (auto simp: may_run_def)
    show ?thesis
    proof (cases x)
      case Enter
      with first(1) that(3) have "iolink_critical_enter lk i ow = Some (if lk = No_Op then ow else Some i)"
        by (auto simp: iolink_critical_enter_def)
      from cs_enter [OF that(1) _ this] t Enter show ?thesis by blast
    next
      case Exit
      from cs_exit [OF that(1) _ \<open>may_run lk i ow\<close>] t Exit show ?thesis by blast
    next
      case (Act f)
      from act [OF that(1)] t Act obtain c' l' where "f (c, l) = Some (c', l')" by blast
      with cs_act [of i ts f k l lk ow c] that(1) \<open>may_run lk i ow\<close> t Act show ?thesis by blast
    next
      case (Leave_If p n)
      from cs_leave [OF that(1) _ \<open>may_run lk i ow\<close>] t Leave_If show ?thesis by blast
    qed
  qed
  show "cs_finished (c, ow, ts) \<or> (\<exists>s'. cs_step lk (c, ow, ts) s')"
  proof (cases ow)
    case None
    with move show ?thesis by (fastforce simp: cs_finished_def in_set_conv_nth)
  next
    case (Some j)
    with inv have j: "j < length ts" by (simp add: cs_inv_at_def)
    with ok(1) [OF this] Some have "fst (ts ! j) \<noteq> []"
      by (auto simp: thread_ok_def leaving_def inside_def)
    with j move Some show ?thesis by blast
  qed
qed

text \<open>When every call has returned, the history is complete and the lock is free.\<close>

lemma resumes_empty: "resumes todo [] \<Longrightarrow> todo = []"
  using body_not_empty by (cases todo) (auto simp: resumes_def code_of_def in_section_def split: shape.splits)

lemma cs_inv_at_finished:
  assumes inv: "cs_inv_at c0 progs H cabs (c, ow, ts)" and "cs_finished (c, ow, ts)"
  shows "ow = None" and "c = cabs" and "wf c" and "replay spec c0 H = Some c"
    and "\<And>i. i < length progs \<Longrightarrow> of_thread i H = zip (progs ! i) (results (snd (ts ! i))) \<and>
           length (results (snd (ts ! i))) = length (progs ! i)"
proof -
  have empty: "fst (ts ! i) = []" if "i < length ts" for i
    using assms(2) that by (simp add: cs_finished_def)
  have ok: "i < length progs \<Longrightarrow> thread_ok progs H ow cabs c i (ts ! i)" for i
    using inv by (simp add: cs_inv_at_def)
  show "ow = None"
  proof (rule ccontr)
    assume "ow \<noteq> None"
    with inv obtain j where "ow = Some j" "j < length progs" by (auto simp: cs_inv_at_def)
    with ok [OF this(2)] empty [of j] inv show False
      by (auto simp: cs_inv_at_def thread_ok_def leaving_def inside_def)
  qed
  with inv show "c = cabs" "wf c" "replay spec c0 H = Some c"
    by (auto simp: cs_inv_at_def owner_ok_def)
  show "of_thread i H = zip (progs ! i) (results (snd (ts ! i))) \<and>
           length (results (snd (ts ! i))) = length (progs ! i)" if i: "i < length progs" for i
  proof -
    from ok [OF i] \<open>ow = None\<close> have "waiting (progs ! i) (of_thread i H) (fst (ts ! i)) (snd (ts ! i))"
      by (simp add: thread_ok_def)
    with empty [of i] i inv have "progs ! i = map fst (of_thread i H)" "results (snd (ts ! i)) = map snd (of_thread i H)"
      by (auto simp: waiting_def cs_inv_at_def dest!: resumes_empty)
    then show ?thesis by (simp add: zip_map_fst_snd)
  qed
qed

text \<open>The main result: every interleaving of the calls is equivalent to one sequential order.\<close>

theorem serialisable:
  assumes "wf c0" and "lk \<noteq> No_Op" and "length ls = length progs" and "\<forall>l \<in> set ls. results l = []"
    and "cs_steps lk (c0, None, zip (map (program shape body) progs) ls) (c, ow, ts)"
  shows "\<not> cs_fault lk (c, ow, ts)"
    and "cs_finished (c, ow, ts) \<or> (\<exists>s. cs_step lk (c, ow, ts) s)"
    and "cs_finished (c, ow, ts) \<Longrightarrow> ow = None \<and> wf c \<and>
      (\<exists>H. replay spec c0 H = Some c \<and>
         (\<forall>i < length progs. of_thread i H = zip (progs ! i) (results (snd (ts ! i))) \<and>
            length (results (snd (ts ! i))) = length (progs ! i)))"
proof -
  from assms(3,4) have "cs_inv_at c0 progs [] c0 (c0, None, zip (map (program shape body) progs) ls)"
    by (intro cs_inv_at_start assms(1)) auto
  from cs_inv_at_reachable [OF this assms(2,5)] obtain H cabs where
    inv: "cs_inv_at c0 progs H cabs (c, ow, ts)" by blast
  from cs_inv_at_progress [OF inv assms(2)] show "\<not> cs_fault lk (c, ow, ts)"
    "cs_finished (c, ow, ts) \<or> (\<exists>s. cs_step lk (c, ow, ts) s)" .
  show "ow = None \<and> wf c \<and> (\<exists>H. replay spec c0 H = Some c \<and>
         (\<forall>i < length progs. of_thread i H = zip (progs ! i) (results (snd (ts ! i))) \<and>
            length (results (snd (ts ! i))) = length (progs ! i)))" if "cs_finished (c, ow, ts)"
    using cs_inv_at_finished [OF inv that] by blast
qed

end

end
