(* ===== verification/Critical_Sections.thy ===== *)
theory Critical_Sections
  imports Core Interleaving
begin

text \<open>
  The critical sections of the public API: the event queue calls of \<^verbatim>\<open>src/events.c\<close> and the process
  data calls of \<^verbatim>\<open>src/iolink_core.c\<close>, split into their single accesses to the shared context, so
  that other threads and interrupts may come between them.  The interpretation \<open>api\<close> shows that
  they keep the contract \<open>sectioned_calls\<close> with the sequential models of \<open>Events\<close> and \<open>Core\<close>; two
  more results show where the protection ends.
\<close>

section \<open>The calls\<close>

text \<open>
  Calls of the application; a length argument is the length of the array that is passed.
  \<^verbatim>\<open>iolink_events_pending\<close> takes no lock, and \<^verbatim>\<open>iolink_events_get_highest_severity\<close> looks at the
  count before it takes the lock.
\<close>

datatype api_call =
    Trigger u16 iolink_event_type
  | Pop
  | Peek
  | Pending
  | Severity
  | Get_All "iolink_event list ptr"
  | Pd_Input "bytes ptr" bool
  | Pd_Output "bytes ptr"

datatype api_result =
    R_void
  | R_event "iolink_event option"
  | R_bool bool
  | R_u8 u8
  | R_events u8 "iolink_event list ptr"
  | R_int int
  | R_read int "bytes ptr"

text \<open>A thread's registers and local variables, and the results of its calls so far.\<close>

record api_local =
  lc_reg :: u8
  lc_flag :: bool
  lc_event :: iolink_event
  lc_len :: nat
  lc_msp :: u8
  lc_out :: "iolink_event list"
  lc_buf :: bytes
  lc_results :: "api_result list"

definition ptr_len :: "'a list ptr \<Rightarrow> nat" where
  "ptr_len p = (case p of NULL \<Rightarrow> 0 | Ref d \<Rightarrow> length d)"

abbreviation max_count :: "iolink_event list ptr \<Rightarrow> u8" where
  "max_count out \<equiv> word_of_nat (ptr_len out)"

fun api_spec :: "api_call \<Rightarrow> 'w core \<Rightarrow> (api_result \<times> 'w core) option" where
  "api_spec (Trigger code ty) k =
     map_option (Pair R_void) (mod_events (\<lambda>q. iolink_event_trigger q code ty) k)"
| "api_spec Pop k = do {
     (r, _) \<leftarrow> iolink_events_pop (iolink_get_events_ctx k);
     k' \<leftarrow> mod_events (\<lambda>q. map_option snd (iolink_events_pop q)) k;
     Some (R_event r, k') }"
| "api_spec Peek k = map_option (\<lambda>r. (R_event r, k)) (iolink_events_peek (iolink_get_events_ctx k))"
| "api_spec Pending k = Some (R_bool (iolink_events_pending (Ref (iolink_get_events_ctx k))), k)"
| "api_spec Severity k =
     map_option (\<lambda>r. (R_u8 r, k)) (iolink_events_get_highest_severity (Ref (iolink_get_events_ctx k)))"
| "api_spec (Get_All out) k =
     map_option (\<lambda>(r, out). (R_events r out, k)) (iolink_events_get_all (Ref (iolink_get_events_ctx k)) out (max_count out))"
| "api_spec (Pd_Input data valid) k =
     map_option (\<lambda>(r, k'). (R_int r, k')) (iolink_pd_input_update data (ptr_len data) valid k)"
| "api_spec (Pd_Output data) k =
     map_option (\<lambda>(r, d). (R_read r d, k)) (iolink_pd_output_read data (ptr_len data) k)"

text \<open>Which calls contain a critical section that their arguments let them reach.\<close>

fun api_locked :: "api_call \<Rightarrow> bool" where
  "api_locked Pending = False"
| "api_locked (Pd_Input data valid) = (data \<noteq> NULL \<and> ptr_len data \<le> IOLINK_PD_IN_MAX_SIZE)"
| "api_locked (Pd_Output data) = (data \<noteq> NULL)"
| "api_locked (Get_All out) = (out \<noteq> NULL \<and> max_count out \<noteq> 0)"
| "api_locked _ = True"

section \<open>Single accesses\<close>

text \<open>Reading the shared object into local variables; an access that is skipped unless the flag is set.\<close>

definition load :: "('c \<Rightarrow> 'l \<Rightarrow> 'l) \<Rightarrow> ('c, 'l) micro" where
  "load f = (\<lambda>(c, l). Some (c, f c l))"

definition store :: "('l \<Rightarrow> 'c \<Rightarrow> 'c) \<Rightarrow> ('c, 'l) micro" where
  "store f = (\<lambda>(c, l). Some (f l c, l))"

definition when_flag :: "('c, api_local) micro \<Rightarrow> ('c, api_local) micro" where
  "when_flag m = (\<lambda>(c, l). if lc_flag l then m (c, l) else Some (c, l))"

definition give :: "(api_local \<Rightarrow> api_result) \<Rightarrow> api_local \<Rightarrow> api_local" where
  "give r l = l\<lparr>lc_results := lc_results l @ [r l]\<rparr>"

lemmas micro_defs = load_def store_def when_flag_def give_def

text \<open>\<^verbatim>\<open>ctx->head = (ctx->head + 1U) % SIZE\<close> as a load and a store, and the load of \<^verbatim>\<open>ctx->count--\<close>.\<close>

definition advance_head :: "(iolink_events_ctx, api_local) micro list" where
  "advance_head =
     [load (\<lambda>q l. l\<lparr>lc_reg := ev_head q\<rparr>), store (\<lambda>l q. q\<lparr>ev_head := ev_slot (lc_reg l) 1\<rparr>)]"

definition load_count :: "(iolink_events_ctx, api_local) micro" where
  "load_count = load (\<lambda>q l. l\<lparr>lc_reg := ev_count q\<rparr>)"

definition queue_write :: "(iolink_event \<Rightarrow> iolink_event) \<Rightarrow> (iolink_events_ctx, api_local) micro" where
  "queue_write f = (\<lambda>(q, l). do {
     e \<leftarrow> arr_get (ev_queue q) (unat (ev_tail q));
     es \<leftarrow> arr_set (ev_queue q) (unat (ev_tail q)) (f e);
     Some (q\<lparr>ev_queue := es\<rparr>, l) })"

definition queue_read :: "(iolink_event \<Rightarrow> iolink_event \<Rightarrow> iolink_event) \<Rightarrow> (iolink_events_ctx, api_local) micro" where
  "queue_read f = (\<lambda>(q, l). do {
     e \<leftarrow> arr_get (ev_queue q) (unat (ev_head q));
     Some (q, l\<lparr>lc_event := f e (lc_event l)\<rparr>) })"

definition trigger_body :: "u16 \<Rightarrow> iolink_event_type \<Rightarrow> (iolink_events_ctx, api_local) micro list" where
  "trigger_body code ty =
     load (\<lambda>q l. l\<lparr>lc_flag := unat (ev_count q) \<ge> IOLINK_EVENT_QUEUE_SIZE\<rparr>) #
     map when_flag (advance_head @ [load_count, store (\<lambda>l q. q\<lparr>ev_count := lc_reg l - 1\<rparr>)]) @
     [queue_write (\<lambda>e. e\<lparr>ev_code := code\<rparr>),
      queue_write (\<lambda>e. e\<lparr>ev_type := ty\<rparr>),
      load (\<lambda>q l. l\<lparr>lc_reg := ev_tail q\<rparr>),
      store (\<lambda>l q. q\<lparr>ev_tail := ev_slot (lc_reg l) 1\<rparr>),
      load_count,
      (\<lambda>(q, l). Some (q\<lparr>ev_count := lc_reg l + 1\<rparr>, give (\<lambda>_. R_void) l))]"

text \<open>\<^verbatim>\<open>if (ctx->count > 0U) *event = ctx->queue[ctx->head];\<close>, the two members one after the other.\<close>

definition front_body :: "(iolink_events_ctx, api_local) micro list" where
  "front_body =
     [load (\<lambda>q l. l\<lparr>lc_flag := ev_count q > 0\<rparr>),
      when_flag (queue_read (\<lambda>e ev. ev\<lparr>ev_code := ev_code e\<rparr>)),
      when_flag (queue_read (\<lambda>e ev. ev\<lparr>ev_type := ev_type e\<rparr>))]"

definition give_event :: "api_local \<Rightarrow> api_local" where
  "give_event = give (\<lambda>l. R_event (if lc_flag l then Some (lc_event l) else None))"

definition pop_body :: "(iolink_events_ctx, api_local) micro list" where
  "pop_body = front_body @ map when_flag (advance_head @ [load_count]) @
     [\<lambda>(q, l). Some (if lc_flag l then q\<lparr>ev_count := lc_reg l - 1\<rparr> else q, give_event l)]"

definition peek_body :: "(iolink_events_ctx, api_local) micro list" where
  "peek_body = front_body @ [load (\<lambda>_. give_event)]"

lemmas body_defs = trigger_body_def pop_body_def peek_body_def front_body_def advance_head_def load_count_def
  queue_write_def queue_read_def give_event_def

lemma event_members [simp]:
  "e\<lparr>ev_code := c, ev_type := t\<rparr> = \<lparr>ev_code = c, ev_type = t\<rparr>"
  "\<lparr>ev_code = ev_code e, ev_type = ev_type e\<rparr> = e" for e :: iolink_event
  by (cases e, simp)+

text \<open>
  The two loops over the queue.  \<^verbatim>\<open>count\<close> is a byte, so there are at most 255 rounds; a round past
  the end does nothing.  The test \<^verbatim>\<open>i < ctx->count\<close> of the first loop reads the shared count anew
  in every round; \<^verbatim>\<open>to_copy\<close> of the second is a local variable.
\<close>

definition severity_round :: "nat \<Rightarrow> (iolink_events_ctx, api_local) micro list" where
  "severity_round i =
     [load (\<lambda>q l. l\<lparr>lc_flag := lc_flag l \<and> i < unat (ev_count q)\<rparr>),
      when_flag (load (\<lambda>q l. l\<lparr>lc_reg := ev_slot (ev_head q) i\<rparr>)),
      when_flag (\<lambda>(q, l). do {
        e \<leftarrow> arr_get (ev_queue q) (unat (lc_reg l));
        let severity = event_severity (ev_type e);
        Some (q, l\<lparr>lc_msp := if severity > lc_msp l then severity else lc_msp l\<rparr>) })]"

definition severity_body :: "(iolink_events_ctx, api_local) micro list" where
  "severity_body =
     load (\<lambda>_ l. l\<lparr>lc_flag := True, lc_msp := 0\<rparr>) # concat (map severity_round [0..<255]) @
     [load (\<lambda>_. give (\<lambda>l. R_u8 (lc_msp l)))]"

definition severity_guard :: "('w core, api_local) guard" where
  "severity_guard = (\<lambda>(k, l).
     if ev_count (iolink_get_events_ctx k) = 0 then Some (give (\<lambda>_. R_u8 0) l) else None)"

definition within :: "nat \<Rightarrow> ('c, api_local) micro \<Rightarrow> ('c, api_local) micro" where
  "within i m = (\<lambda>(c, l). if i < lc_len l then m (c, l) else Some (c, l))"

definition copy_member :: "nat \<Rightarrow> (iolink_event \<Rightarrow> iolink_event \<Rightarrow> iolink_event) \<Rightarrow> (iolink_events_ctx, api_local) micro" where
  "copy_member i f = (\<lambda>(q, l). do {
     e \<leftarrow> arr_get (ev_queue q) (unat (lc_reg l));
     old \<leftarrow> arr_get (lc_out l) i;
     out \<leftarrow> arr_set (lc_out l) i (f e old);
     Some (q, l\<lparr>lc_out := out\<rparr>) })"

definition get_all_round :: "nat \<Rightarrow> (iolink_events_ctx, api_local) micro list" where
  "get_all_round i = map (within i)
     [load (\<lambda>q l. l\<lparr>lc_reg := ev_slot (ev_head q) i\<rparr>),
      copy_member i (\<lambda>e old. old\<lparr>ev_code := ev_code e\<rparr>),
      copy_member i (\<lambda>e old. old\<lparr>ev_type := ev_type e\<rparr>)]"

definition get_all_body :: "iolink_event list \<Rightarrow> u8 \<Rightarrow> (iolink_events_ctx, api_local) micro list" where
  "get_all_body out n =
     load (\<lambda>q l. l\<lparr>lc_out := out, lc_len := unat (if ev_count q < n then ev_count q else n)\<rparr>) #
     concat (map get_all_round [0..<255]) @
     [load (\<lambda>_. give (\<lambda>l. R_events (word_of_nat (lc_len l)) (Ref (lc_out l))))]"

text \<open>The accesses run without interruption are the atomic operations.\<close>

lemma run_trigger_body:
  assumes "events_wf q"
  shows "runs (iolink_event_trigger q code ty)
    (\<lambda>q'. \<forall>l. runs (run_body (trigger_body code ty) (q, l))
       (\<lambda>(q1, l'). q1 = q' \<and> lc_results l' = lc_results l @ [R_void]))"
  using assms
  by (auto simp: body_defs micro_defs iolink_event_trigger_def Let_def events_wf_def)

lemma run_pop_body:
  assumes "events_wf q"
  shows "runs (iolink_events_pop q) (\<lambda>(r, q'). \<forall>l. runs (run_body pop_body (q, l))
    (\<lambda>(q1, l'). q1 = q' \<and> lc_results l' = lc_results l @ [R_event r]))"
  using assms
  by (auto simp: body_defs micro_defs iolink_events_pop_def Let_def events_wf_def)

lemma run_peek_body:
  assumes "events_wf q"
  shows "runs (iolink_events_peek q) (\<lambda>r. \<forall>l. runs (run_body peek_body (q, l))
    (\<lambda>(q1, l'). q1 = q \<and> lc_results l' = lc_results l @ [R_event r]))"
  using assms
  by (auto simp: body_defs micro_defs iolink_events_peek_def Let_def events_wf_def)

lemma copy_step:
  "n < length xs \<Longrightarrow> n < length ys \<Longrightarrow>
     (take n xs @ drop n ys)[n := xs ! n] = take (Suc n) xs @ drop (Suc n) ys"
  by (simp add: list_update_append take_Suc_conv_app_nth Cons_nth_drop_Suc [symmetric] min_def)

lemma run_severity_round:
  assumes "events_wf q"
  shows "\<exists>l'. run_body (severity_round n) (q, l) = Some (q, l') \<and>
    lc_flag l' = (lc_flag l \<and> n < unat (ev_count q)) \<and> lc_results l' = lc_results l \<and>
    lc_msp l' = (if lc_flag l' then max (event_severity (ev_type (events_list q ! n))) (lc_msp l) else lc_msp l)"
  using events_slot_nth [OF assms, of n]
  by (cases "lc_flag l \<and> n < unat (ev_count q)")
     (auto simp: severity_round_def micro_defs Let_def max_def)

lemma run_severity_rounds:
  assumes "events_wf q" and "lc_flag l" and "lc_msp l = 0"
  shows "\<exists>l'. run_body (concat (map severity_round [0..<n])) (q, l) = Some (q, l') \<and>
    lc_flag l' = (n \<le> unat (ev_count q)) \<and> lc_results l' = lc_results l \<and>
    lc_msp l' = fold max (map (event_severity \<circ> ev_type) (take n (events_list q))) 0"
proof (induction n)
  case (Suc n)
  then obtain l1 where l1: "run_body (concat (map severity_round [0..<n])) (q, l) = Some (q, l1)"
    "lc_flag l1 = (n \<le> unat (ev_count q))" "lc_results l1 = lc_results l"
    "lc_msp l1 = fold max (map (event_severity \<circ> ev_type) (take n (events_list q))) 0"
    by blast
  with run_severity_round [OF assms(1), of n l1] show ?case
    by (cases "n < unat (ev_count q)") (auto simp: run_body_append take_Suc_conv_app_nth comp_def)
qed (use assms in simp)

lemma run_severity_body:
  assumes "events_wf q"
  shows "runs (iolink_events_get_highest_severity (Ref q)) (\<lambda>r. \<forall>l. runs (run_body severity_body (q, l))
    (\<lambda>(q1, l'). q1 = q \<and> lc_results l' = lc_results l @ [R_u8 r]))"
proof -
  let ?r = "fold max (map (event_severity \<circ> ev_type) (events_list q)) 0"
  have "iolink_events_get_highest_severity (Ref q) = Some ?r"
    using highest_severity_loop [OF assms, of "unat (ev_count q)"] events_list_empty_iff [of q]
    by (auto simp: iolink_events_get_highest_severity_def)
  moreover have "runs (run_body severity_body (q, l)) (\<lambda>(q1, l'). q1 = q \<and> lc_results l' = lc_results l @ [R_u8 ?r])" for l
  proof -
    have "take 255 (events_list q) = events_list q" using assms by (simp add: events_wf_def)
    with run_severity_rounds [OF assms, of "l\<lparr>lc_flag := True, lc_msp := 0\<rparr>" 255] show ?thesis
      by (auto simp: severity_body_def run_body_append load_def give_def)
  qed
  ultimately show ?thesis by simp
qed

lemma run_get_all_round:
  assumes "events_wf q" and "lc_len l \<le> unat (ev_count q)" and "lc_len l \<le> length (lc_out l)"
  shows "\<exists>l'. run_body (get_all_round n) (q, l) = Some (q, l') \<and>
    lc_results l' = lc_results l \<and> lc_len l' = lc_len l \<and>
    lc_out l' = (if n < lc_len l then (lc_out l)[n := events_list q ! n] else lc_out l)"
  using events_slot_nth [OF assms(1), of n] assms(2,3)
  by (cases "n < lc_len l") (simp_all add: get_all_round_def within_def copy_member_def load_def)

lemma run_get_all_rounds:
  assumes "events_wf q" and "lc_len l \<le> unat (ev_count q)" and "lc_len l \<le> length (lc_out l)"
  shows "\<exists>l'. run_body (concat (map get_all_round [0..<n])) (q, l) = Some (q, l') \<and>
    lc_results l' = lc_results l \<and> lc_len l' = lc_len l \<and>
    lc_out l' = take (min n (lc_len l)) (events_list q) @ drop (min n (lc_len l)) (lc_out l)"
proof (induction n)
  case (Suc n)
  then obtain l1 where l1: "run_body (concat (map get_all_round [0..<n])) (q, l) = Some (q, l1)"
    "lc_results l1 = lc_results l" "lc_len l1 = lc_len l"
    "lc_out l1 = take (min n (lc_len l)) (events_list q) @ drop (min n (lc_len l)) (lc_out l)"
    by blast
  then have "lc_len l1 \<le> length (lc_out l1)" using assms by simp
  with run_get_all_round [OF assms(1), of l1 n] l1 assms(2) obtain l' where
    "run_body (concat (map get_all_round [0..<Suc n])) (q, l) = Some (q, l')" "lc_results l' = lc_results l"
    "lc_len l' = lc_len l" "lc_out l' = (if n < lc_len l then (lc_out l1)[n := events_list q ! n] else lc_out l1)"
    by (auto simp: run_body_append)
  moreover have "n < lc_len l \<Longrightarrow> (take n (events_list q) @ drop n (lc_out l))[n := events_list q ! n]
      = take (Suc n) (events_list q) @ drop (Suc n) (lc_out l)"
    using assms by (intro copy_step) simp_all
  ultimately show ?case using l1(4) by (auto simp: min_def not_less le_Suc_eq)
qed simp

lemma run_get_all_body:
  assumes "events_wf q" and "unat n \<le> length out"
  shows "runs (iolink_events_get_all (Ref q) (Ref out) n) (\<lambda>(r, out'). \<forall>l. runs (run_body (get_all_body out n) (q, l))
    (\<lambda>(q1, l'). q1 = q \<and> lc_results l' = lc_results l @ [R_events r out']))"
proof -
  let ?n = "min (unat (ev_count q)) (unat n)"
  have n: "unat (if ev_count q < n then ev_count q else n) = ?n"
    by (simp add: min_def word_less_nat_alt)
  have "?n \<le> length out" "min 255 ?n = ?n" using assms by (auto simp: events_wf_def)
  then have "runs (run_body (get_all_body out n) (q, l)) (\<lambda>(q1, l'). q1 = q \<and>
      lc_results l' = lc_results l @ [R_events (word_of_nat ?n) (Ref (take ?n (events_list q) @ drop ?n out))])" for l
    using run_get_all_rounds [OF assms(1), of "l\<lparr>lc_out := out, lc_len := ?n\<rparr>" 255] n
    by (auto simp: get_all_body_def run_body_append load_def give_def)
  with \<open>?n \<le> length out\<close> iolink_events_get_all_eq [OF assms(1), of n out] show ?thesis by simp
qed

text \<open>
  No access but the last of a trigger or a pop changes whether events are pending; the other
  calls do not write to the queue at all.
\<close>

fun holds_before_each :: "('c \<Rightarrow> bool) \<Rightarrow> ('c, 'l) micro list \<Rightarrow> 'c \<times> 'l \<Rightarrow> bool" where
  "holds_before_each P [] s = True"
| "holds_before_each P (f # fs) s =
     (P (fst s) \<and> (case f s of None \<Rightarrow> True | Some s' \<Rightarrow> holds_before_each P fs s'))"

lemma holds_mid_section:
  assumes "mid_section fs c c1" and "\<And>l. holds_before_each P fs (c, l)"
  shows "P c1"
proof -
  have *: "holds_before_each P (pre @ post) s \<Longrightarrow> run_body pre s = Some (c1, l1) \<Longrightarrow> post \<noteq> [] \<Longrightarrow> P c1"
    for pre post s l1
    by (induction pre arbitrary: s) (auto simp: neq_Nil_conv bind_eq_Some_conv)
  from assms(1) obtain pre post l l1 where
    "fs = pre @ post" "post \<noteq> []" "run_body pre (c, l) = Some (c1, l1)"
    by (auto simp: mid_section_def)
  with * [of pre post "(c, l)" l1] assms(2) [of l] show ?thesis by simp
qed

lemmas holds_Cons = holds_before_each.simps(2)

declare holds_Cons [simp del]

lemma holds_micro [simp]:
  "holds_before_each P [last_step] (c, l) \<longleftrightarrow> P c"
  "holds_before_each P (load g # fs) (c, l) \<longleftrightarrow> P c \<and> holds_before_each P fs (c, g c l)"
  "holds_before_each P (store h # fs) (c, l) \<longleftrightarrow> P c \<and> holds_before_each P fs (h l c, l)"
  "holds_before_each P' (when_flag m # ms) (c', l') \<longleftrightarrow>
     (if lc_flag l' then holds_before_each P' (m # ms) (c', l') else P' c' \<and> holds_before_each P' ms (c', l'))"
  "holds_before_each Q (queue_write f # qs) (q, r) \<longleftrightarrow>
     Q q \<and> (unat (ev_tail q) < length (ev_queue q) \<longrightarrow> holds_before_each Q qs
        (q\<lparr>ev_queue := (ev_queue q)[unat (ev_tail q) := f (ev_queue q ! unat (ev_tail q))]\<rparr>, r))"
  "holds_before_each Q (queue_read p # qs) (q, r) \<longleftrightarrow>
     Q q \<and> (unat (ev_head q) < length (ev_queue q) \<longrightarrow> holds_before_each Q qs
        (q, r\<lparr>lc_event := p (ev_queue q ! unat (ev_head q)) (lc_event r)\<rparr>))"
  by (auto simp: micro_defs queue_write_def queue_read_def arr_get_def arr_set_def holds_Cons split: option.split)

lemmas queue_steps = trigger_body_def pop_body_def peek_body_def front_body_def advance_head_def load_count_def

lemma trigger_mid_pending:
  assumes "mid_section (trigger_body code ty) q q1"
  shows "0 < ev_count q1 \<longleftrightarrow> 0 < ev_count q"
proof (rule holds_mid_section [OF assms])
  have "0 < ev_count q - 1" "0 < ev_count q" if "4 \<le> unat (ev_count q)"
    using that by (simp_all add: word_less_nat_alt unat_u8_pred)
  then show "holds_before_each (\<lambda>q1. (0 < ev_count q1) = (0 < ev_count q)) (trigger_body code ty) (q, l)" for l
    by (cases "4 \<le> unat (ev_count q)") (simp_all add: queue_steps)
qed

lemma pop_mid_pending:
  "mid_section pop_body q q1 \<Longrightarrow> 0 < ev_count q1 \<longleftrightarrow> 0 < ev_count q"
  by (erule holds_mid_section) (simp add: queue_steps)

lemma run_body_keeps:
  assumes "run_body fs (k, l) = Some (k', l')"
    and "\<And>f k l k' l'. f \<in> set fs \<Longrightarrow> f (k, l) = Some (k', l') \<Longrightarrow> g k' = g k"
  shows "g k' = g k"
  using assms
proof (induction fs arbitrary: k l)
  case (Cons f fs)
  then obtain k1 l1 where "f (k, l) = Some (k1, l1)" "run_body fs (k1, l1) = Some (k', l')"
    by (auto simp: bind_eq_Some_conv)
  with Cons.IH [of k1 l1] Cons.prems(2) show ?case by (metis list.set_intros)
qed simp

lemma mid_section_keeps:
  assumes "mid_section fs c c1"
    and "\<And>f c l c' l'. f \<in> set fs \<Longrightarrow> f (c, l) = Some (c', l') \<Longrightarrow> g c' = g c"
  shows "g c1 = g c"
proof -
  from assms(1) obtain pre post l l1 where fs: "fs = pre @ post" and run: "run_body pre (c, l) = Some (c1, l1)"
    by (auto simp: mid_section_def)
  show ?thesis
  proof (rule run_body_keeps [OF run])
    show "f \<in> set pre \<Longrightarrow> f (k, l) = Some (k', l') \<Longrightarrow> g k' = g k" for f k l k' l'
      by (rule assms(2) [of f]) (simp_all add: fs)
  qed
qed

lemma readers_keep_queue:
  assumes "mid_section fs q q1"
    and "fs = peek_body \<or> fs = severity_body \<or> fs = get_all_body out n"
  shows "q1 = q"
proof -
  have "id q1 = id q"
    by (rule mid_section_keeps [OF assms(1)])
       (use assms(2) in \<open>auto simp: peek_body_def front_body_def severity_body_def severity_round_def get_all_body_def
          get_all_round_def within_def copy_member_def queue_read_def micro_defs Let_def bind_eq_Some_conv split: if_splits\<close>)
  then show ?thesis by simp
qed

section \<open>Process data\<close>

definition ctx_of :: "'w core \<Rightarrow> 'w iolink_dll_ctx" where
  [simp]: "ctx_of k = sk_dll (g_stack k)"

definition on_ctx :: "('w iolink_dll_ctx \<Rightarrow> 'w iolink_dll_ctx) \<Rightarrow> 'w core \<Rightarrow> 'w core" where
  [simp]: "on_ctx f = mod_stack (mod_dll f)"

definition set_events :: "iolink_events_ctx \<Rightarrow> 'w core \<Rightarrow> 'w core" where
  "set_events q = on_ctx (dll_events_update (\<lambda>_. q))"

text \<open>An access to the event queue inside the device context.\<close>

definition on_events :: "(iolink_events_ctx, 'l) micro \<Rightarrow> ('w core, 'l) micro" where
  "on_events m = (\<lambda>(k, l). map_option (\<lambda>(q, l'). (set_events q k, l')) (m (iolink_get_events_ctx k, l)))"

text \<open>One byte of \<^verbatim>\<open>memcpy(g_dll_ctx.pd_in, data, len)\<close>.\<close>

definition pd_in_write :: "nat \<Rightarrow> u8 \<Rightarrow> ('w core, 'l) micro" where
  "pd_in_write i b = (\<lambda>(k, l). do {
     buf \<leftarrow> arr_set (dll_pd_in (ctx_of k)) i b;
     Some (on_ctx (dll_pd_in_update (\<lambda>_. buf)) k, l) })"

definition pd_input_body :: "bytes \<Rightarrow> bool \<Rightarrow> ('w core, api_local) micro list" where
  "pd_input_body data valid =
     map (\<lambda>i. pd_in_write i (data ! i)) [0..<length data] @
     [store (\<lambda>_. on_ctx (dll_pd_in_len_update (\<lambda>_. word_of_nat (length data)))),
      store (\<lambda>_. on_ctx (dll_pd_valid_update (\<lambda>_. valid))),
      load (\<lambda>k l. l\<lparr>lc_flag := dll_pd_in_toggle (ctx_of k)\<rparr>),
      (\<lambda>(k, l). Some (on_ctx (dll_pd_in_toggle_update (\<lambda>_. \<not> lc_flag l)) k, give (\<lambda>_. R_int 0) l))]"

text \<open>
  One byte of \<^verbatim>\<open>memcpy(data, g_dll_ctx.pd_out, read_len)\<close>; \<open>read_len\<close> is known only inside the
  section and is a byte, so the copy is 255 steps of which those past the length do nothing.
\<close>

definition pd_out_read :: "nat \<Rightarrow> ('w core, api_local) micro" where
  "pd_out_read i = (\<lambda>(k, l).
     if i < lc_len l then do {
       b \<leftarrow> arr_get (dll_pd_out (ctx_of k)) i;
       buf \<leftarrow> arr_set (lc_buf l) i b;
       Some (k, l\<lparr>lc_buf := buf\<rparr>) }
     else Some (k, l))"

definition pd_output_body :: "bytes \<Rightarrow> ('w core, api_local) micro list" where
  "pd_output_body data =
     load (\<lambda>k l. l\<lparr>lc_buf := data, lc_flag := length data < unat (dll_pd_out_len (ctx_of k))\<rparr>) #
     load (\<lambda>k l. l\<lparr>lc_len := if lc_flag l then length data mod 256 else unat (dll_pd_out_len (ctx_of k))\<rparr>) #
     map pd_out_read [0..<255] @
     [load (\<lambda>_. give (\<lambda>l. R_read (int (lc_len l)) (Ref (lc_buf l))))]"

fun api_body :: "api_call \<Rightarrow> ('w core, api_local) micro list" where
  "api_body (Trigger code ty) = map on_events (trigger_body code ty)"
| "api_body Pop = map on_events pop_body"
| "api_body Peek = map on_events peek_body"
| "api_body Pending = [load (\<lambda>k. give (\<lambda>_. R_bool (iolink_events_pending (Ref (iolink_get_events_ctx k)))))]"
| "api_body Severity = map on_events severity_body"
| "api_body (Get_All out) =
     (if api_locked (Get_All out) then map on_events (get_all_body (deref out) (max_count out))
      else [load (\<lambda>_. give (\<lambda>_. R_events 0 out))])"
| "api_body (Pd_Input data valid) =
     (if api_locked (Pd_Input data valid) then pd_input_body (deref data) valid
      else [load (\<lambda>_. give (\<lambda>_. R_int (-1)))])"
| "api_body (Pd_Output data) =
     (if api_locked (Pd_Output data) then pd_output_body (deref data)
      else [load (\<lambda>_. give (\<lambda>_. R_read (-1) NULL))])"

text \<open>The sections; only the severity call tests something before it enters.\<close>

definition api_shape :: "api_call \<Rightarrow> ('w core, api_local) shape" where
  "api_shape op =
     (if \<not> api_locked op then Unlocked else if op = Severity then Guarded severity_guard else Locked)"

lemma api_shape_iff [simp]:
  "api_shape op = Unlocked \<longleftrightarrow> \<not> api_locked op"
  "api_shape op = Locked \<longleftrightarrow> api_locked op \<and> op \<noteq> Severity"
  "api_shape op = Guarded p \<longleftrightarrow> op = Severity \<and> p = severity_guard"
  by (auto simp: api_shape_def)

abbreviation api_wf :: "'w core \<Rightarrow> bool" where
  "api_wf k \<equiv> stack_wf (g_stack k)"

section \<open>The sections keep the contract\<close>

lemma set_events_simps [simp]:
  "iolink_get_events_ctx (set_events q k) = q"
  "set_events q' (set_events q k) = set_events q' k"
  "set_events (iolink_get_events_ctx k) k = k"
  by (simp_all add: set_events_def iolink_get_events_ctx_def mod_stack_def mod_dll_def)

lemma mod_events_eq: "mod_events f k = map_option (\<lambda>q. set_events q k) (f (iolink_get_events_ctx k))"
  by (simp add: mod_events_def set_events_def)

lemma run_on_events:
  "run_body (map on_events ms) (k, l) =
     map_option (\<lambda>(q, l'). (set_events q k, l')) (run_body ms (iolink_get_events_ctx k, l))"
proof (induction ms arbitrary: k l)
  case (Cons m ms)
  then show ?case
    by (cases "m (iolink_get_events_ctx k, l)") (auto simp: on_events_def option.map_comp o_def split: prod.splits)
qed simp

lemma mid_on_events:
  assumes "mid_section (map on_events ms) k k1"
  obtains q1 where "mid_section ms (iolink_get_events_ctx k) q1" and "k1 = set_events q1 k"
proof -
  from assms obtain pre post l l1 where ms: "map on_events ms = pre @ post" "post \<noteq> []"
    and run: "run_body pre (k, l) = Some (k1, l1)"
    by (auto simp: mid_section_def)
  from ms(1) obtain ms1 ms2 where "ms = ms1 @ ms2" "pre = map on_events ms1" "post = map on_events ms2"
    by (auto simp: map_eq_append_conv)
  with ms(2) run that show thesis
    by (fastforce simp: run_on_events mid_section_def)
qed

text \<open>The process data sections never touch the event queue.\<close>

lemma pd_steps_keep_events:
  assumes "f \<in> set (pd_input_body data valid) \<union> set (pd_output_body data)" and "f (k, l) = Some (k', l')"
  shows "iolink_get_events_ctx k' = iolink_get_events_ctx k"
  using assms
  by (auto simp: pd_input_body_def pd_output_body_def pd_in_write_def pd_out_read_def micro_defs
      iolink_get_events_ctx_def mod_stack_def mod_dll_def bind_eq_Some_conv split: if_splits)

lemma api_mid_pending:
  assumes "api_locked op" and "mid_section (api_body op) k k1"
  shows "0 < ev_count (iolink_get_events_ctx k1) \<longleftrightarrow> 0 < ev_count (iolink_get_events_ctx k)"
proof -
  have pd: ?thesis if "mid_section fs k k1" "set fs \<subseteq> set (pd_input_body data valid) \<union> set (pd_output_body data)" for fs data valid
  proof -
    have "iolink_get_events_ctx k1 = iolink_get_events_ctx k"
      using that(2) by (intro mid_section_keeps [OF that(1), of iolink_get_events_ctx]) (blast intro: pd_steps_keep_events)
    then show ?thesis by simp
  qed
  show ?thesis
  proof (cases op)
    case (Pd_Input data valid)
    with assms show ?thesis by (intro pd [of "api_body op" "deref data" valid]) auto
  next
    case (Pd_Output data)
    with assms show ?thesis by (intro pd [of "api_body op" "deref data"]) auto
  qed (use assms in \<open>auto simp: trigger_mid_pending pop_mid_pending dest: readers_keep_queue elim!: mid_on_events\<close>)
qed

lemma api_visible_pending:
  "visible api_shape api_body k k1 \<Longrightarrow>
     0 < ev_count (iolink_get_events_ctx k1) \<longleftrightarrow> 0 < ev_count (iolink_get_events_ctx k)"
  using api_mid_pending by (fastforce simp: visible_def)

lemma run_pd_in_writes:
  assumes "n \<le> length d" and "length d \<le> length (dll_pd_in (ctx_of k))"
  shows "run_body (map (\<lambda>i. pd_in_write i (d ! i)) [0..<n]) (k, l) =
    Some (on_ctx (\<lambda>c. c\<lparr>dll_pd_in := take n d @ drop n (dll_pd_in c)\<rparr>) k, l)"
  using assms
proof (induction n)
  case 0
  then show ?case by (simp add: mod_stack_def mod_dll_def)
next
  case (Suc n)
  then show ?case
    by (simp add: run_body_append pd_in_write_def mod_stack_def mod_dll_def copy_step)
qed

lemma run_pd_out_reads:
  assumes "lc_len l \<le> length (dll_pd_out (ctx_of k))" and "lc_len l \<le> length (lc_buf l)"
  shows "run_body (map pd_out_read [0..<n]) (k, l) =
    Some (k, l\<lparr>lc_buf := take (min n (lc_len l)) (dll_pd_out (ctx_of k)) @ drop (min n (lc_len l)) (lc_buf l)\<rparr>)"
  using assms
proof (induction n)
  case (Suc n)
  then show ?case
    by (auto simp: run_body_append pd_out_read_def copy_step min_def)
qed simp

lemma run_pd_input_body:
  assumes "length d \<le> length (dll_pd_in (ctx_of k))"
  shows "runs (run_body (pd_input_body d valid) (k, l)) (\<lambda>(k', l').
     k' = on_ctx (\<lambda>c. c\<lparr>dll_pd_in := take (length d) d @ drop (length d) (dll_pd_in c),
             dll_pd_in_len := word_of_nat (length d), dll_pd_valid := valid,
             dll_pd_in_toggle := \<not> dll_pd_in_toggle c\<rparr>) k \<and>
     lc_results l' = lc_results l @ [R_int 0])"
  using run_pd_in_writes [of "length d" d k l] assms
  by (simp add: pd_input_body_def run_body_append micro_defs mod_stack_def mod_dll_def)

lemma run_pd_output_body:
  fixes d :: bytes
  assumes "unat (dll_pd_out_len (ctx_of k)) \<le> length (dll_pd_out (ctx_of k))"
  defines "n \<equiv> min (length d) (unat (dll_pd_out_len (ctx_of k)))"
  shows "runs (run_body (pd_output_body d) (k, l)) (\<lambda>(k', l'). k' = k \<and>
     lc_results l' = lc_results l @ [R_read (int n) (Ref (take n (dll_pd_out (ctx_of k)) @ drop n d))])"
proof -
  have "n < 256" "n \<le> length (dll_pd_out (ctx_of k))" "n \<le> length d"
    using assms unat_u8_less [of "dll_pd_out_len (ctx_of k)"] by (linarith | simp add: n_def)+
  moreover from this have "(if length d < unat (dll_pd_out_len (ctx_of k)) then length d mod 256
      else unat (dll_pd_out_len (ctx_of k))) = n"
    by (auto simp: n_def min_def)
  moreover from \<open>n < 256\<close> have "min 255 n = n" by simp
  ultimately show ?thesis
    using run_pd_out_reads [of "l\<lparr>lc_buf := d, lc_flag := length d < unat (dll_pd_out_len (ctx_of k)), lc_len := n\<rparr>" k 255]
    by (simp add: pd_output_body_def run_body_append micro_defs)
qed

lemma api_wf_set_events: "api_wf k \<Longrightarrow> events_wf q \<Longrightarrow> api_wf (set_events q k)"
  by (simp add: set_events_def mod_stack_def stack_wf_def dll_wf_def)

definition section_ok :: "api_call \<Rightarrow> 'w core \<Rightarrow> bool" where
  "section_ok op k \<longleftrightarrow> runs (api_spec op k) (\<lambda>(r, k'). api_wf k' \<and>
     (\<forall>l. runs (run_body (api_body op) (k, l)) (\<lambda>(k1, l'). k1 = k' \<and> lc_results l' = lc_results l @ [r])))"

lemma section_changes_events:
  assumes wf: "api_wf k"
  shows "section_ok (Trigger code ty) k" "section_ok Pop k"
proof -
  let ?q = "iolink_get_events_ctx k"
  from wf have q: "events_wf ?q" by (simp add: iolink_get_events_ctx_def stack_wf_def dll_wf_def)
  from runs_conj [OF iolink_event_trigger_wf [OF q, of code ty] run_trigger_body [OF q, of code ty]]
  show "section_ok (Trigger code ty) k"
    by (fastforce simp: section_ok_def mod_events_eq run_on_events split_beta elim!: runs_mono intro!: api_wf_set_events [OF wf])
  from runs_conj [OF iolink_events_pop_law [OF q] run_pop_body [OF q]] obtain r q' where
    "iolink_events_pop ?q = Some (r, q')" "events_wf q'"
    "\<forall>l. runs (run_body pop_body (?q, l)) (\<lambda>(q1, l'). q1 = q' \<and> lc_results l' = lc_results l @ [R_event r])"
    by (auto elim!: runsE)
  with api_wf_set_events [OF wf] show "section_ok Pop k"
    by (fastforce simp: section_ok_def mod_events_eq run_on_events split_beta elim!: runs_mono)
qed

lemma section_reads_events:
  assumes wf: "api_wf k"
  shows "section_ok Peek k" "section_ok Severity k" "api_locked (Get_All (Ref es)) \<Longrightarrow> section_ok (Get_All (Ref es)) k"
proof -
  let ?q = "iolink_get_events_ctx k"
  from wf have q: "events_wf ?q" by (simp add: iolink_get_events_ctx_def stack_wf_def dll_wf_def)
  from run_peek_body [OF q] obtain r where "iolink_events_peek ?q = Some r"
    "\<forall>l. runs (run_body peek_body (?q, l)) (\<lambda>(q1, l'). q1 = ?q \<and> lc_results l' = lc_results l @ [R_event r])"
    by (auto elim!: runsE)
  with wf show "section_ok Peek k"
    by (fastforce simp: section_ok_def run_on_events split_beta elim!: runs_mono)
  from run_severity_body [OF q] obtain r where "iolink_events_get_highest_severity (Ref ?q) = Some r"
    "\<forall>l. runs (run_body severity_body (?q, l)) (\<lambda>(q1, l'). q1 = ?q \<and> lc_results l' = lc_results l @ [R_u8 r])"
    by (auto elim!: runsE)
  with wf show "section_ok Severity k"
    by (fastforce simp: section_ok_def run_on_events split_beta elim!: runs_mono)
  let ?n = "max_count (Ref es)"
  have "unat ?n \<le> length es" by (simp add: ptr_len_def unat_of_nat)
  from run_get_all_body [OF q this] obtain r out' where "iolink_events_get_all (Ref ?q) (Ref es) ?n = Some (r, out')"
    "\<forall>l. runs (run_body (get_all_body es ?n) (?q, l)) (\<lambda>(q1, l'). q1 = ?q \<and> lc_results l' = lc_results l @ [R_events r out'])"
    by (auto elim!: runsE)
  with wf show "api_locked (Get_All (Ref es)) \<Longrightarrow> section_ok (Get_All (Ref es)) k"
    by (fastforce simp: section_ok_def run_on_events split_beta elim!: runs_mono)
qed

lemma section_process_data:
  assumes wf: "api_wf k"
  shows "api_locked (Pd_Input data valid) \<Longrightarrow> section_ok (Pd_Input data valid) k" "api_locked (Pd_Output data) \<Longrightarrow> section_ok (Pd_Output data) k"
proof -
  from wf have len: "length (dll_pd_in (ctx_of k)) = 32" "length (dll_pd_out (ctx_of k)) = 32" "unat (dll_pd_out_len (ctx_of k)) \<le> 32"
    by (simp_all add: stack_wf_def dll_wf_def)
  show "section_ok (Pd_Input data valid) k" if "api_locked (Pd_Input data valid)"
  proof -
    from that obtain d where "data = Ref d" "length d \<le> 32" by (cases data) (auto simp: ptr_len_def)
    then show ?thesis
      using run_pd_input_body [of d k valid] pd_input_update_law [of k "length d" d valid] len wf
      by (auto simp: section_ok_def ptr_len_def mod_stack_def stack_wf_def dll_wf_def)
  qed
  show "section_ok (Pd_Output data) k" if "api_locked (Pd_Output data)"
  proof -
    from that obtain d where "data = Ref d" by (cases data) auto
    then show ?thesis
      using run_pd_output_body [of k d] pd_output_read_law [of k "length d" d] len wf
      by (auto simp: section_ok_def ptr_len_def min.commute)
  qed
qed

lemma api_section:
  assumes "api_locked op" and "api_wf k"
  shows "runs (api_spec op k) (\<lambda>(r, k'). api_wf k' \<and>
    (\<forall>l. runs (run_body (api_body op) (k, l)) (\<lambda>(k1, l'). k1 = k' \<and> lc_results l' = lc_results l @ [r])))"
proof -
  have "section_ok op k"
  proof (cases op)
    case (Get_All out)
    with assms(1) obtain es where "out = Ref es" by (cases out) auto
    with Get_All assms section_reads_events(3) show ?thesis by simp
  qed (use assms in \<open>simp_all add: section_changes_events section_reads_events section_process_data\<close>)
  then show ?thesis unfolding section_ok_def .
qed

lemma api_unlocked:
  assumes "\<not> api_locked op" and "visible api_shape api_body k k1"
  shows "\<exists>f r. api_body op = [f] \<and> api_spec op k = Some (r, k) \<and>
    (\<forall>l. runs (f (k1, l)) (\<lambda>(k2, l'). k2 = k1 \<and> lc_results l' = lc_results l @ [r]))"
  using api_visible_pending [OF assms(2)] assms(1)
  by (cases op; cases "case op of Pd_Input data _ \<Rightarrow> data | Pd_Output data \<Rightarrow> data | _ \<Rightarrow> NULL";
      cases "case op of Get_All out \<Rightarrow> out | _ \<Rightarrow> NULL")
     (auto simp: micro_defs ptr_len_def iolink_pd_input_update_def iolink_pd_output_read_def
        iolink_events_pending_def iolink_events_get_all_def)

lemma api_guarded:
  assumes "visible api_shape api_body k k1" and "severity_guard (k1, l) = Some l'"
  shows "\<exists>r. api_spec Severity k = Some (r, k) \<and> lc_results l' = lc_results l @ [r]"
  using api_visible_pending [OF assms(1)] assms(2)
  by (auto simp: severity_guard_def iolink_events_get_highest_severity_def give_def word_gt_0 split: if_splits)

interpretation api: sectioned_calls api_shape api_body api_spec lc_results api_wf
proof
  show "api_body op \<noteq> ([] :: ('w core, api_local) micro list)" for op
    by (cases op) (simp_all add: body_defs severity_body_def get_all_body_def pd_input_body_def pd_output_body_def)
qed (use api_section api_unlocked api_guarded in simp_all)

definition api_start :: "'w core \<Rightarrow> api_call list list \<Rightarrow> api_local list \<Rightarrow> ('w core, api_local) config" where
  "api_start k progs ls = (k, None, zip (map (program api_shape api_body) progs) ls)"

text \<open>
  C3: With critical sections that exclude one another, concurrent use of the API is serialisable.
  Let any number of threads each make any sequence of the calls that have a critical section or
  read the event count (trigger, pop, peek, pending, highest severity, copy-out, process data in and
  out), interleaved access by access in any order.  Then no access is undefined, no thread is stuck before all
  calls have returned, no run takes more steps than the calls have instructions, and at the end
  the state and every result are those of executing the calls one at a time, in an order that
  keeps each thread's own order; the device invariant holds again and the lock is free.
\<close>

theorem api_serialisable:
  assumes "stack_wf (g_stack k0)" and "lk = Mutex \<or> lk = Mask"
    and "length ls = length progs" and "\<forall>l \<in> set ls. lc_results l = []"
    and "(cs_step lk ^^ n) (api_start k0 progs ls) (k, ow, ts)"
  shows "\<not> cs_fault lk (k, ow, ts) \<and> n \<le> cs_work (api_start k0 progs ls) \<and>
    (cs_finished (k, ow, ts) \<or> (\<exists>s. cs_step lk (k, ow, ts) s)) \<and>
    (cs_finished (k, ow, ts) \<longrightarrow> ow = None \<and> stack_wf (g_stack k) \<and>
      (\<exists>H. replay api_spec k0 H = Some k \<and>
         (\<forall>i < length progs. of_thread i H = zip (progs ! i) (lc_results (snd (ts ! i))) \<and>
            length (lc_results (snd (ts ! i))) = length (progs ! i))))"
proof -
  from assms(2) have "lk \<noteq> No_Op" by auto
  moreover from assms(5) have "cs_steps lk (k0, None, zip (map (program api_shape api_body) progs) ls) (k, ow, ts)"
    unfolding api_start_def by (rule relpowp_imp_rtranclp)
  note ser = api.serialisable [OF assms(1) calculation assms(3,4) this]
  with cs_run_bounded [OF assms(5)] show ?thesis by blast
qed

text \<open>A device with one event pending and two bytes of process data, and a fresh thread.\<close>

definition shared_core :: "host_world core" where
  "shared_core = on_ctx (\<lambda>c. c\<lparr>dll_pd_in_len_current := 2,
     dll_events := zero_events_ctx\<lparr>ev_tail := 1, ev_count := 1\<rparr>\<rparr>) stuck_core"

definition fresh_local :: api_local where
  "fresh_local = \<lparr>lc_reg = 0, lc_flag = False, lc_event = zero_event, lc_len = 0, lc_msp = 0, lc_out = [], lc_buf = [], lc_results = []\<rparr>"

lemma shared_core_simps:
  "stack_wf (g_stack shared_core)" "ev_count (iolink_get_events_ctx shared_core) = 1"
  "dll_pd_in_len_current (ctx_of shared_core) = 2" "lc_results fresh_local = []"
proof -
  have "events_wf (zero_events_ctx\<lparr>ev_tail := 1, ev_count := 1\<rparr>)"
    by (simp add: events_wf_def zero_events_ctx_def ev_slot_def)
  with stuck_core_simps(1) show "stack_wf (g_stack shared_core)"
    by (simp add: shared_core_def mod_stack_def stack_wf_def dll_wf_def)
qed (simp_all add: shared_core_def mod_stack_def iolink_get_events_ctx_def fresh_local_def)

lemma api_run_in_turn:
  fixes k :: "'w core"
  assumes "stack_wf (g_stack k)" and "op0 \<noteq> Severity" "op1 \<noteq> Severity" and "api_locked op0" and "api_locked op1"
  shows "\<exists>n k' ts. (cs_step lk ^^ n) (api_start k [[op0], [op1]] [l0, l1]) (k', None, ts) \<and> cs_finished (k', None, ts)"
proof -
  have lk: "api_shape op0 = (Locked :: ('w core, api_local) shape)" "api_shape op1 = (Locked :: ('w core, api_local) shape)"
    using assms by simp_all
  note call = cs_run_call [where shape = api_shape and body = api_body and lk = lk and k = "[]"]
  from api_section [OF assms(4,1)] obtain k1 l0' where
    r0: "stack_wf (g_stack k1)" "run_body (api_body op0) (k, l0) = Some (k1, l0')" by (fastforce elim!: runsE)
  from api_section [OF assms(5) r0(1)] obtain k2 l1' where
    r1: "run_body (api_body op1) (k1, l1) = Some (k2, l1')" by (fastforce elim!: runsE)
  have "cs_steps lk (api_start k [[op0], [op1]] [l0, l1]) (k1, None, [([], l0'), (code_of api_shape api_body op1, l1)])"
    using call [OF r0(2) lk(1), of 0 "[(code_of api_shape api_body op0, l0), (code_of api_shape api_body op1, l1)]"]
    by (simp add: api_start_def)
  also have "cs_steps lk (k1, None, [([], l0'), (code_of api_shape api_body op1, l1)]) (k2, None, [([], l0'), ([], l1')])"
    using call [OF r1 lk(2), of 1 "[([], l0'), (code_of api_shape api_body op1, l1)]"] by simp
  finally show ?thesis
    by (auto simp: cs_finished_def dest!: rtranclp_imp_relpowp
        intro!: exI [of _ k2] exI [of _ "[([], l0'), ([], l1')]"])
qed

lemma api_serialisable_witness:
  "\<exists>n k ts. (cs_step Mutex ^^ n) (api_start shared_core [[Trigger 0x1234 IOLINK_EVENT_TYPE_ERROR], [Pop]]
       [fresh_local, fresh_local]) (k, None, ts) \<and> cs_finished (k, None, ts) \<and> stack_wf (g_stack k) \<and>
     (\<exists>H. replay api_spec shared_core H = Some k)"
proof -
  from api_run_in_turn [OF shared_core_simps(1), of "Trigger 0x1234 IOLINK_EVENT_TYPE_ERROR" Pop Mutex fresh_local fresh_local]
  obtain n k ts where run: "(cs_step Mutex ^^ n) (api_start shared_core [[Trigger 0x1234 IOLINK_EVENT_TYPE_ERROR], [Pop]]
       [fresh_local, fresh_local]) (k, None, ts)" "cs_finished (k, None, ts)"
    by auto
  with api_serialisable [OF shared_core_simps(1) _ _ _ run(1)] show ?thesis
    by (auto simp: shared_core_simps(4))
qed

section \<open>Where the protection ends\<close>

text \<open>
  The hooks that the repository provides: the weak defaults of \<^verbatim>\<open>platform.c\<close>, and the overrides of
  the FreeRTOS example, which call macros that are defined as empty (the branch with the real
  FreeRTOS headers is disabled by \<^verbatim>\<open>#if 0\<close>).
\<close>

definition default_locking :: locking where
  "default_locking = No_Op"

definition freertos_locking :: locking where
  "freertos_locking = No_Op"

text \<open>The trigger has loaded the count when the pop comes.\<close>

lemma race_queue:
  assumes "events_wf q" and "0 < unat (ev_count q)" and "unat (ev_count q) < 4"
  shows "\<exists>q1 q2 q3 l0' l1' l0''.
    run_body (butlast (trigger_body code ty)) (q, l0) = Some (q1, l0') \<and>
    run_body pop_body (q1, l1) = Some (q2, l1') \<and>
    last (trigger_body code ty) (q2, l0') = Some (q3, l0'') \<and> \<not> events_wf q3"
proof -
  let ?n = "unat (ev_count q)" and ?h = "unat (ev_head q)"
  have "(((h + n) mod 4) + 1) mod 4 \<noteq> ((h + 1) mod 4 + Suc n) mod 4" for h n :: nat
  proof -
    have "(h + 1 + Suc n) mod 4 = (h + n + 2) mod 4" by (simp add: algebra_simps)
    moreover have "Suc m mod 4 \<noteq> (m + 2) mod 4" for m :: nat by presburger
    ultimately show ?thesis by (metis Suc_eq_plus1 mod_add_left_eq)
  qed
  moreover have "unat (ev_tail q) = (?h + ?n) mod 4" using assms(1) by (simp add: events_wf_def)
  ultimately have "unat (ev_slot (ev_tail q) 1) \<noteq> unat (ev_slot (ev_slot (ev_head q) 1) (Suc ?n))"
    by (simp only: unat_ev_slot not_False_eq_True)
  moreover have c: "unat (ev_count q + 1) = Suc ?n" using assms(3) by (simp add: unat_u8_Suc)
  ultimately have "ev_slot (ev_tail q) 1 \<noteq> ev_slot (ev_slot (ev_head q) 1) (unat (ev_count q + 1))"
    by (metis c)
  moreover have "ev_count q \<noteq> 0" using assms(2) by auto
  ultimately show ?thesis
    using assms by (simp add: body_defs micro_defs word_gt_0 events_wf_def)
qed

text \<open>
  C15: With the empty critical sections that \<^verbatim>\<open>platform.c\<close> provides by default, and with those of
  the FreeRTOS example as it stands, one thread that triggers an event and one that pops one can destroy the queue: whenever it holds at least one
  event and is not full there is an interleaving after which both calls have returned and the
  device invariant is broken, so no sequential order of the two calls explains the result.
\<close>

theorem api_race:
  assumes "stack_wf (g_stack k)" and "ev_count (iolink_get_events_ctx k) \<in> {1, 2, 3}"
    and "lk \<in> {default_locking, freertos_locking}"
  shows "\<exists>k' ts. cs_steps lk (api_start k [[Trigger code ty], [Pop]] [l0, l1]) (k', None, ts) \<and>
    cs_finished (k', None, ts) \<and> \<not> stack_wf (g_stack k')"
proof -
  let ?q = "iolink_get_events_ctx k" and ?T = "trigger_body code ty"
  have "events_wf ?q" "0 < unat (ev_count ?q)" "unat (ev_count ?q) < 4"
    using assms by (auto simp: iolink_get_events_ctx_def stack_wf_def dll_wf_def)
  from race_queue [OF this, of code ty l0 l1] obtain q1 q2 q3 l0' l1' l0'' where
    "run_body (butlast ?T) (?q, l0) = Some (q1, l0')" "run_body pop_body (q1, l1) = Some (q2, l1')"
    "run_body [last ?T] (q2, l0') = Some (q3, l0'')" and bad: "\<not> events_wf q3"
    by auto
  then have runs: "run_body (map on_events (butlast ?T)) (k, l0) = Some (set_events q1 k, l0')"
    "run_body (api_body Pop) (set_events q1 k, l1) = Some (set_events q2 k, l1')"
    "run_body (map on_events [last ?T]) (set_events q2 k, l0') = Some (set_events q3 k, l0'')"
    by (simp_all only: run_on_events api_body.simps) simp_all
  have "api_body (Trigger code ty) = map on_events (butlast ?T) @ map on_events [last ?T]"
    by (simp add: body_defs)
  from cs_preempted_section [where shape = api_shape, OF this _ _ runs] assms(3)
  have "cs_steps lk (api_start k [[Trigger code ty], [Pop]] [l0, l1])
      (set_events q3 k, None, [([], l0''), ([], l1')])"
    by (auto simp: api_start_def default_locking_def freertos_locking_def)
  moreover have "\<not> stack_wf (g_stack (set_events q3 k))"
    using bad by (simp add: set_events_def mod_stack_def stack_wf_def dll_wf_def)
  ultimately show ?thesis
    by (intro exI [of _ "set_events q3 k"] exI conjI) (auto simp: cs_finished_def)
qed

lemma api_race_witness:
  "\<exists>k' ts. cs_steps default_locking (api_start shared_core [[Trigger 0x1234 IOLINK_EVENT_TYPE_ERROR], [Pop]] [fresh_local, fresh_local])
     (k', None, ts) \<and> cs_finished (k', None, ts) \<and> \<not> stack_wf (g_stack k')"
  by (rule api_race [OF shared_core_simps(1)]) (simp_all add: shared_core_simps)

text \<open>
  The part of \<^verbatim>\<open>dll_handle_operate_type1_2\<close> that reads the process data: the three conditions of
  the status byte, then the copy of \<open>n\<close> bytes.  It is in no critical section.
\<close>

definition or_status :: "('w core \<Rightarrow> bool) \<Rightarrow> u8 \<Rightarrow> ('w core, api_local) micro" where
  "or_status cond bits = load (\<lambda>k l. if cond k then l\<lparr>lc_reg := lc_reg l OR bits\<rparr> else l)"

definition pd_in_read :: "nat \<Rightarrow> ('w core, api_local) micro" where
  "pd_in_read i = (\<lambda>(k, l). do {
     b \<leftarrow> arr_get (dll_pd_in (ctx_of k)) i;
     Some (k, l\<lparr>lc_buf := lc_buf l @ [b]\<rparr>) })"

definition response_steps :: "nat \<Rightarrow> ('w core, api_local) micro list" where
  "response_steps n =
     [load (\<lambda>_ l. l\<lparr>lc_reg := 0\<rparr>),
      or_status (\<lambda>k. iolink_events_pending (Ref (dll_events (ctx_of k)))) IOLINK_OD_STATUS_EVENT,
      or_status (\<lambda>k. dll_pd_in_toggle (ctx_of k)) IOLINK_OD_STATUS_PD_TOGGLE,
      or_status (\<lambda>k. dll_pd_valid (ctx_of k)) IOLINK_OD_STATUS_PD_VALID,
      load (\<lambda>_ l. l\<lparr>lc_buf := [lc_reg l]\<rparr>)] @
     map pd_in_read [0..<n]"

lemma run_pd_in_reads:
  assumes "m \<le> n" and "n \<le> length (dll_pd_in (ctx_of k))"
  shows "run_body (map pd_in_read [m..<n]) (k, l) =
    Some (k, l\<lparr>lc_buf := lc_buf l @ take (n - m) (drop m (dll_pd_in (ctx_of k)))\<rparr>)"
  using assms
proof (induction n)
  case (Suc n)
  show ?case
  proof (cases "m = Suc n")
    case False
    with Suc have "m \<le> n" by simp
    with Suc show ?thesis
      by (simp add: run_body_append pd_in_read_def Suc_diff_le take_Suc_conv_app_nth)
  qed simp
qed simp

lemma run_response_status:
  "\<exists>l'. run_body (take 5 (response_steps n)) (k, l) = Some (k, l') \<and>
     lc_buf l' = [dll_status_byte (ctx_of k)] \<and> lc_results l' = lc_results l"
  by (simp add: response_steps_def or_status_def micro_defs dll_status_byte_def or.assoc)

lemma response_steps_split:
  assumes "m \<le> n"
  shows "response_steps n = (take 5 (response_steps n) @ map pd_in_read [0..<m]) @ map pd_in_read [m..<n]"
proof -
  have "[0..<n] = [0..<m] @ [m..<n]" using upt_add_eq_append [of 0 m "n - m"] assms by simp
  then show ?thesis by (simp add: response_steps_def)
qed

text \<open>
  Process data of a response with the status taken before, the first \<open>m\<close> bytes taken before and
  the others taken after the other thread's change.
\<close>

lemma run_response_torn:
  assumes "m \<le> n" and "n \<le> length (dll_pd_in (ctx_of k))" and "n \<le> length (dll_pd_in (ctx_of k'))"
  shows "\<exists>l1 l2. run_body (take 5 (response_steps n) @ map pd_in_read [0..<m]) (k, l) = Some (k, l1) \<and>
    run_body (map pd_in_read [m..<n]) (k', l1) = Some (k', l2) \<and>
    lc_buf l2 = dll_status_byte (ctx_of k) # take m (dll_pd_in (ctx_of k)) @ take (n - m) (drop m (dll_pd_in (ctx_of k')))"
proof -
  from run_response_status [of n k l] obtain l0 where
    "run_body (take 5 (response_steps n)) (k, l) = Some (k, l0)" "lc_buf l0 = [dll_status_byte (ctx_of k)]"
    by blast
  then show ?thesis
    using assms run_pd_in_reads [of 0 m k] run_pd_in_reads [of m n k'] by (simp add: run_body_append)
qed

text \<open>Left alone, these accesses read what the sequential model puts into the response.\<close>

lemma response_steps_alone:
  fixes k :: "'w core"
  assumes "stack_wf (g_stack k)"
  defines "n \<equiv> unat (dll_pd_in_len_current (ctx_of k))"
  shows "runs (run_body (response_steps n) (k, l)) (\<lambda>(k', l'). k' = k \<and> lc_buf l' = take (Suc n) (response_body od (ctx_of k)))"
proof -
  have len: "n \<le> length (dll_pd_in (ctx_of k))"
    using assms(1) by (simp add: n_def stack_wf_def dll_wf_def)
  moreover have "take 5 (response_steps n) @ map pd_in_read [0..<n] = (response_steps n :: ('w core, api_local) micro list)"
    using response_steps_split [of n n] by (metis append_Nil2 list.map(1) order_refl upt_conv_Nil)
  ultimately obtain l1 where "run_body (response_steps n) (k, l) = Some (k, l1)"
    "lc_buf l1 = dll_status_byte (ctx_of k) # take n (dll_pd_in (ctx_of k))"
    using run_response_torn [of n n k k l] by auto
  with len show ?thesis by (simp add: response_body_def n_def)
qed

text \<open>
  C16: Process data can be torn even with critical sections exactly as \<^verbatim>\<open>platform.h\<close> asks for.
  \<^verbatim>\<open>iolink_pd_input_update\<close> has a section, but building the response reads toggle, validity and
  data outside any section.  So whenever an update with \<open>n\<close> new bytes interrupts the reading of an
  \<open>n\<close>-byte response, the response may carry the status byte from before the update with any
  prefix of the old data followed by the rest of the new.
\<close>

theorem pd_response_torn:
  fixes k :: "'w core"
  assumes "stack_wf (g_stack k)" and "n = unat (dll_pd_in_len_current (ctx_of k))" and "length d = n" and "m \<le> n"
  shows "\<exists>k' l0' l1'. cs_steps Mask (k, None, [(map Act (response_steps n), l0), (program api_shape api_body [Pd_Input (Ref d) valid], l1)])
      (k', None, [([], l0'), ([], l1')]) \<and>
    iolink_pd_input_update (Ref d) n valid k = Some (0, k') \<and>
    lc_buf l0' = dll_status_byte (ctx_of k) # take m (dll_pd_in (ctx_of k)) @ drop m d"
proof -
  have len: "n \<le> 32" "length (dll_pd_in (ctx_of k)) = 32" using assms by (simp_all add: stack_wf_def dll_wf_def)
  then have lock: "api_locked (Pd_Input (Ref d) valid)" using assms(3) by (simp add: ptr_len_def)
  then have shape: "api_shape (Pd_Input (Ref d) valid) = (Locked :: ('w core, api_local) shape)" by simp
  from api_section [OF lock assms(1)] obtain r k' l1' where
    upd: "api_spec (Pd_Input (Ref d) valid) k = Some (r, k')"
      "run_body (api_body (Pd_Input (Ref d) valid)) (k, l1) = Some (k', l1')"
    by (fastforce elim!: runsE)
  with len assms(3) pd_input_update_law [of k n d valid]
  have k': "iolink_pd_input_update (Ref d) n valid k = Some (0, k')" "dll_pd_in (ctx_of k') = d @ drop n (dll_pd_in (ctx_of k))"
    by (auto simp: ptr_len_def mod_stack_def)
  from run_response_torn [OF assms(4), of k k' l0] len k' assms(3) obtain l1'' l0' where
    run: "run_body (take 5 (response_steps n) @ map pd_in_read [0..<m]) (k, l0) = Some (k, l1'')"
      "run_body (map pd_in_read [m..<n]) (k', l1'') = Some (k', l0')" and
    buf: "lc_buf l0' = dll_status_byte (ctx_of k) # take m (dll_pd_in (ctx_of k)) @ drop m d"
    by auto
  from cs_preempted [where shape = api_shape and body = api_body and op = "Pd_Input (Ref d) valid"
      and lk = Mask and k = "[]", OF run(1) upd(2) run(2) shape]
  have "cs_steps Mask (k, None, [(map Act (response_steps n), l0), (program api_shape api_body [Pd_Input (Ref d) valid], l1)])
      (k', None, [([], l0'), ([], l1')])"
    by (simp only: response_steps_split [OF assms(4), symmetric] program_simps append_Nil2)
  with buf k'(1) show ?thesis by blast
qed

lemma pd_response_torn_witness:
  "\<exists>k' l0' l1'. cs_steps Mask (shared_core, None, [(map Act (response_steps 2), fresh_local),
         (program api_shape api_body [Pd_Input (Ref [0xAA, 0xBB]) True], fresh_local)]) (k', None, [([], l0'), ([], l1')]) \<and>
     iolink_pd_input_update (Ref [0xAA, 0xBB]) 2 True shared_core = Some (0, k') \<and>
     lc_buf l0' = dll_status_byte (ctx_of shared_core) # take 1 (dll_pd_in (ctx_of shared_core)) @ [0xBB]"
  using pd_response_torn [OF shared_core_simps(1), of 2 "[0xAA, 0xBB]" 1] by (simp only: shared_core_simps) simp

end
