(* ===== verification/Noise.thy ===== *)
theory Noise
  imports Session
begin

text \<open>
  Cyclic operation on a disturbed line.  Frames keep their length but may arrive damaged; as long as
  fewer damaged frames come in a row than the fallback threshold, exactly the undamaged ones are
  answered and the damage shows only in the statistics.
\<close>

section \<open>Damaged frames\<close>

text \<open>A frame of the configured length that, if its checksum is good, is one the device serves.\<close>

definition line_frame :: "'w iolink_dll_ctx \<Rightarrow> bytes \<Rightarrow> bool" where
  "line_frame c f \<longleftrightarrow> length f = 3 + unat (dll_pd_out_len_current c) + unat (dll_od_len c) \<and>
     (frame_valid f \<longrightarrow> f ! 0 \<noteq> IOLINK_MC_TRANSITION_COMMAND \<and> \<not> forbidden_channel (f ! 0))"

lemma line_frame_valid: "frame_valid f \<Longrightarrow> line_frame c f \<longleftrightarrow> good_frame c f"
  by (auto simp: line_frame_def good_frame_def)

text \<open>After \<open>e\<close> damaged frames in a row, fewer than \<open>th\<close> in a row at any time.\<close>

fun tolerated :: "nat \<Rightarrow> nat \<Rightarrow> bytes list \<Rightarrow> bool" where
  "tolerated th e [] = True"
| "tolerated th e (f # fs) =
     (if frame_valid f then tolerated th 0 fs else Suc e < th \<and> tolerated th (Suc e) fs)"

text \<open>The statistics after \<open>n\<close> damaged frames.\<close>

definition count_damaged :: "nat \<Rightarrow> iolink_dll_stats \<Rightarrow> iolink_dll_stats" where
  "count_damaged n st = st\<lparr>st_crc_errors := st_crc_errors st + word_of_nat n,
     st_framing_errors := st_framing_errors st + word_of_nat n, st_total_retries := st_total_retries st + word_of_nat n\<rparr>"

lemma count_damaged_add: "count_damaged m (count_damaged n st) = count_damaged (m + n) st" "count_damaged 0 st = st"
  by (simp_all add: count_damaged_def ac_simps)

text \<open>The frame handler has dropped the damaged frame it was given in \<open>s\<close>; \<open>c\<close> is the context before it.\<close>

definition dropped :: "host_world iolink_dll_ctx \<Rightarrow> host_world stack \<Rightarrow> host_world stack \<Rightarrow> bool" where
  "dropped c s s' \<longleftrightarrow>
     (let c' = sk_dll s' in
      cyclic c' \<and> dll_state c' = IOLINK_DLL_STATE_OPERATE \<and> link_setup c' = link_setup c \<and> dll_data c' = dll_data c \<and>
      dll_fallback_count c' = dll_fallback_count c + 1 \<and> dll_events c' = dll_events c \<and>
      iolink_dll_get_stats c' = count_damaged 1 (iolink_dll_get_stats c) \<and> line_state s' = line_state s \<and>
      gl_info (sk_globals s') = gl_info (sk_globals s) \<and> g_nvm_shadow (sk_globals s') = g_nvm_shadow (sk_globals s))"

lemma line_frame_len:
  assumes "cyclic c" and "dll_state c = IOLINK_DLL_STATE_OPERATE" and "line_frame c f"
  shows "length f = unat (dll_req_len_for (hd f) c)" "length f \<le> 37" "3 < length f"
proof -
  have wf: "dll_wf c" using assms(1) by (simp add: cyclic_def)
  show l: "length f = unat (dll_req_len_for (hd f) c)"
    using assms unat_multi_req_len [OF wf] by (simp add: dll_req_len_for_def cyclic_def line_frame_def Let_def)
  then show "length f \<le> 37" using dll_req_len_for_bounds(2) [OF wf] by simp
  show "3 < length f" using assms by (auto simp: line_frame_def cyclic_def dll_wf_def)
qed

lemma bad_crc_counted:
  assumes "dll_state (sk_dll s) = IOLINK_DLL_STATE_OPERATE"
    and "dll_fallback_count (sk_dll s) + 1 < dll_sio_fallback_threshold (sk_dll s)"
  shows "dll_bad_crc s = Some (mod_dll (\<lambda>c. c\<lparr>dll_crc_errors := dll_crc_errors c + 1,
     dll_framing_errors := dll_framing_errors c + 1, dll_fallback_count := dll_fallback_count c + 1,
     dll_total_retries := dll_total_retries c + 1\<rparr>) s)"
  using assms not_le [THEN iffD2, OF assms(2)] by (simp add: dll_bad_crc_def dll_enter_fallback_def Let_def mod_dll_def)

lemma frame_dropped:
  assumes "cyclic c" and "dll_state c = IOLINK_DLL_STATE_OPERATE" and "line_frame c f" and "\<not> frame_valid f"
    and "partial_frame c f (sk_dll s)" and "dll_fallback_count c + 1 < dll_sio_fallback_threshold c"
  shows "runs (dll_frame_complete linux_platform s) (dropped c s)"
proof -
  let ?d = "sk_dll s"
  note l = line_frame_len [OF assms(1-3)]
  have p: "dll_frame_index ?d = word_of_nat (length f)" "take (length f) (dll_frame_buf ?d) = f"
    "dll_req_len ?d = dll_req_len_for (hd f) c" "assembly_only c ?d"
    using assms(5) l(3) by (auto simp: partial_frame_def)
  note k = assembly_only_keeps [OF p(4)]
  have wf: "dll_wf ?d" using partial_frame_wf [OF assms(5)] assms(1) by (simp add: cyclic_def)
  have "\<not> dll_enforce_timing ?d" using k(2) assms(1) by (simp add: link_setup_def cyclic_def)
  then obtain t s1 where s1: "dll_cycle_timing linux_platform s = Some s1" "sk_dll s1 = ?d\<lparr>dll_last_cycle_start_us := t\<rparr>"
    "service_env s1 = service_env s" by (rule cycle_timing_quiet)
  have ls: "line_state s1 = line_state s" using cycle_timing_virtual [of s] s1(1) wf by (simp add: dll_wf_def)
  have crc: "dll_crc_ok (sk_dll s1) = Some False"
  proof -
    have "received_frame (sk_dll s1) = f" using p l by (simp add: s1(2) received_frame_def)
    moreover have "dll_wf (sk_dll s1)" using wf by (simp add: s1(2) dll_wf_def)
    moreover have "dll_frame_index (sk_dll s1) \<noteq> 0"
      using l(2,3) p(1) u8_of_nat_eq_iff [of "length f" 0] by (auto simp: s1(2))
    ultimately show ?thesis using dll_crc_ok_eq [of "sk_dll s1"] assms(4) by simp
  qed
  have "dll_bad_crc s1 = Some (mod_dll (\<lambda>c. c\<lparr>dll_crc_errors := dll_crc_errors c + 1,
     dll_framing_errors := dll_framing_errors c + 1, dll_fallback_count := dll_fallback_count c + 1,
     dll_total_retries := dll_total_retries c + 1\<rparr>) s1)"
    using assms(2,6) k(3,6,7) by (intro bad_crc_counted) (simp_all add: s1(2))
  then show ?thesis
    using crc wf k assms(1,2) s1(3) ls
    by (simp add: dll_frame_complete_def s1(1,2) dropped_def Let_def cyclic_def link_setup_def dll_data_def dll_wf_def
        iolink_dll_get_stats_def count_damaged_def service_env_def)
qed

section \<open>A backlog with damaged frames\<close>

text \<open>
  The undamaged ones of the frames \<open>fs\<close> have been answered by \<open>rs\<close>, in order; of the damaged ones
  only their number is left, in the statistics.
\<close>

definition noisy_served :: "bytes list \<Rightarrow> host_world stack \<Rightarrow> bytes list \<Rightarrow> host_world stack \<Rightarrow> bool" where
  "noisy_served fs s rs s' \<longleftrightarrow>
     (let c = sk_dll s; c' = sk_dll s'; gs = filter frame_valid fs in
      cyclic c' \<and> dll_state c' = IOLINK_DLL_STATE_OPERATE \<and> link_setup c' = link_setup c \<and>
      (dll_pd_in c', dll_pd_valid c', dll_pd_in_toggle c') = (dll_pd_in c, dll_pd_valid c, dll_pd_in_toggle c) \<and>
      length rs = length gs \<and> list_all (response_ok c) rs \<and>
      (if gs = [] then dll_pd_out c' = dll_pd_out c
       else take (unat (dll_pd_out_len_current c)) (dll_pd_out c') = frame_pd c (last gs)) \<and>
      od_stream (concat (map (frame_odata c) gs)) (dll_isdu c) = Some (concat (map (response_odata c) rs), dll_isdu c') \<and>
      line_state s' = ([], line_out (world s) @ concat rs, link_up (world s)) \<and> dll_events c' = dll_events c \<and>
      iolink_dll_get_stats c' = count_damaged (length fs - length gs) (iolink_dll_get_stats c) \<and>
      gl_info (sk_globals s') = gl_info (sk_globals s) \<and> g_nvm_shadow (sk_globals s') = g_nvm_shadow (sk_globals s))"

lemma noisy_good:
  assumes "served (sk_dll s) f s1 r s2" and "line_state s1 = (rest, line_out (world s), link_up (world s))"
    and "service_env s1 = service_env s" and "noisy_served fs s2 rs s3" and "frame_valid f"
  shows "noisy_served (f # fs) s (r # rs) s3"
proof -
  let ?c = "sk_dll s"
  have e: "link_setup (sk_dll s2) = link_setup ?c"
      "(dll_pd_in (sk_dll s2), dll_pd_valid (sk_dll s2), dll_pd_in_toggle (sk_dll s2)) = (dll_pd_in ?c, dll_pd_valid ?c, dll_pd_in_toggle ?c)"
    using assms(1) by (simp_all add: served_def)
  note ss = same_setup [OF e(1)]
  have w: "line_out (world s2) = line_out (world s) @ r" "link_up (world s2) = link_up (world s)"
    using assms(1,2) by (auto simp: served_def line_state_def)
  have od: "od_stream (frame_odata ?c f @ concat (map (frame_odata ?c) (filter frame_valid fs))) (dll_isdu ?c) =
      Some (response_odata ?c r @ concat (map (response_odata ?c) rs), dll_isdu (sk_dll s3))"
    using assms(1,4) by (simp add: od_stream_append served_def noisy_served_def Let_def ss)
  have pd: "dll_pd_out_len_current (sk_dll s2) = dll_pd_out_len_current ?c" using e(1) by (simp add: link_setup_def)
  have "service_env s2 = service_env s" using assms(1,3) by (simp add: served_def)
  then show ?thesis
    using assms(1,4,5) od pd by (auto simp: noisy_served_def Let_def served_def ss ss(5) [OF e(2)] w service_env_def)
qed

lemma noisy_bad:
  assumes "dropped (sk_dll s) s1 s2" and "line_state s1 = (rest, line_out (world s), link_up (world s))"
    and "service_env s1 = service_env s" and "noisy_served fs s2 rs s3" and "\<not> frame_valid f"
  shows "noisy_served (f # fs) s rs s3"
proof -
  let ?c = "sk_dll s"
  have e: "link_setup (sk_dll s2) = link_setup ?c" "dll_data (sk_dll s2) = dll_data ?c"
    using assms(1) by (simp_all add: dropped_def Let_def)
  have io: "(dll_pd_in (sk_dll s2), dll_pd_valid (sk_dll s2), dll_pd_in_toggle (sk_dll s2)) = (dll_pd_in ?c, dll_pd_valid ?c, dll_pd_in_toggle ?c)"
    using e(2) by (simp add: dll_data_def)
  note ss = same_setup [OF e(1)]
  have w: "line_out (world s2) = line_out (world s)" "link_up (world s2) = link_up (world s)"
    using assms(1,2) by (auto simp: dropped_def Let_def line_state_def)
  have n: "length (f # fs) - length (filter frame_valid (f # fs)) = Suc (length fs - length (filter frame_valid fs))"
    using assms(5) by (simp add: Suc_diff_le)
  have d: "dll_isdu (sk_dll s2) = dll_isdu ?c" "dll_pd_out (sk_dll s2) = dll_pd_out ?c"
    "dll_pd_out_len_current (sk_dll s2) = dll_pd_out_len_current ?c"
    using e by (simp_all add: dll_data_def link_setup_def)
  have env: "gl_info (sk_globals s2) = gl_info (sk_globals s)" "g_nvm_shadow (sk_globals s2) = g_nvm_shadow (sk_globals s)"
    "dll_events (sk_dll s2) = dll_events ?c" "iolink_dll_get_stats (sk_dll s2) = count_damaged 1 (iolink_dll_get_stats ?c)"
    using assms(1,3) by (simp_all add: dropped_def service_env_def Let_def)
  have "filter frame_valid (f # fs) = filter frame_valid fs" using assms(5) by simp
  then show ?thesis
    using assms(4) unfolding noisy_served_def Let_def n
    by (simp only: e(1) io d env ss ss(5) [OF io] w count_damaged_add add_Suc_right One_nat_def add_0_right) blast
qed

text \<open>
  A complete frame on the line, good or damaged, when the rest of the backlog is served from any
  state on the same link whose count of damaged frames still tolerates it.
\<close>

definition rest_served :: "bytes list \<Rightarrow> host_world stack \<Rightarrow> nat \<Rightarrow> host_world stack \<Rightarrow> u8 \<Rightarrow> bool" where
  "rest_served fs s n s2 b \<longleftrightarrow>
     cyclic (sk_dll s2) \<and> dll_state (sk_dll s2) = IOLINK_DLL_STATE_OPERATE \<and> link_setup (sk_dll s2) = link_setup (sk_dll s) \<and>
     unat (dll_fallback_count (sk_dll s2)) = n \<and> line_in (world s2) = concat fs \<and> link_up (world s2) = link_up (world s) \<longrightarrow>
     runs (dll_rx_loop linux_platform b s2) (\<lambda>s'. \<exists>rs. noisy_served fs s2 rs s')"

lemma noisy_good_frame:
  assumes "cyclic (sk_dll s)" and "line_frame (sk_dll s) f" and "frame_valid f" and "link_up (world s)"
    and "partial_frame (sk_dll s) f (sk_dll s1)" and ls: "line_state s1 = (concat fs, line_out (world s), link_up (world s))"
    and se: "service_env s1 = service_env s" and rest: "\<And>s2. rest_served fs s 0 s2 b"
  shows "runs (dll_frame_complete linux_platform s1) (\<lambda>s2. runs (dll_rx_loop linux_platform b s2) (\<lambda>s'. \<exists>rs. noisy_served (f # fs) s rs s'))"
proof -
  have "runs (dll_frame_complete linux_platform s1) (\<lambda>s2. \<exists>r. served (sk_dll s) f s1 r s2)"
    using assms(1,4,5) ls line_frame_valid [OF assms(3)] assms(2) by (intro frame_served) (auto simp: line_state_def)
  then show ?thesis
  proof (rule runs_mono)
    fix s2 assume "\<exists>r. served (sk_dll s) f s1 r s2"
    then obtain r where sv: "served (sk_dll s) f s1 r s2" by blast
    have "line_in (world s2) = concat fs" "link_up (world s2) = link_up (world s)"
      using sv ls by (auto simp: served_def line_state_def)
    then have "runs (dll_rx_loop linux_platform b s2) (\<lambda>s'. \<exists>rs. noisy_served fs s2 rs s')"
      using sv rest [of s2] by (auto simp: rest_served_def served_def)
    then show "runs (dll_rx_loop linux_platform b s2) (\<lambda>s'. \<exists>rs. noisy_served (f # fs) s rs s')"
      by (rule runs_mono) (use noisy_good [OF sv ls se _ assms(3)] in blast)
  qed
qed

lemma noisy_bad_frame:
  assumes "cyclic (sk_dll s)" and "dll_state (sk_dll s) = IOLINK_DLL_STATE_OPERATE" and "line_frame (sk_dll s) f" and "\<not> frame_valid f"
    and "Suc (unat (dll_fallback_count (sk_dll s))) < unat (dll_sio_fallback_threshold (sk_dll s))"
    and "partial_frame (sk_dll s) f (sk_dll s1)" and ls: "line_state s1 = (concat fs, line_out (world s), link_up (world s))"
    and se: "service_env s1 = service_env s" and rest: "\<And>s2. rest_served fs s (Suc (unat (dll_fallback_count (sk_dll s)))) s2 b"
  shows "runs (dll_frame_complete linux_platform s1) (\<lambda>s2. runs (dll_rx_loop linux_platform b s2) (\<lambda>s'. \<exists>rs. noisy_served (f # fs) s rs s'))"
proof -
  let ?c = "sk_dll s"
  have fc: "unat (dll_fallback_count ?c + 1) = Suc (unat (dll_fallback_count ?c))"
    using assms(5) unat_u8_less [of "dll_sio_fallback_threshold ?c"] by (intro unat_u8_Suc) linarith
  then have "dll_fallback_count ?c + 1 < dll_sio_fallback_threshold ?c" using assms(5) by (simp add: word_less_nat_alt)
  then have "runs (dll_frame_complete linux_platform s1) (dropped ?c s1)"
    using assms(6) by (intro frame_dropped [OF assms(1-4)]) simp_all
  then show ?thesis
  proof (rule runs_mono)
    fix s2 assume dr: "dropped ?c s1 s2"
    have "line_in (world s2) = concat fs" "link_up (world s2) = link_up (world s)"
      using dr ls by (auto simp: dropped_def Let_def line_state_def)
    then have "runs (dll_rx_loop linux_platform b s2) (\<lambda>s'. \<exists>rs. noisy_served fs s2 rs s')"
      using dr fc rest [of s2] by (auto simp: rest_served_def dropped_def Let_def)
    then show "runs (dll_rx_loop linux_platform b s2) (\<lambda>s'. \<exists>rs. noisy_served (f # fs) s rs s')"
      by (rule runs_mono) (use noisy_bad [OF dr ls se _ assms(4)] in blast)
  qed
qed

lemma serve_noisy:
  assumes "cyclic (sk_dll s)" and "dll_state (sk_dll s) = IOLINK_DLL_STATE_OPERATE"
    and "\<forall>f \<in> set fs. line_frame (sk_dll s) f"
    and "tolerated (unat (dll_sio_fallback_threshold (sk_dll s))) (unat (dll_fallback_count (sk_dll s))) fs"
    and "line_in (world s) = concat fs" and "link_up (world s)"
  shows "runs (dll_rx_loop linux_platform b s) (\<lambda>s'. \<exists>rs. noisy_served fs s rs s')"
  using assms
proof (induction fs arbitrary: s b)
  case Nil
  have phy: "the_phy s = Some iolink_phy_virtual_get" using Nil.prems(1) by (simp add: cyclic_def the_phy_def)
  show ?case
    using Nil.prems by (auto simp: rx_loop_virtual(1) [OF phy Nil.prems(6)] noisy_served_def Let_def line_state_def count_damaged_add)
next
  case (Cons f fs)
  let ?c = "sk_dll s"
  have lf: "line_frame ?c f" using Cons.prems(3) by simp
  note l = line_frame_len [OF Cons.prems(1,2) lf]
  have rest: "rest_served fs s n s2 b1" if "tolerated (unat (dll_sio_fallback_threshold ?c)) n fs" for n s2 b1
    unfolding rest_served_def
    using that Cons.prems(3,6) by (intro impI Cons.IH) (auto simp: link_setup_def line_frame_def)
  show ?case
  proof (rule rx_frame [OF cyclic_partial [OF Cons.prems(1)], where g = f and rest = "concat fs"])
    fix s1 b1
    assume pf: "partial_frame ?c ([] @ f) (sk_dll s1)" and ls: "line_state s1 = (concat fs, line_out (world s), link_up (world s))"
      and se: "service_env s1 = service_env s"
    show "runs (dll_frame_complete linux_platform s1) (\<lambda>s2. runs (dll_rx_loop linux_platform b1 s2) (\<lambda>s'. \<exists>rs. noisy_served (f # fs) s rs s'))"
      using Cons.prems(4) pf rest noisy_good_frame [OF Cons.prems(1) lf _ Cons.prems(6) _ ls se]
        noisy_bad_frame [OF Cons.prems(1,2) lf _ _ _ ls se]
      by (cases "frame_valid f") simp_all
  qed (use Cons.prems l in \<open>auto simp: cyclic_def line_state_def\<close>)
qed

lemma noisy_served_time: "noisy_served fs (snd (iolink_time_get_ms linux_platform s)) rs s' \<longleftrightarrow> noisy_served fs s rs s'"
proof -
  let ?t = "snd (iolink_time_get_ms linux_platform s)"
  have "line_out (world ?t) = line_out (world s)" "link_up (world ?t) = link_up (world s)"
    using line_state_time [of s] by (simp_all add: line_state_def)
  moreover have "gl_info (sk_globals ?t) = gl_info (sk_globals s)" "g_nvm_shadow (sk_globals ?t) = g_nvm_shadow (sk_globals s)"
    using time_get_ms_ctx(2) [of linux_platform s] by (simp_all add: service_env_def)
  ultimately show ?thesis by (simp add: noisy_served_def time_get_ms_ctx(1) Let_def)
qed

text \<open>
  C11: Operation survives a disturbed line.  A device in OPERATE finds any mixture of intact and
  damaged frames of the right length, with fewer damaged ones in a row than the fallback
  threshold (counting those before).  One call of the main loop answers exactly the intact frames,
  in order, each by one well-formed response; their on-request bytes have gone through the
  ISDU engine as one stream, the output data is that of the last intact frame, nothing of the
  damaged frames reaches the process data, the engine, the event queue or the parameters, the
  error statistics have grown by exactly their number, and the device is still in OPERATE.
\<close>

theorem session_noise:
  fixes k :: "host_world core"
  defines "s \<equiv> g_stack k"
  assumes "operating k" and "dll_state (sk_dll s) = IOLINK_DLL_STATE_OPERATE"
    and "is_state (dll_isdu (sk_dll s)) \<noteq> ISDU_STATE_SERVICE_EXECUTE"
    and "line_in (world s) = concat fs" and "\<forall>f \<in> set fs. line_frame (sk_dll s) f"
    and "tolerated (unat (dll_sio_fallback_threshold (sk_dll s))) (unat (dll_fallback_count (sk_dll s))) fs"
  shows "runs (iolink_process linux_platform k) (\<lambda>k'. \<exists>rs. noisy_served fs s rs (g_stack k'))"
proof -
  let ?t = "snd (iolink_time_get_ms linux_platform s)"
  have op: "cyclic (sk_dll s)" "dll_phy_mode (sk_dll s) = IOLINK_PHY_MODE_SDCI" "dll_t_pd_deadline_us (sk_dll s) = 0"
    "link_up (world s)" "\<not> timed_out linux_platform s"
    using assms(2) by (simp_all add: operating_def s_def Let_def)
  have "iolink_dll_process linux_platform s = dll_rx_loop linux_platform 0 ?t"
    using op by (subst process_virtual [OF _ isdu_process_idle [OF assms(4)]]) (auto simp: cyclic_def)
  moreover have "runs (dll_rx_loop linux_platform 0 ?t) (\<lambda>s'. \<exists>rs. noisy_served fs ?t rs s')"
    using op assms(3,5-7) line_state_time [of s]
    by (intro serve_noisy) (auto simp: time_get_ms_ctx line_state_def)
  ultimately show ?thesis by (simp add: iolink_process_def noisy_served_time s_def [symmetric])
qed

lemma session_noise_witness:
  "let g = cyclic_frame [0xAA] [0]; b = g[2 := 0xAB] in
   runs (iolink_process linux_platform (demo_operating [b, g, b, b])) (\<lambda>k'. \<exists>rs.
     noisy_served [b, g, b, b] (g_stack (demo_operating [b, g, b, b])) rs (g_stack k'))"
proof -
  let ?g = "cyclic_frame [0xAA] [0]" let ?b = "?g[2 := 0xAB]"
  let ?fs = "[?b, ?g, ?b, ?b]"
  have bad: "\<not> frame_valid ?b" and good: "frame_valid ?g"
    by (simp_all add: frame_valid_def cyclic_frame_def) (code_simp)?
  have len: "length ?g = 5" "?g ! 0 = 0" by (simp_all add: cyclic_frame_def)
  have c: "dll_state (sk_dll (g_stack (demo_operating fs))) = IOLINK_DLL_STATE_OPERATE"
    "dll_fallback_count (sk_dll (g_stack (demo_operating fs))) = 0"
    "dll_sio_fallback_threshold (sk_dll (g_stack (demo_operating fs))) = 3" for fs
    by (simp_all add: demo_operating_def demo_stack_def zero_dll_ctx_def)
  show ?thesis
    unfolding Let_def
    by (rule session_noise [OF demo_operating_simps(1)])
       (use bad good in \<open>simp_all add: demo_operating_simps line_frame_def c len forbidden_channel_def\<close>)
qed

end
