(* ===== verification/Master.thy ===== *)
theory Master
  imports Session
begin

text \<open>
  The master's side of a session in cyclic operation.  A master is a function of the device state:
  what it, and the time that passes, make of the outside before a call of the main loop.  A
  request takes two such calls, one whose frames carry the request and one whose frames fetch the
  answer; \<open>read_round\<close> is the read of an index as such a round, from one \<open>ready\<close> device to the next.
\<close>

section \<open>Masters\<close>

type_synonym master = "host_world core \<Rightarrow> host_world"

definition call_with :: "master \<Rightarrow> host_world core \<Rightarrow> host_world core option" where
  "call_with m k = iolink_process linux_platform (mod_stack (set_world (m k)) k)"

definition sent :: "host_world core \<Rightarrow> bytes" where
  "sent k = line_out (world (g_stack k))"

text \<open>The master puts good frames on the line whose on-request bytes are \<open>od\<close>, in time.\<close>

definition carries :: "host_world iolink_dll_ctx \<Rightarrow> bytes \<Rightarrow> master \<Rightarrow> bool" where
  "carries c od m \<longleftrightarrow> (\<forall>k. (\<exists>fs. line_in (m k) = concat fs \<and> (\<forall>f \<in> set fs. good_frame c f) \<and> concat (map (frame_odata c) fs) = od) \<and>
     line_out (m k) = [] \<and> link_up (m k) \<and> \<not> timed_out linux_platform (set_world (m k) (g_stack k)))"

text \<open>
  The responses to the frames that fetch an answer.  They carry the process data, and their
  on-request bytes decode to the answer; an empty answer is one control byte with both flags.
\<close>

definition fetch_count :: "bytes \<Rightarrow> nat" where
  "fetch_count bs = 2 * max 1 (length bs)"

definition answers :: "host_world iolink_dll_ctx \<Rightarrow> bytes \<Rightarrow> bytes \<Rightarrow> bool" where
  "answers c bs out \<longleftrightarrow> (\<exists>rs. out = concat rs \<and> list_all (response_ok c) rs \<and>
     (let od = concat (map (response_odata c) rs) in
      if bs = [] then od = [mk_ctrl True True 0, 0] else decode_segments True 0 od = Some bs))"

text \<open>In cyclic operation on the link of \<open>c\<close>, no request under way.\<close>

definition ready :: "host_world iolink_dll_ctx \<Rightarrow> host_world core \<Rightarrow> bool" where
  "ready c k \<longleftrightarrow>
     (let d = sk_dll (g_stack k) in cyclic d \<and> link_setup d = link_setup c \<and> response_ok d = response_ok c \<and>
      globals_wf (sk_globals (g_stack k)) \<and> is_state (dll_isdu d) = ISDU_STATE_IDLE)"

lemma readyD:
  assumes "ready c k"
  shows "cyclic (sk_dll (g_stack k))" "link_setup (sk_dll (g_stack k)) = link_setup c" "response_ok (sk_dll (g_stack k)) = response_ok c"
    "globals_wf (sk_globals (g_stack k))" "is_state (dll_isdu (sk_dll (g_stack k))) = ISDU_STATE_IDLE"
    "globals_wf (sk_globals (set_world w (g_stack k)))"
  using assms by (simp_all add: ready_def Let_def set_world_def)

lemma operating_ready:
  "operating k \<Longrightarrow> globals_wf (sk_globals (g_stack k)) \<Longrightarrow> is_state (dll_isdu (sk_dll (g_stack k))) = ISDU_STATE_IDLE \<Longrightarrow>
     ready (sk_dll (g_stack k)) k"
  by (simp add: ready_def operating_def Let_def)

lemma ready_operating:
  assumes "operating k0" and "ready (sk_dll (g_stack k0)) k" and "carries (sk_dll (g_stack k0)) od m"
  shows "operating (mod_stack (set_world (m k)) k)"
  using assms by (auto simp: operating_def ready_def carries_def link_setup_def Let_def)

section \<open>A call that finds a request, and one that fetches the answer\<close>

lemma asked_served:
  assumes "operating k0" and "ready (sk_dll (g_stack k0)) k" and "carries (sk_dll (g_stack k0)) od m"
  obtains fs where "concat (map (frame_odata (sk_dll (g_stack k))) fs) = od"
    and "runs (call_with m k) (\<lambda>k1. \<exists>rs. all_served fs (set_world (m k) (g_stack k)) rs (g_stack k1))"
proof -
  let ?c = "sk_dll (g_stack k0)"
  note r = readyD [OF assms(2)]
  from assms(3) obtain fs where fs: "line_in (m k) = concat fs" "\<forall>f \<in> set fs. good_frame ?c f" "concat (map (frame_odata ?c) fs) = od"
    unfolding carries_def by blast
  have "runs (call_with m k) (\<lambda>k1. \<exists>rs. all_served fs (set_world (m k) (g_stack k)) rs (g_stack k1))"
    unfolding call_with_def
    using session_cycles [OF ready_operating [OF assms], of fs] r(5) fs same_setup(1) [OF r(2)] by simp
  then show ?thesis using that fs(3) same_setup(3) [OF r(2)] by simp
qed

lemma ack_fetched:
  assumes "answered [] c" and "od_stream [0, 0] c = Some (out, c')"
  shows "out = [mk_ctrl True True 0, 0]" "is_state c' = ISDU_STATE_IDLE"
proof -
  have "is_state c = ISDU_STATE_RESPONSE_READY" using assms(1) by (simp add: answered_def prepared_def)
  then have "od_stream (replicate 2 0) c =
      map_option (\<lambda>(out, c'). (map (case_option 0 id) out, c')) (drain iolink_isdu_get_response_byte 2 c)"
    by (intro od_stream_fetch) simp
  with drain_empty [OF assms(1)] assms(2) show "out = [mk_ctrl True True 0, 0]" "is_state c' = ISDU_STATE_IDLE"
    by (auto simp: numeral_2_eq_2 elim!: runsE)
qed

text \<open>Once the request has been executed in \<open>s\<close>, the frames of the call fetch the answer.\<close>

lemma fetch_completes:
  assumes a: "all_served fs s rs (g_stack k)" and od: "concat (map (frame_odata c) fs) = replicate (fetch_count bs) 0"
    and ls: "link_setup (sk_dll s) = link_setup c" and ok: "response_ok (sk_dll s) = response_ok c" and out: "line_out (world s) = []"
    and ans: "answered bs (dll_isdu (sk_dll s))" and g: "globals_wf (sk_globals s)"
  shows "ready c k \<and> answers c bs (sent k)"
proof -
  let ?od = "concat (map (response_odata c) rs)" and ?i = "dll_isdu (sk_dll (g_stack k))"
  have st: "od_stream (replicate (fetch_count bs) 0) (dll_isdu (sk_dll s)) = Some (?od, ?i)"
    using a od same_setup(3,4) [OF ls] by (simp add: all_served_def Let_def)
  have "is_state ?i = ISDU_STATE_IDLE \<and> (if bs = [] then ?od = [mk_ctrl True True 0, 0] else decode_segments True 0 ?od = Some bs)"
  proof (cases "bs = []")
    case True
    then have "od_stream [0, 0] (dll_isdu (sk_dll s)) = Some (?od, ?i)" using st by (simp add: fetch_count_def numeral_2_eq_2)
    with ack_fetched [OF ans [unfolded True]] True show ?thesis by simp
  next
    case False
    then have "fetch_count bs = 2 * length bs" by (cases bs) (simp_all add: fetch_count_def)
    with answer_fetched [OF ans False] st False show ?thesis by simp
  qed
  then show ?thesis
    using a g ls ok out same_setup(5) [of "sk_dll (g_stack k)" "sk_dll s"]
    by (auto simp: ready_def answers_def sent_def all_served_def service_env_def globals_wf_def line_state_def Let_def)
qed

section \<open>A read as one round\<close>

lemma read_step_globals:
  assumes "executing (isdu_view s)" and "holds_request (ReadReq i sub) (dll_isdu (sk_dll s))" and "dll_isdu_process plat s = Some s1"
  shows "globals_wf (sk_globals s1)"
proof -
  have "is_read (sy_isdu (isdu_view s))" using assms(2) by (simp add: isdu_view_def is_read_def)
  from isdu_read_process [OF assms(1) this, of plat] assms(3) show ?thesis
    by (auto simp: dll_isdu_process_def sys_wf_def bind_eq_Some_conv elim!: runsE)
qed

lemma read_fetched:
  assumes "operating (mod_stack (set_world w) k)" and "ready c k" and "read_spec (isdu_view (g_stack k)) i sub = Some bs"
    and "concat (map (frame_odata (sk_dll (g_stack k))) fs) = encode_request seq (ReadReq i sub)"
    and a: "all_served fs (set_world w (g_stack k)) rs (g_stack k1)" and m: "carries c (replicate (fetch_count bs) 0) m"
  shows "runs (call_with m k1) (\<lambda>k2. ready c k2 \<and> answers c bs (sent k2))"
proof -
  let ?k = "mod_stack (set_world w) k" and ?k1 = "mod_stack (set_world (m k1)) k1"
  note r = readyD [OF assms(2)]
  obtain fs2 where f2: "line_in (m k1) = concat fs2" "\<forall>f \<in> set fs2. good_frame c f"
      "concat (map (frame_odata c) fs2) = replicate (fetch_count bs) 0"
    and w: "line_out (m k1) = []" "link_up (m k1)" "\<not> timed_out linux_platform (set_world (m k1) (g_stack k1))"
    using m unfolding carries_def by blast
  have spec: "read_spec (isdu_view (set_world w (g_stack k))) i sub = Some bs"
    using assms(3) read_spec_env [of "isdu_view (set_world w (g_stack k))" "isdu_view (g_stack k)" i sub]
    by (simp add: isdu_view_def set_world_def)
  have d: "operating ?k1" "executing (isdu_view (g_stack ?k1))" "holds_request (ReadReq i sub) (dll_isdu (sk_dll (g_stack ?k1)))"
     "read_spec (isdu_view (g_stack ?k1)) i sub = Some bs"
     "link_setup (sk_dll (g_stack ?k1)) = link_setup c" "response_ok (sk_dll (g_stack ?k1)) = response_ok c"
    using read_delivered [of ?k fs seq i sub rs k1 "m k1"] assms(1,4) a r w spec by simp_all
  obtain s1 where s1: "dll_isdu_process linux_platform (g_stack ?k1) = Some s1" "answered bs (dll_isdu (sk_dll s1))"
      "world s1 = world (g_stack ?k1)" "link_setup (sk_dll s1) = link_setup c" "response_ok (sk_dll s1) = response_ok c"
    and served: "runs (call_with m k1) (\<lambda>k2. \<exists>rs. all_served fs2 s1 rs (g_stack k2))"
    unfolding call_with_def using read_exchange [OF d(1-4), of fs2] f2 same_setup(1) [OF d(5)] d(5,6) by auto
  show ?thesis
    by (rule runs_mono [OF served])
       (use fetch_completes [OF _ f2(3) s1(4,5) _ s1(2) read_step_globals [OF d(2,3) s1(1)]] w(1) s1(3) in auto)
qed

text \<open>Two calls of the main loop answer a read, and leave the device ready for the next request.\<close>

lemma read_round:
  assumes "operating k0" and "ready (sk_dll (g_stack k0)) k" and "read_spec (isdu_view (g_stack k)) i sub = Some bs"
    and "carries (sk_dll (g_stack k0)) (encode_request seq (ReadReq i sub)) ask"
    and "carries (sk_dll (g_stack k0)) (replicate (fetch_count bs) 0) fetch"
  shows "runs (call_with ask k \<bind> call_with fetch) (\<lambda>k2. ready (sk_dll (g_stack k0)) k2 \<and> answers (sk_dll (g_stack k0)) bs (sent k2))"
proof -
  obtain fs where fs: "concat (map (frame_odata (sk_dll (g_stack k))) fs) = encode_request seq (ReadReq i sub)"
    and served: "runs (call_with ask k) (\<lambda>k1. \<exists>rs. all_served fs (set_world (ask k) (g_stack k)) rs (g_stack k1))"
    by (rule asked_served [OF assms(1,2,4)])
  note fetched = read_fetched [OF ready_operating [OF assms(1,2,4)] assms(2,3) fs _ assms(5)]
  show ?thesis
    unfolding runs_bind by (rule runs_mono [OF served]) (use fetched in blast)
qed

end
