(* ===== verification/Session_Write.thy ===== *)
theory Session_Write
  imports Noise Master
begin

text \<open>
  A write over cyclic frames: the on-request bytes of consecutive frames carry the request, the
  next call of the main loop executes it, and a read over the frames after that brings back what
  was written.
\<close>

section \<open>A write request in the stream\<close>

lemma quiet_path_append: "quiet_path c xs c1 \<Longrightarrow> quiet_path c1 ys c2 \<Longrightarrow> quiet_path c (xs @ ys) c2"
  by (induction rule: quiet_path.induct) (auto intro: quiet_step)

lemma quiet_payload:
  assumes "is_state c = ISDU_STATE_SEGMENT_COLLECT" and "is_next_state c = ISDU_STATE_DATA_COLLECT"
    and "is_buffer_idx c + length d = unat (hdr_length (is_header c))" and "length (is_buffer c) = 256"
    and "seq = next_seq (is_segment_seq c)"
  shows "\<exists>c'. quiet_path c (encode_segments False seq d) c'"
  using assms
proof (induction d arbitrary: c seq)
  case Nil
  then show ?case by (auto intro: quiet_end)
next
  case (Cons b bs)
  let ?c1 = "c\<lparr>is_segment_seq := next_seq (is_segment_seq c), is_segmented := bs \<noteq> [],
    is_buffer := (is_buffer c)[is_buffer_idx c := b], is_buffer_idx := Suc (is_buffer_idx c)\<rparr>"
  let ?c2 = "?c1\<lparr>is_next_state := ISDU_STATE_DATA_COLLECT, is_state := ISDU_STATE_SEGMENT_COLLECT\<rparr>"
  have idx: "is_buffer_idx c < 256"
    using Cons.prems(3) unat_u8_less [of "hdr_length (is_header c)"] by (simp del: unat_u8_less)
  show ?case
  proof (cases "bs = []")
    case True
    then show ?thesis
      using Cons.prems idx
      by (simp add: quiet_path_simps collect_segment collect_data_step isdu_collect_data_def Let_def)
  next
    case False
    obtain c' where "quiet_path ?c2 (encode_segments False (next_seq (is_segment_seq ?c2)) bs) c'"
      using Cons.IH [of ?c2] Cons.prems by auto
    then show ?thesis
      using Cons.prems idx False
      by (auto simp: quiet_path_simps collect_segment collect_data_step isdu_collect_data_def Let_def neq_Nil_conv)
  qed
qed

lemma quiet_write_request:
  assumes "is_state c = ISDU_STATE_IDLE \<or> is_state c = ISDU_STATE_RESPONSE_READY"
    and "1 \<le> length d" and "length d \<le> 255" and "length (is_buffer c) = 256"
  shows "\<exists>c'. quiet_path c (encode_request seq (WriteReq i sub d)) c'"
proof (cases "length d < 15")
  case True
  then show ?thesis
    using assms service_write_short [OF True]
    by (simp add: quiet_path_simps encode_request_def index_bytes_def collect_start collect_segment collect_data_step
          isdu_collect_data_def Let_def and.assoc)
       (rule quiet_payload; simp)
next
  case False
  then show ?thesis
    using assms
    by (simp add: quiet_path_simps encode_request_def index_bytes_def collect_start collect_segment collect_data_step
          isdu_collect_data_def Let_def and.assoc)
       (rule quiet_payload; simp)
qed

lemma write_collected:
  assumes "od_stream (encode_request seq (WriteReq i sub d)) c = Some (out, c')" and "isdu_wf c"
    and "is_state c = ISDU_STATE_IDLE \<or> is_state c = ISDU_STATE_RESPONSE_READY" and "1 \<le> length d" and "length d \<le> 255"
  shows "is_state c' = ISDU_STATE_SERVICE_EXECUTE" "holds_request (WriteReq i sub d) c'" "isdu_bindings c' = isdu_bindings c" "isdu_wf c'"
proof -
  have "length (is_buffer c) = 256" using assms(2) by (simp add: isdu_wf_def)
  then obtain e where "quiet_path c (encode_request seq (WriteReq i sub d)) e"
    using quiet_write_request [OF assms(3-5)] by blast
  from quiet_path_stream [OF this] assms(1) have "collect_all c (encode_request seq (WriteReq i sub d)) = Some c'" by simp
  with collect_request [OF assms(2,3), of "WriteReq i sub d" seq] assms(4,5)
  show "is_state c' = ISDU_STATE_SERVICE_EXECUTE" "holds_request (WriteReq i sub d) c'" "isdu_bindings c' = isdu_bindings c" "isdu_wf c'"
    by simp_all
qed

section \<open>Executing the write\<close>

text \<open>A write reaches the outside only through the non-volatile memory; \<open>h\<close> is what that leaves alone.\<close>

lemma tag_write_keeps:
  assumes "\<And>off d w. h (snd (nvm_write plat off d w)) = h w" and "executing s" and "is_write (sy_isdu s)"
    and "hdr_index (is_header (sy_isdu s)) = index"
    and "tag_write_ok index (is_buffer_idx (sy_isdu s)) (sy_globals (installed s))"
    and "iolink_isdu_process plat s = Some s'"
  shows "h (gl_world (sy_globals s')) = h (gl_world (sy_globals s)) \<and> sy_events s' = sy_events s \<and> sy_ds s' = sy_ds s"
proof -
  have commit: "h (gl_world (nvm_commit plat g)) = h (gl_world g)" for g
    using assms(1) by (simp add: nvm_commit_def split_beta)
  have set: "h (gl_world g') = h (gl_world g)"
    if "iolink_params_set plat i 0 (Ref d) len True g = Some (r, g')" for i d len g r g'
    using that by (auto simp: iolink_params_set_def Let_def commit split: if_splits bind_splits)
  have "tag_index index" using assms(5) by (simp add: tag_write_ok_def)
  from tag_write_handler [OF assms(3,4) this]
  obtain s2 where s2: "handle_tag_write plat index (index \<noteq> 0x1A) (installed s) = Some s2" "s' = finish s2"
    using assms(6) by (auto simp: iolink_isdu_process_executing [OF assms(2)])
  have "h (gl_world (sy_globals s2)) = h (gl_world (sy_globals (installed s)))"
    using s2(1) by (auto simp: handle_tag_write_def Let_def on_isdu_def dest!: set split: if_splits bind_splits)
  moreover have "runs (handle_tag_write plat index (index \<noteq> 0x1A) (installed s)) (\<lambda>s'. sy_events s' = sy_events s \<and> sy_ds s' = sy_ds s)"
    using handle_tag_write_accepts [OF executing_installed [OF assms(2)], of index plat "index \<noteq> 0x1A"] assms(5)
    by (auto simp: installed_def elim!: runs_mono)
  ultimately show ?thesis
    using s2 by (simp add: installed_def split_beta)
qed

lemma linux_nvm_write_keeps:
  "line_in (snd (nvm_write linux_platform off d w)) = line_in w" "line_out (snd (nvm_write linux_platform off d w)) = line_out w"
  "link_up (snd (nvm_write linux_platform off d w)) = link_up w" "lw_clock (snd (nvm_write linux_platform off d w)) = lw_clock w"
  for w :: host_world
  by (simp_all add: linux_platform_def linux_nvm_write_def Let_def)

lemma write_service_step:
  fixes s :: "host_world stack"
  assumes "executing (isdu_view s)" and "holds_request (WriteReq i sub d) (dll_isdu (sk_dll s))"
    and "1 \<le> length d" and "length d \<le> 255"
    and "tag_write_ok i (length d) (sy_globals (installed (isdu_view s)))"
  obtains e g where "dll_isdu_process linux_platform s =
      Some (s\<lparr>sk_dll := (sk_dll s)\<lparr>dll_isdu := e\<rparr>, sk_globals := g\<rparr>)"
    and "answered [] e" and "isdu_wf e" and "globals_wf g"
    and "tag_shown i g = Some (cstr_of (take 32 d))"
    and "line_state (s\<lparr>sk_globals := g\<rparr>) = line_state s" and "lw_clock (gl_world g) = lw_clock (world s)"
proof -
  let ?y = "isdu_view s"
  have w: "is_write (sy_isdu ?y)" "hdr_index (is_header (sy_isdu ?y)) = i" "is_buffer_idx (sy_isdu ?y) = length d"
    "take (length d) (is_buffer (sy_isdu ?y)) = d"
    using assms(2) by (auto simp: isdu_view_def is_write_def)
  have buf: "take (min 32 (length d)) (is_buffer (sy_isdu ?y)) = take 32 d"
    using w(4) by (metis min.commute take_take)
  have "runs (iolink_isdu_process linux_platform ?y) (\<lambda>y. sys_wf y \<and> answered [] (sy_isdu y) \<and>
     tag_value i (sy_globals y) = cstr_of (take 32 d) \<and> (i = 0x0018 \<longrightarrow> has_app_tag (sy_globals y)))"
    using isdu_tag_write_process [OF assms(1) w(1,2)] assms(5) w(3) buf by simp
  then obtain y where y: "iolink_isdu_process linux_platform ?y = Some y" "sys_wf y" "answered [] (sy_isdu y)"
    "tag_value i (sy_globals y) = cstr_of (take 32 d)" "i = 0x0018 \<longrightarrow> has_app_tag (sy_globals y)"
    by (auto elim!: runsE)
  have len: "length (cstr_of (take 32 d)) < 256" using length_cstr_of_le [of "take 32 d"] by simp
  let ?h = "\<lambda>w :: host_world. (line_in w, line_out w, link_up w, lw_clock w)"
  have "?h (gl_world (sy_globals y)) = ?h (gl_world (sy_globals ?y)) \<and> sy_events y = sy_events ?y \<and> sy_ds y = sy_ds ?y"
    using assms(5) w(3) by (intro tag_write_keeps [OF _ assms(1) w(1,2) _ y(1)]) (simp_all add: linux_nvm_write_keeps)
  moreover have "dll_isdu_process linux_platform s = Some (s\<lparr>sk_dll := (sk_dll s)\<lparr>dll_isdu := sy_isdu y,
      dll_events := sy_events y, dll_ds := sy_ds y\<rparr>, sk_globals := sy_globals y\<rparr>)"
    using y(1) by (simp add: dll_isdu_process_def)
  ultimately show ?thesis
    using y len
    by (intro that [of "sy_globals y" "sy_isdu y"])
       (auto simp: isdu_view_def sys_wf_def tag_shown_def clip_response_def line_state_def world_def)
qed

section \<open>A write over cyclic frames\<close>

lemma tag_shown_env:
  "gl_info g' = gl_info g \<Longrightarrow> g_nvm_shadow g' = g_nvm_shadow g \<Longrightarrow> tag_shown i g' = tag_shown i g"
  by (simp add: tag_shown_def tag_value_def has_app_tag_def)

lemma tag_read_spec: "tag_index i \<Longrightarrow> read_spec y i sub = tag_shown i (sy_globals y)"
  by (auto simp: tag_index_def read_spec_def mandatory_spec_def)

text \<open>The call that finds a write request executes it and serves the frames that fetch the answer.\<close>

lemma write_answered:
  assumes "operating (mod_stack (set_world (m k1)) k1)" and "executing (isdu_view (set_world (m k1) (g_stack k1)))"
    and "holds_request (WriteReq i sub d) (dll_isdu (sk_dll (g_stack k1)))"
    and "1 \<le> length d" and "length d \<le> 255" and "tag_write_ok i (length d) (sy_globals (installed (isdu_view (set_world (m k1) (g_stack k1)))))"
    and "link_setup (sk_dll (g_stack k1)) = link_setup c" and "response_ok (sk_dll (g_stack k1)) = response_ok c" and "carries c [0, 0] m"
  shows "runs (call_with m k1) (\<lambda>k2. ready c k2 \<and> answers c [] (sent k2) \<and>
     (\<forall>sub'. read_spec (isdu_view (g_stack k2)) i sub' = Some (cstr_of (take 32 d))))"
proof -
  let ?k1 = "mod_stack (set_world (m k1)) k1" and ?s = "set_world (m k1) (g_stack k1)"
  obtain fs where fs: "line_in (m k1) = concat fs" "\<forall>f \<in> set fs. good_frame c f" "concat (map (frame_odata c) fs) = [0, 0]"
    and out: "line_out (m k1) = []"
    using assms(9) unfolding carries_def by blast
  obtain e g where step: "dll_isdu_process linux_platform ?s = Some (?s\<lparr>sk_dll := (sk_dll ?s)\<lparr>dll_isdu := e\<rparr>, sk_globals := g\<rparr>)" (is "_ = Some ?s1")
    and e: "answered [] e" "isdu_wf e" "globals_wf g" "tag_shown i g = Some (cstr_of (take 32 d))"
      "line_state (?s\<lparr>sk_globals := g\<rparr>) = line_state ?s" "lw_clock (gl_world g) = lw_clock (world ?s)"
    by (rule write_service_step [OF assms(2) _ assms(4-6)]) (use assms(3) in simp)
  have w: "line_state ?s1 = line_state ?s" "lw_clock (world ?s1) = lw_clock (world ?s)"
    using e(5,6) by (simp_all add: line_state_def world_def)
  have ev: "events_wf (dll_events (sk_dll ?s))" using assms(1) by (simp add: operating_def cyclic_def dll_wf_def Let_def)
  have ls: "link_setup (sk_dll ?s1) = link_setup c" using assms(7) by (simp add: link_setup_def)
  have ok: "response_ok (sk_dll ?s1) = response_ok c" using assms(7,8) same_setup(5) [of "sk_dll ?s1" "sk_dll (g_stack k1)"] ls by simp
  have served: "runs (call_with m k1) (\<lambda>k'. \<exists>rs. all_served fs ?s1 rs (g_stack k'))"
    unfolding call_with_def
    by (rule process_serves_io [where d = "dll_ds (sk_dll ?s)", OF assms(1) _ _ e(2) ev])
       (use step w fs same_setup(1) [OF assms(7)] in simp_all)
  have ti: "tag_index i" using assms(6) by (simp add: tag_write_ok_def)
  have "read_spec (isdu_view (g_stack k2)) i sub' = Some (cstr_of (take 32 d))" if "all_served fs ?s1 rs (g_stack k2)" for rs k2 sub'
    using that e(4) tag_shown_env [of "sk_globals (g_stack k2)" g i]
    by (simp add: tag_read_spec [OF ti] isdu_view_def all_served_def service_env_def Let_def)
  moreover have "ready c k2 \<and> answers c [] (sent k2)" if "all_served fs ?s1 rs (g_stack k2)" for rs k2
    by (rule fetch_completes [OF that _ ls ok]) (use fs out w(1) e(1,3) in \<open>simp_all add: fetch_count_def line_state_def numeral_2_eq_2\<close>)
  ultimately show ?thesis
    by (intro runs_mono [OF served]) blast
qed

text \<open>The frames of the request leave the device about to execute it.\<close>

lemma write_delivered:
  assumes "operating k" and "globals_wf (sk_globals (g_stack k))" and "is_state (dll_isdu (sk_dll (g_stack k))) = ISDU_STATE_IDLE"
    and "concat (map (frame_odata (sk_dll (g_stack k))) fs) = encode_request seq (WriteReq i sub d)"
    and "1 \<le> length d" and "length d \<le> 255" and "tag_write_ok i (length d) (sy_globals (installed (isdu_view (g_stack k))))"
    and a: "all_served fs (g_stack k) rs (g_stack k1)"
  shows "(link_up w \<and> \<not> timed_out linux_platform (set_world w (g_stack k1)) \<longrightarrow> operating (mod_stack (set_world w) k1)) \<and>
      executing (isdu_view (set_world w (g_stack k1))) \<and>
      holds_request (WriteReq i sub d) (dll_isdu (sk_dll (g_stack k1))) \<and>
      tag_write_ok i (length d) (sy_globals (installed (isdu_view (set_world w (g_stack k1))))) \<and>
      link_setup (sk_dll (g_stack k1)) = link_setup (sk_dll (g_stack k)) \<and>
      response_ok (sk_dll (g_stack k1)) = response_ok (sk_dll (g_stack k))"
proof -
  let ?c = "sk_dll (g_stack k)" and ?c1 = "sk_dll (g_stack k1)" and ?s = "set_world w (g_stack k1)"
  have wf: "isdu_wf (dll_isdu ?c)" using assms(1) by (simp add: operating_def cyclic_def dll_wf_def Let_def)
  have ls: "link_setup ?c1 = link_setup ?c" and cyc: "cyclic ?c1" and env: "service_env (g_stack k1) = service_env (g_stack k)"
    and ok: "response_ok ?c1 = response_ok ?c"
    using a same_setup(5) [of ?c1 ?c] by (simp_all add: all_served_def Let_def)
  have od: "od_stream (encode_request seq (WriteReq i sub d)) (dll_isdu ?c) = Some (concat (map (response_odata ?c) rs), dll_isdu ?c1)"
    using a assms(4) by (simp add: all_served_def Let_def)
  have rq: "is_state (dll_isdu ?c1) = ISDU_STATE_SERVICE_EXECUTE" "holds_request (WriteReq i sub d) (dll_isdu ?c1)" "isdu_wf (dll_isdu ?c1)"
    using write_collected [OF od wf] assms(3,5,6) by simp_all
  have env': "gl_info (sk_globals ?s) = gl_info (sk_globals (g_stack k))" "g_nvm_shadow (sk_globals ?s) = g_nvm_shadow (sk_globals (g_stack k))"
    using env by (simp_all add: service_env_def set_world_def)
  have "executing (isdu_view ?s)"
    using rq(1,3) cyc assms(2) env' by (simp add: executing_def sys_wf_def isdu_view_def cyclic_def dll_wf_def globals_wf_def)
  moreover have "tag_write_ok i (length d) (sy_globals (installed (isdu_view ?s)))"
    using assms(7) env' by (simp add: tag_write_ok_def installed_def isdu_view_def)
  moreover have "link_up w \<and> \<not> timed_out linux_platform ?s \<longrightarrow> operating (mod_stack (set_world w) k1)"
    using cyc ls assms(1) by (simp add: operating_def Let_def link_setup_def)
  ultimately show ?thesis using rq(2) ls ok by simp
qed

text \<open>Two calls of the main loop execute a write and acknowledge it; the device is ready again.\<close>

lemma write_round:
  assumes "operating k" and "globals_wf (sk_globals (g_stack k))" and "is_state (dll_isdu (sk_dll (g_stack k))) = ISDU_STATE_IDLE"
    and "carries (sk_dll (g_stack k)) (encode_request seq (WriteReq i sub d)) ask" and "carries (sk_dll (g_stack k)) [0, 0] fetch"
    and "1 \<le> length d" and "length d \<le> 255" and "tag_write_ok i (length d) (sy_globals (installed (isdu_view (g_stack k))))"
  shows "runs (call_with ask k \<bind> call_with fetch) (\<lambda>k2. ready (sk_dll (g_stack k)) k2 \<and> answers (sk_dll (g_stack k)) [] (sent k2) \<and>
     (\<forall>sub'. read_spec (isdu_view (g_stack k2)) i sub' = Some (cstr_of (take 32 d))))"
proof -
  let ?c = "sk_dll (g_stack k)" and ?k = "mod_stack (set_world (ask k)) k"
  note rdy = operating_ready [OF assms(1-3)]
  obtain fs where fs: "concat (map (frame_odata ?c) fs) = encode_request seq (WriteReq i sub d)"
    and served: "runs (call_with ask k) (\<lambda>k1. \<exists>rs. all_served fs (set_world (ask k) (g_stack k)) rs (g_stack k1))"
    by (rule asked_served [OF assms(1) rdy assms(4)])
  have ok: "tag_write_ok i (length d) (sy_globals (installed (isdu_view (set_world (ask k) (g_stack k)))))"
    using assms(8) by (simp add: tag_write_ok_def installed_def isdu_view_def set_world_def)
  have "runs (call_with fetch k1) (\<lambda>k2. ready ?c k2 \<and> answers ?c [] (sent k2) \<and>
     (\<forall>sub'. read_spec (isdu_view (g_stack k2)) i sub' = Some (cstr_of (take 32 d))))"
    if a: "all_served fs (set_world (ask k) (g_stack k)) rs (g_stack k1)" for rs k1
  proof -
    have "link_up (fetch k1)" "\<not> timed_out linux_platform (set_world (fetch k1) (g_stack k1))"
      using assms(5) by (simp_all add: carries_def)
    then show ?thesis
      using write_delivered [of ?k fs seq i sub d rs k1 "fetch k1"] ready_operating [OF assms(1) rdy assms(4)] readyD(6) [OF rdy] fs ok a assms(3,5-7)
      by (intro write_answered [of fetch k1 i sub d]) simp_all
  qed
  then show ?thesis
    unfolding runs_bind by (intro runs_mono [OF served]) blast
qed

text \<open>
  C6: A write over the wire, and its read-back.  A device in cyclic operation receives frames whose
  on-request bytes carry a write of 1 to 255 bytes to a tag index that accepts it; the next call
  of the main loop executes it, storing the tag in the non-volatile memory on the way, and the
  frames that call finds, with empty on-request bytes, fetch the acknowledgement.  The device is
  then ready for the next request.  If the frames that follow carry a read of that index, the
  responses to the frames after them decode to the bytes written, cut at 32 bytes and at the first
  NUL (to an empty answer if nothing is left), and the device is ready again.
\<close>

theorem session_isdu_write:
  fixes k :: "host_world core"
  defines "c \<equiv> sk_dll (g_stack k)"
  assumes "operating k" and "globals_wf (sk_globals (g_stack k))" and "is_state (dll_isdu c) = ISDU_STATE_IDLE"
    and "carries c (encode_request seq (WriteReq i sub d)) ask" and "carries c [0, 0] fetch"
    and "1 \<le> length d" and "length d \<le> 255" and "tag_write_ok i (length d) (sy_globals (installed (isdu_view (g_stack k))))"
    and "carries c (encode_request seq' (ReadReq i sub')) ask'" and "carries c (replicate (fetch_count (cstr_of (take 32 d))) 0) fetch'"
  shows "runs (do {
       k1 \<leftarrow> call_with ask k;
       k2 \<leftarrow> call_with fetch k1;
       k3 \<leftarrow> call_with ask' k2;
       k4 \<leftarrow> call_with fetch' k3;
       Some (k2, k4) }) (\<lambda>(k2, k4).
     answers c [] (sent k2) \<and> ready c k2 \<and> (\<forall>sub. read_spec (isdu_view (g_stack k2)) i sub = Some (cstr_of (take 32 d))) \<and>
     answers c (cstr_of (take 32 d)) (sent k4) \<and> ready c k4)"
proof -
  have "runs (call_with ask' k2 \<bind> call_with fetch') (\<lambda>k4. answers c (cstr_of (take 32 d)) (sent k4) \<and> ready c k4)"
    if "ready c k2" "\<forall>sub. read_spec (isdu_view (g_stack k2)) i sub = Some (cstr_of (take 32 d))" for k2
    using that(2) by (intro runs_mono [OF read_round [OF assms(2), folded c_def, OF that(1) _ assms(10,11)]]) auto
  moreover have "runs (call_with ask k \<bind> call_with fetch) (\<lambda>k2. ready c k2 \<and> answers c [] (sent k2) \<and>
     (\<forall>sub. read_spec (isdu_view (g_stack k2)) i sub = Some (cstr_of (take 32 d))))"
    using write_round [OF assms(2,3) assms(4-6) [unfolded c_def] assms(7-9)] by (simp add: c_def)
  ultimately show ?thesis
    by (auto simp: runs_bind elim!: runs_mono)
qed

lemma session_isdu_write_witness:
  "let c = sk_dll (g_stack (demo_operating []));
       frames = (\<lambda>bs k. demo_reply_world k (map (\<lambda>b. cyclic_frame [0xAA] [b]) bs)) in
   runs (do {
       k1 \<leftarrow> call_with (frames (encode_request 0 (WriteReq 0x18 0 [0x41, 0x42]))) (demo_operating []);
       k2 \<leftarrow> call_with (frames [0, 0]) k1;
       k3 \<leftarrow> call_with (frames (encode_request 0 (ReadReq 0x18 0))) k2;
       k4 \<leftarrow> call_with (frames [0, 0, 0, 0]) k3;
       Some (k2, k4) }) (\<lambda>(k2, k4). answers c [] (sent k2) \<and> answers c [0x41, 0x42] (sent k4) \<and> ready c k4)"
proof -
  let ?k = "demo_operating []" and ?frames = "\<lambda>bs k. demo_reply_world k (map (\<lambda>b. cyclic_frame [0xAA] [b]) bs)"
  let ?c = "sk_dll (g_stack ?k)"
  have g: "good_frame ?c (cyclic_frame [x] [b])" "frame_odata ?c (cyclic_frame [x] [b]) = [b]" for x b
    by (simp_all add: cyclic_frame_good demo_operating_simps)
  have carries: "carries ?c bs (?frames bs)" for bs
    unfolding carries_def
  proof (intro allI conjI exI [of _ "map (\<lambda>b. cyclic_frame [0xAA] [b]) bs"])
    show "concat (map (frame_odata ?c) (map (\<lambda>b. cyclic_frame [0xAA] [b]) bs)) = bs" by (simp add: comp_def g concat_map_singleton)
  qed (simp_all add: demo_reply_world_simps g)
  have ok: "tag_write_ok 0x18 (length [0x41 :: u8, 0x42]) (sy_globals (installed (isdu_view (g_stack ?k))))"
    by (simp add: tag_write_ok_def tag_index_def installed_def isdu_view_def demo_operating_def set_world_def demo_stack_def
        mod_dll_def globals_static_def device_info_static_def iolink_device_info_get_def Let_def)
  have v1: "cstr_of (take 32 [0x41, 0x42]) = [0x41, 0x42 :: u8]" by (simp add: cstr_of_def)
  have v2: "replicate (fetch_count [0x41, 0x42 :: u8]) 0 = [0, 0, 0, 0 :: u8]" by (simp add: fetch_count_def numeral_eq_Suc)
  note v = v1 v2
  from session_isdu_write [OF demo_operating_simps(1,6,2) carries carries _ _ ok carries carries, of 0 0 0 0]
  show ?thesis unfolding Let_def v by (simp add: v) (auto elim!: runs_mono)
qed

end
