(* ===== verification/Acyclic.thy ===== *)
theory Acyclic
  imports Session_Write
begin

text \<open>
  Acyclic exchange before the cyclic phase: in PREOPERATE the master talks to the ISDU engine over
  frames of two bytes, one on-request byte and its checksum in each direction.
\<close>

section \<open>Two-byte frames\<close>

definition two_byte_frame :: "u8 \<Rightarrow> bytes" where
  "two_byte_frame b = [b, crc6 [b, 0]]"

text \<open>It is the memory image of the structure that \<^verbatim>\<open>dll_internal.h\<close> declares for it.\<close>

definition type0_bytes :: "iolink_m_seq_type0 \<Rightarrow> bytes" where
  "type0_bytes m = [m0_master_command m, m0_ck m]"

lemma two_byte_frame_struct:
  "type0_bytes m = two_byte_frame (m0_master_command m) \<longleftrightarrow> iolink_checksum_ck (m0_master_command m) 0 = Some (m0_ck m)"
  by (auto simp: type0_bytes_def two_byte_frame_def iolink_checksum_ck_eq)

text \<open>Before the connection, no frame open, timing checks off.\<close>

definition preoperating :: "host_world iolink_dll_ctx \<Rightarrow> bool" where
  "preoperating c \<longleftrightarrow> dll_wf c \<and> dll_phy c = Ref iolink_phy_virtual_get \<and> before_connection (dll_state c) \<and>
     dll_frame_index c = 0 \<and> \<not> dll_enforce_timing c"

lemma preoperating_req_len: "before_connection (dll_state c) \<Longrightarrow> dll_req_len_for b c = 2"
  by (auto simp: dll_req_len_for_def before_connection_def Let_def)

text \<open>The byte \<open>b\<close> has gone through the engine and its answer \<open>r\<close> is on the line.\<close>

definition byte_served :: "host_world iolink_dll_ctx \<Rightarrow> u8 \<Rightarrow> host_world stack \<Rightarrow> u8 \<Rightarrow> host_world stack \<Rightarrow> bool" where
  "byte_served c b s r s' \<longleftrightarrow>
     preoperating (sk_dll s') \<and> dll_state (sk_dll s') = IOLINK_DLL_STATE_PREOPERATE \<and> link_setup (sk_dll s') = link_setup c \<and>
     od_exchange b (dll_isdu c) = Some (r, dll_isdu (sk_dll s')) \<and>
     line_state s' = (line_in (world s), line_out (world s) @ two_byte_frame r, link_up (world s)) \<and> service_env s' = service_env s"

lemma type0_served:
  fixes s :: "host_world stack"
  assumes "isdu_wf (dll_isdu (sk_dll s))" and "the_phy s = Some iolink_phy_virtual_get" and "link_up (world s)"
  shows "runs (dll_handle_operate_type0 b s) (\<lambda>s'. \<exists>r i. od_exchange b (dll_isdu (sk_dll s)) = Some (r, i) \<and> isdu_wf i \<and>
     sk_dll s' = (sk_dll s)\<lparr>dll_isdu := i\<rparr> \<and> service_env s' = service_env s \<and>
     line_state s' = (line_in (world s), line_out (world s) @ two_byte_frame r, link_up (world s)))"
proof -
  have "phy_send iolink_phy_virtual_get = Ref virtual_send" by (simp add: iolink_phy_virtual_get_def)
  then have "runs (dll_send (two_byte_frame r) (mod_dll (\<lambda>c. c\<lparr>dll_isdu := i\<rparr>) s)) (\<lambda>s'. sk_dll s' = (sk_dll s)\<lparr>dll_isdu := i\<rparr> \<and>
     service_env s' = service_env s \<and> line_state s' = (line_in (world s), line_out (world s) @ two_byte_frame r, link_up (world s)))" for r i
    using assms(2,3)
    by (simp add: dll_send_def the_phy_def virtual_send_up line_state_def)
       (simp add: service_env_def iolink_dll_get_stats_def)
  then show ?thesis
    unfolding dll_handle_operate_type0_def iolink_checksum_ck_eq
    using od_exchange_wf [OF assms(1), of b] by (auto simp: two_byte_frame_def [symmetric] elim!: runsE)
qed

lemma two_byte_partial:
  assumes "preoperating c" and "partial_frame c (two_byte_frame b) d"
  shows "dll_req_len d = 2" "dll_frame_index d = 2" "received_frame d = two_byte_frame b" "dll_frame_buf d ! 0 = b" "length (dll_frame_buf d) = 48"
proof -
  have "dll_req_len_for x c = 2" for x using assms(1) by (intro preoperating_req_len) (simp add: preoperating_def)
  then show d: "dll_req_len d = 2" "dll_frame_index d = 2" "length (dll_frame_buf d) = 48"
    using assms(2) by (auto simp: partial_frame_def two_byte_frame_def)
  have t: "take 2 (dll_frame_buf d) = two_byte_frame b"
    using assms(2) by (simp add: partial_frame_def two_byte_frame_def numeral_2_eq_2)
  then show "received_frame d = two_byte_frame b" using d by (simp add: received_frame_def)
  show "dll_frame_buf d ! 0 = b" using nth_take [of 0 2 "dll_frame_buf d"] t by (simp add: two_byte_frame_def)
qed

lemma byte_frame:
  fixes s :: "host_world stack"
  assumes "preoperating c" and "b \<noteq> IOLINK_MC_TRANSITION_COMMAND" and "partial_frame c (two_byte_frame b) (sk_dll s)" and "link_up (world s)"
  shows "runs (dll_frame_complete linux_platform s) (\<lambda>s'. \<exists>r. byte_served c b s r s')"
proof -
  let ?d = "sk_dll s"
  note k = partial_frame_keeps [OF assms(3)] and d = two_byte_partial [OF assms(1,3)]
  have wf: "dll_wf ?d" using partial_frame_wf [OF assms(3)] assms(1) by (simp add: preoperating_def)
  have c: "before_connection (dll_state ?d)" "\<not> dll_enforce_timing ?d" "dll_phy ?d = Ref iolink_phy_virtual_get"
    using k(1,2) assms(1) by (simp_all add: link_setup_def preoperating_def)
  obtain t s1 where s1: "dll_cycle_timing linux_platform s = Some s1" "sk_dll s1 = ?d\<lparr>dll_last_cycle_start_us := t\<rparr>"
    "service_env s1 = service_env s" "the_phy s1 = the_phy s"
    by (rule cycle_timing_quiet [OF c(2)])
  have ls: "line_state s1 = line_state s" using cycle_timing_virtual [of s] s1(1) wf by (simp add: dll_wf_def)
  have crc: "dll_crc_ok (sk_dll s1) = Some True"
  proof -
    have "received_frame (sk_dll s1) = two_byte_frame b" using d(3) by (simp add: s1(2) received_frame_def)
    moreover have "dll_wf (sk_dll s1)" "dll_frame_index (sk_dll s1) \<noteq> 0" using wf d by (simp_all add: s1(2) dll_wf_def)
    ultimately show ?thesis using dll_crc_ok_eq [of "sk_dll s1"] by (simp add: frame_valid_def two_byte_frame_def)
  qed
  let ?f = "dll_first_frame s1"
  have disp: "dll_dispatch linux_platform s1 = dll_handle_operate_type0 b ?f"
    using c(1) d assms(2)
    by (auto simp: dll_dispatch_def dll_first_frame_def dll_dispatch_preoperate_def Let_def s1(2) before_connection_def)
  have f: "sk_dll ?f = ?d\<lparr>dll_last_cycle_start_us := t, dll_state := IOLINK_DLL_STATE_PREOPERATE\<rparr>" "world ?f = world s1"
    "service_env ?f = service_env s"
    using c(1) s1(3) by (auto simp: dll_first_frame_def s1(2) before_connection_def service_env_def iolink_dll_get_stats_def)
  have w: "line_in (world s1) = line_in (world s)" "line_out (world s1) = line_out (world s)" "link_up (world s1) = link_up (world s)"
    using ls by (simp_all add: line_state_def)
  have i: "dll_isdu ?d = dll_isdu c" using k(3) by (simp add: dll_data_def)
  have "runs (dll_handle_operate_type0 b ?f) (\<lambda>s'. \<exists>r i. od_exchange b (dll_isdu (sk_dll ?f)) = Some (r, i) \<and> isdu_wf i \<and>
     sk_dll s' = (sk_dll ?f)\<lparr>dll_isdu := i\<rparr> \<and> service_env s' = service_env ?f \<and>
     line_state s' = (line_in (world ?f), line_out (world ?f) @ two_byte_frame r, link_up (world ?f)))"
    using wf c(3) assms(4) by (intro type0_served) (simp_all add: f w dll_wf_def the_phy_def)
  then show ?thesis
    unfolding dll_frame_complete_def s1(1) bind.bind_lunit crc disp
  proof (simp only: if_True runs_bind, elim runs_mono, clarify)
    fix s' r j assume *: "od_exchange b (dll_isdu (sk_dll ?f)) = Some (r, j)" "isdu_wf j" "sk_dll s' = (sk_dll ?f)\<lparr>dll_isdu := j\<rparr>"
      "service_env s' = service_env ?f" "line_state s' = (line_in (world ?f), line_out (world ?f) @ two_byte_frame r, link_up (world ?f))"
    have "byte_served c b s r (mod_dll (\<lambda>c. c\<lparr>dll_frame_index := 0\<rparr>) s')"
      using * wf c k(1) f(3) unfolding byte_served_def
      by (simp add: f w i preoperating_def before_connection_def line_state_def dll_wf_def link_setup_def)
         (simp add: service_env_def iolink_dll_get_stats_def)
    then show "runs (Some (mod_dll (\<lambda>c. c\<lparr>dll_frame_index := 0\<rparr>) s')) (\<lambda>s'. \<exists>r. byte_served c b s r s')" by auto
  qed
qed

section \<open>A backlog of bytes\<close>

text \<open>The bytes \<open>bs\<close> went through the engine as one stream; the answers \<open>rs\<close> are on the line, one frame each.\<close>

definition bytes_served :: "bytes \<Rightarrow> host_world stack \<Rightarrow> bytes \<Rightarrow> host_world stack \<Rightarrow> bool" where
  "bytes_served bs s rs s' \<longleftrightarrow>
     preoperating (sk_dll s') \<and> link_setup (sk_dll s') = link_setup (sk_dll s) \<and>
     od_stream bs (dll_isdu (sk_dll s)) = Some (rs, dll_isdu (sk_dll s')) \<and>
     line_state s' = ([], line_out (world s) @ concat (map two_byte_frame rs), link_up (world s)) \<and> service_env s' = service_env s"

lemma serve_bytes:
  assumes "preoperating (sk_dll s)" and "IOLINK_MC_TRANSITION_COMMAND \<notin> set bs"
    and "line_in (world s) = concat (map two_byte_frame bs)" and "link_up (world s)"
  shows "runs (dll_rx_loop linux_platform b s) (\<lambda>s'. \<exists>rs. bytes_served bs s rs s')"
  using assms
proof (induction bs arbitrary: s b)
  case Nil
  have phy: "the_phy s = Some iolink_phy_virtual_get" using Nil.prems(1) by (simp add: preoperating_def the_phy_def)
  show ?case
    using Nil.prems by (auto simp: rx_loop_virtual(1) [OF phy Nil.prems(4)] bytes_served_def line_state_def)
next
  case (Cons x bs)
  let ?c = "sk_dll s" and ?rest = "concat (map two_byte_frame bs)"
  have p0: "partial_frame ?c [] ?c" using Cons.prems(1) by (simp add: partial_frame_def assembly_only_refl preoperating_def dll_wf_def)
  have rl: "dll_req_len_for y ?c = 2" for y using Cons.prems(1) by (intro preoperating_req_len) (simp add: preoperating_def)
  have rest: "runs (dll_rx_loop linux_platform b1 s2) (\<lambda>s'. \<exists>rs. bytes_served (x # bs) s rs s')"
    if sv: "byte_served ?c x s1 r s2" and ls: "line_state s1 = (?rest, line_out (world s), link_up (world s))"
      and se: "service_env s1 = service_env s" for s1 s2 r b1
  proof (rule runs_mono [OF Cons.IH])
    show "preoperating (sk_dll s2)" using sv by (simp add: byte_served_def)
    show "line_in (world s2) = ?rest" "link_up (world s2)" using sv ls Cons.prems(4) by (simp_all add: byte_served_def line_state_def)
    show "\<exists>rs. bytes_served (x # bs) s rs s'" if "\<exists>rs. bytes_served bs s2 rs s'" for s'
    proof -
      from that obtain rs where "bytes_served bs s2 rs s'" by blast
      then have "bytes_served (x # bs) s (r # rs) s'"
        using sv ls se by (simp add: bytes_served_def byte_served_def line_state_def)
      then show ?thesis by blast
    qed
  qed (use Cons.prems in simp)
  show ?case
  proof (rule rx_frame [OF p0, where g = "two_byte_frame x" and rest = ?rest])
    show "runs (dll_frame_complete linux_platform s1) (\<lambda>s2. runs (dll_rx_loop linux_platform b1 s2) (\<lambda>s'. \<exists>rs. bytes_served (x # bs) s rs s'))"
      if "partial_frame ?c ([] @ two_byte_frame x) (sk_dll s1)" "line_state s1 = (?rest, line_out (world s), link_up (world s))"
        "service_env s1 = service_env s" for s1 b1
      using that Cons.prems(2,4) rest
      by (intro runs_mono [OF byte_frame [OF Cons.prems(1)]]) (auto simp: line_state_def)
  qed (use Cons.prems rl in \<open>auto simp: preoperating_def line_state_def two_byte_frame_def [of x]\<close>)
qed

section \<open>A read before the cyclic phase\<close>

definition acyclic_ready :: "host_world core \<Rightarrow> bool" where
  "acyclic_ready k \<longleftrightarrow>
     (let s = g_stack k in preoperating (sk_dll s) \<and> dll_phy_mode (sk_dll s) = IOLINK_PHY_MODE_SDCI \<and>
      dll_t_pd_deadline_us (sk_dll s) = 0 \<and> link_up (world s) \<and> \<not> timed_out linux_platform s)"

lemma bytes_served_time: "bytes_served bs (snd (iolink_time_get_ms linux_platform s)) rs s' \<longleftrightarrow> bytes_served bs s rs s'"
  using line_state_time [of s] by (simp add: bytes_served_def time_get_ms_ctx line_state_def)

lemma process_bytes:
  assumes "acyclic_ready k" and "dll_isdu_process linux_platform (g_stack k) = Some s1"
    and "sk_dll s1 = (sk_dll (g_stack k))\<lparr>dll_isdu := i, dll_events := q, dll_ds := d\<rparr>" and "isdu_wf i" and "events_wf q"
    and "world s1 = world (g_stack k)"
    and "line_in (world (g_stack k)) = concat (map two_byte_frame bs)" and "IOLINK_MC_TRANSITION_COMMAND \<notin> set bs"
  shows "runs (iolink_process linux_platform k) (\<lambda>k'. \<exists>rs. bytes_served bs s1 rs (g_stack k'))"
proof -
  let ?s2 = "snd (iolink_time_get_ms linux_platform s1)"
  have c: "preoperating (sk_dll s1)"
    using assms(1,4,5) by (auto simp: acyclic_ready_def Let_def preoperating_def assms(3) dll_wf_def)
  have t: "timed_out linux_platform s1 = timed_out linux_platform (g_stack k)"
    using assms(6) by (intro timed_out_clock) (simp_all add: assms(3))
  have "iolink_dll_process linux_platform (g_stack k) = dll_rx_loop linux_platform 0 ?s2"
    using assms(1) t by (subst process_virtual [OF _ assms(2)]) (auto simp: acyclic_ready_def Let_def preoperating_def assms(3))
  moreover have "runs (dll_rx_loop linux_platform 0 ?s2) (\<lambda>s'. \<exists>rs. bytes_served bs ?s2 rs s')"
    using c assms(1,6-8) line_state_time [of s1]
    by (intro serve_bytes) (auto simp: time_get_ms_ctx line_state_def acyclic_ready_def Let_def)
  ultimately show ?thesis by (simp add: iolink_process_def bytes_served_time)
qed

lemma acyclic_answered:
  assumes "acyclic_ready k1" and "executing (isdu_view (g_stack k1))" and "holds_request (ReadReq i sub) (dll_isdu (sk_dll (g_stack k1)))"
    and "read_spec (isdu_view (g_stack k1)) i sub = Some bs" and "bs \<noteq> []"
    and "line_in (world (g_stack k1)) = concat (replicate (2 * length bs) (two_byte_frame 0))"
  shows "runs (iolink_process linux_platform k1) (\<lambda>k2. \<exists>rs.
     line_out (world (g_stack k2)) = line_out (world (g_stack k1)) @ concat (map two_byte_frame rs) \<and> decode_segments True 0 rs = Some bs)"
proof -
  let ?s = "g_stack k1"
  obtain e q d g where step: "dll_isdu_process linux_platform ?s =
      Some (?s\<lparr>sk_dll := (sk_dll ?s)\<lparr>dll_isdu := e, dll_events := q, dll_ds := d\<rparr>, sk_globals := g\<rparr>)" (is "_ = Some ?s1")
    and e: "answered bs e" "isdu_wf e" "events_wf q" "gl_world g = world ?s"
    by (rule read_service_step [OF assms(2-4)])
  have w: "world ?s1 = world ?s" "sk_dll ?s1 = (sk_dll ?s)\<lparr>dll_isdu := e, dll_events := q, dll_ds := d\<rparr>"
    using e(4) by (simp_all add: world_def)
  have "runs (iolink_process linux_platform k1) (\<lambda>k'. \<exists>rs. bytes_served (replicate (2 * length bs) 0) ?s1 rs (g_stack k'))"
    using assms(6) by (intro process_bytes [OF assms(1) step w(2) e(2,3) w(1)]) simp_all
  then show ?thesis
    using answer_fetched [OF e(1) assms(5)] w(1)
    by (elim runs_mono) (auto simp: bytes_served_def line_state_def)
qed

text \<open>The call after the one that collected the request answers it.\<close>

lemma acyclic_read_round:
  assumes "acyclic_ready k" and "globals_wf (sk_globals (g_stack k))" and "is_state (dll_isdu (sk_dll (g_stack k))) = ISDU_STATE_IDLE"
    and "read_spec (isdu_view (g_stack k)) i sub = Some bs" and "bs \<noteq> []"
    and a: "bytes_served (encode_request seq (ReadReq i sub)) (g_stack k) rs (g_stack k1)"
    and w: "line_in w = concat (replicate (2 * length bs) (two_byte_frame 0))" "link_up w" "\<not> timed_out linux_platform (set_world w (g_stack k1))"
  shows "runs (iolink_process linux_platform (mod_stack (set_world w) k1)) (\<lambda>k2. \<exists>rs.
     line_out (world (g_stack k2)) = line_out w @ concat (map two_byte_frame rs) \<and> decode_segments True 0 rs = Some bs)"
proof -
  let ?c = "sk_dll (g_stack k)" and ?c1 = "sk_dll (g_stack k1)" and ?s = "set_world w (g_stack k1)"
  have wf: "dll_wf ?c" using assms(1) by (simp add: acyclic_ready_def preoperating_def Let_def)
  have pre: "preoperating ?c1" "link_setup ?c1 = link_setup ?c" "service_env (g_stack k1) = service_env (g_stack k)"
    "od_stream (encode_request seq (ReadReq i sub)) (dll_isdu ?c) = Some (rs, dll_isdu ?c1)"
    using a by (simp_all add: bytes_served_def)
  have rq: "is_state (dll_isdu ?c1) = ISDU_STATE_SERVICE_EXECUTE" "holds_request (ReadReq i sub) (dll_isdu ?c1)"
    "isdu_bindings (dll_isdu ?c1) = isdu_bindings (dll_isdu ?c)" "isdu_wf (dll_isdu ?c1)"
    using request_collected [OF pre(4)] wf assms(3) by (simp_all add: dll_wf_def)
  have env: "dll_events ?c1 = dll_events ?c" "iolink_dll_get_stats ?c1 = iolink_dll_get_stats ?c"
    "gl_info (sk_globals ?s) = gl_info (sk_globals (g_stack k))" "g_nvm_shadow (sk_globals ?s) = g_nvm_shadow (sk_globals (g_stack k))"
    using pre(3) by (simp_all add: service_env_def set_world_def)
  have ex: "executing (isdu_view ?s)"
    using rq(1,4) pre(1) assms(2) env by (simp add: executing_def sys_wf_def isdu_view_def preoperating_def dll_wf_def globals_wf_def)
  have spec: "read_spec (isdu_view ?s) i sub = Some bs"
    using read_spec_env [of "isdu_view ?s" "isdu_view (g_stack k)"] env rq(3) assms(4) by (simp add: isdu_view_def)
  have op: "acyclic_ready (mod_stack (set_world w) k1)"
    using pre(1,2) w(2,3) assms(1) by (simp add: acyclic_ready_def Let_def link_setup_def)
  show ?thesis
    using acyclic_answered [OF op _ _ _ assms(5), of i sub] ex spec rq(2) w(1) by simp
qed

text \<open>
  C12: A read before the cyclic phase.  Before the master has sent the transition command, frames of
  two bytes carry the ISDU stream, the request byte being the first byte of the frame.  If the
  request holds no byte that looks like the transition command, the device answers each frame with
  a frame of two bytes; the next call of the main loop executes the request, and the frames it then
  finds fetch an answer that decodes to exactly the bytes \<open>read_spec\<close> gives.  The device is
  meanwhile in PREOPERATE and no cyclic data is exchanged.
\<close>

theorem session_preoperate_read:
  fixes k :: "host_world core"
  assumes "acyclic_ready k" and "globals_wf (sk_globals (g_stack k))" and "is_state (dll_isdu (sk_dll (g_stack k))) = ISDU_STATE_IDLE"
    and "line_in (world (g_stack k)) = concat (map two_byte_frame (encode_request seq (ReadReq i sub)))"
    and "IOLINK_MC_TRANSITION_COMMAND \<notin> set (encode_request seq (ReadReq i sub))"
    and "read_spec (isdu_view (g_stack k)) i sub = Some bs" and "bs \<noteq> []"
  shows "runs (iolink_process linux_platform k) (\<lambda>k1. before_connection (iolink_get_state k1) \<and>
     line_out (world (g_stack k1)) = line_out (world (g_stack k)) @ concat (replicate (length (encode_request seq (ReadReq i sub))) (two_byte_frame 0)) \<and>
     (\<forall>w. line_in w = concat (replicate (2 * length bs) (two_byte_frame 0)) \<and> link_up w \<and>
       \<not> timed_out linux_platform (set_world w (g_stack k1)) \<longrightarrow>
       runs (iolink_process linux_platform (mod_stack (set_world w) k1)) (\<lambda>k2. \<exists>rs.
         line_out (world (g_stack k2)) = line_out w @ concat (map two_byte_frame rs) \<and> decode_segments True 0 rs = Some bs)))"
proof -
  let ?c = "sk_dll (g_stack k)" and ?rq = "encode_request seq (ReadReq i sub)"
  have wf: "dll_wf ?c" using assms(1) by (simp add: acyclic_ready_def preoperating_def Let_def)
  have served: "runs (iolink_process linux_platform k) (\<lambda>k'. \<exists>rs. bytes_served ?rq (g_stack k) rs (g_stack k'))"
    using assms(1,3-5) wf
    by (intro process_bytes [where i = "dll_isdu ?c" and q = "dll_events ?c" and d = "dll_ds ?c"])
       (auto simp: isdu_process_idle dll_wf_def)
  have zeros: "rs = replicate (length ?rq) 0" if "od_stream ?rq (dll_isdu ?c) = Some (rs, c')" for rs c'
    using quiet_read_request [of "dll_isdu ?c" seq i sub] quiet_path_stream that assms(3) by fastforce
  show ?thesis
    by (rule runs_mono [OF served])
       (use acyclic_read_round [OF assms(1-3,6,7)] zeros in \<open>auto simp: bytes_served_def preoperating_def iolink_get_state_def line_state_def\<close>)
qed

definition demo_preoperate :: "bytes \<Rightarrow> host_world core" where
  "demo_preoperate bs =
     \<lparr>g_stack = set_world (demo_world\<lparr>line_in := concat (map two_byte_frame bs)\<rparr>)
        (mod_dll (\<lambda>c. c\<lparr>dll_frame_index := 0, dll_state := IOLINK_DLL_STATE_PREOPERATE\<rparr>) (demo_stack demo_frame)),
      g_config = demo_config\<rparr>"

lemma demo_preoperate_simps:
  "acyclic_ready (demo_preoperate bs)" "globals_wf (sk_globals (g_stack (demo_preoperate bs)))"
  "is_state (dll_isdu (sk_dll (g_stack (demo_preoperate bs)))) = ISDU_STATE_IDLE"
  "line_in (world (g_stack (demo_preoperate bs))) = concat (map two_byte_frame bs)"
  "read_spec (isdu_view (g_stack (demo_preoperate bs))) 0x0A 0 = Some [0xFF, 0xFF]"
proof -
  have wf: "dll_wf (sk_dll (demo_stack demo_frame))" by (rule demo_stack_wf) (simp_all add: demo_frame_valid)
  then show "acyclic_ready (demo_preoperate bs)"
    by (simp add: acyclic_ready_def preoperating_def demo_preoperate_def dll_wf_def timed_out_def before_connection_def Let_def)
       (simp add: demo_stack_def zero_dll_ctx_def demo_world_def link_up_def)
  show "read_spec (isdu_view (g_stack (demo_preoperate bs))) 0x0A 0 = Some [0xFF, 0xFF]"
    by (simp add: read_spec_def mandatory_spec_def isdu_view_def demo_preoperate_def set_world_def demo_stack_def mod_dll_def
        globals_static_def device_info_static_def current_info_def default_info_def u16_be_def)
qed (simp_all add: demo_preoperate_def demo_stack_def zero_dll_ctx_def zero_isdu_ctx_def globals_wf_def
       globals_wf_static [unfolded globals_wf_def] set_world_def demo_world_def world_def)

lemma session_preoperate_read_witness:
  "let rq = encode_request 0 (ReadReq 0x0A 0) in
   runs (iolink_process linux_platform (demo_preoperate rq)) (\<lambda>k1.
     runs (iolink_process linux_platform (mod_stack (set_world (demo_reply_world k1 (replicate 4 (two_byte_frame 0)))) k1))
       (\<lambda>k2. \<exists>rs. line_out (world (g_stack k2)) = concat (map two_byte_frame rs) \<and> decode_segments True 0 rs = Some [0xFF, 0xFF]))"
proof -
  let ?rq = "encode_request 0 (ReadReq 0x0A 0)"
  have nt: "IOLINK_MC_TRANSITION_COMMAND \<notin> set ?rq"
    by (simp add: encode_request_def index_bytes_def next_seq_def mk_ctrl_def)
  show ?thesis
    unfolding Let_def
  proof (rule runs_mono [OF session_preoperate_read [OF demo_preoperate_simps(1-4) nt demo_preoperate_simps(5)]])
    fix k1 :: "host_world core"
    let ?w = "demo_reply_world k1 (replicate 4 (two_byte_frame 0))"
    assume "before_connection (iolink_get_state k1) \<and>
     line_out (world (g_stack k1)) = line_out (world (g_stack (demo_preoperate ?rq))) @ concat (replicate (length ?rq) (two_byte_frame 0)) \<and>
     (\<forall>w. line_in w = concat (replicate (2 * length [0xFF :: u8, 0xFF]) (two_byte_frame 0)) \<and> link_up w \<and>
       \<not> timed_out linux_platform (set_world w (g_stack k1)) \<longrightarrow>
       runs (iolink_process linux_platform (mod_stack (set_world w) k1)) (\<lambda>k2. \<exists>rs.
         line_out (world (g_stack k2)) = line_out w @ concat (map two_byte_frame rs) \<and> decode_segments True 0 rs = Some [0xFF, 0xFF]))"
    then have all: "line_in w = concat (replicate (2 * length [0xFF :: u8, 0xFF]) (two_byte_frame 0)) \<and> link_up w \<and>
       \<not> timed_out linux_platform (set_world w (g_stack k1)) \<longrightarrow>
       runs (iolink_process linux_platform (mod_stack (set_world w) k1)) (\<lambda>k2. \<exists>rs.
         line_out (world (g_stack k2)) = line_out w @ concat (map two_byte_frame rs) \<and> decode_segments True 0 rs = Some [0xFF, 0xFF])" for w
      by blast
    have "2 * length [0xFF :: u8, 0xFF] = 4" by simp
    with all [of ?w] demo_reply_world_simps [of k1 "replicate 4 (two_byte_frame 0)"]
    show "runs (iolink_process linux_platform (mod_stack (set_world ?w) k1))
       (\<lambda>k2. \<exists>rs. line_out (world (g_stack k2)) = concat (map two_byte_frame rs) \<and> decode_segments True 0 rs = Some [0xFF, 0xFF])"
      by (simp only: append_Nil simp_thms)
  qed simp
qed

end
