(* ===== verification/Session_Events.thy ===== *)
theory Session_Events
  imports Master
begin

text \<open>
  Event delivery over cyclic frames.  The application triggers events; every response then
  carries the event flag; the master reads index 2, one event per read, until the flag is gone.
  The queue holds \<^verbatim>\<open>IOLINK_EVENT_QUEUE_SIZE\<close> events, 4 by default.
\<close>

section \<open>Polls\<close>

text \<open>One poll is a call that finds the request for index 2 and a call that finds four empty on-request bytes.\<close>

definition event_poll :: "host_world iolink_dll_ctx \<Rightarrow> master \<times> master \<Rightarrow> bool" where
  "event_poll c = (\<lambda>(ask, fetch). carries c (encode_request 0 (ReadReq IOLINK_IDX_SYSTEM_COMMAND 0)) ask \<and> carries c (replicate 4 0) fetch)"

fun poll_events :: "(master \<times> master) list \<Rightarrow> host_world core \<Rightarrow> ((bytes \<times> bytes) list \<times> host_world core) option" where
  "poll_events [] k = Some ([], k)"
| "poll_events ((ask, fetch) # ms) k = do {
     k1 \<leftarrow> call_with ask k;
     k2 \<leftarrow> call_with fetch k1;
     (outs, k3) \<leftarrow> poll_events ms k2;
     Some ((sent k1, sent k2) # outs, k3) }"

text \<open>
  What the responses to a poll say: those to the request have the event flag, those that carry
  the answer the code of the event, and the flag again if there are more.
\<close>

definition flagged :: "host_world iolink_dll_ctx \<Rightarrow> bool \<Rightarrow> bytes \<Rightarrow> bytes list \<Rightarrow> bool" where
  "flagged c b out rs \<longleftrightarrow> out = concat rs \<and> list_all (response_ok c) rs \<and> list_all (\<lambda>r. bit (hd r) 7 \<longleftrightarrow> b) rs"

fun reports :: "host_world iolink_dll_ctx \<Rightarrow> iolink_event list \<Rightarrow> (bytes \<times> bytes) list \<Rightarrow> bool" where
  "reports c [] outs \<longleftrightarrow> outs = []"
| "reports c (ev # evs) outs \<longleftrightarrow> (case outs of [] \<Rightarrow> False | (asked, fetched) # outs \<Rightarrow>
     (\<exists>rs. flagged c True asked rs) \<and>
     (\<exists>rs. flagged c (evs \<noteq> []) fetched rs \<and> decode_segments True 0 (concat (map (response_odata c) rs)) = Some (u16_be (ev_code ev))) \<and>
     reports c evs outs)"

section \<open>One poll\<close>

text \<open>In cyclic operation on the link of \<open>c\<close>, no request under way, \<open>evs\<close> pending.\<close>

definition polling :: "host_world iolink_dll_ctx \<Rightarrow> iolink_event list \<Rightarrow> host_world core \<Rightarrow> bool" where
  "polling c evs k \<longleftrightarrow> ready c k \<and> is_event_ctx (dll_isdu (sk_dll (g_stack k))) \<noteq> NULL \<and>
     events_list (dll_events (sk_dll (g_stack k))) = evs"

lemma polling_ready: "polling c evs k \<Longrightarrow> ready c k"
  by (simp add: polling_def)

lemma pending_iff: "events_wf q \<Longrightarrow> iolink_events_pending (Ref q) \<longleftrightarrow> events_list q \<noteq> []"
  using events_list_empty_iff [of q] by (auto simp: iolink_events_pending_def word_gt_0)

lemma reply_bindings: "on_isdu (isdu_reply bs) s = Some s' \<Longrightarrow> isdu_bindings (sy_isdu s') = isdu_bindings (sy_isdu s)"
  by (auto simp: on_isdu_def isdu_reply_def isdu_store_def isdu_ready_def isdu_bindings_def bind_eq_Some_conv)

lemma event_read_step:
  assumes "executing (isdu_view s)" and "holds_request (ReadReq IOLINK_IDX_SYSTEM_COMMAND 0) (dll_isdu (sk_dll s))"
    and "is_event_ctx (dll_isdu (sk_dll s)) \<noteq> NULL" and "dll_isdu_process plat s = Some s1"
  shows "events_list (dll_events (sk_dll s1)) = tl (events_list (dll_events (sk_dll s)))" "events_wf (dll_events (sk_dll s1))"
    "isdu_bindings (dll_isdu (sk_dll s1)) = isdu_bindings (dll_isdu (sk_dll s))" "globals_wf (sk_globals s1)"
proof -
  let ?y = "isdu_view s"
  have rq: "is_read (sy_isdu ?y)" "hdr_index (is_header (sy_isdu ?y)) = IOLINK_IDX_SYSTEM_COMMAND"
    using assms(2) by (simp_all add: isdu_view_def is_read_def)
  obtain y where y: "iolink_isdu_process plat ?y = Some y"
    and s1: "s1 = s\<lparr>sk_dll := (sk_dll s)\<lparr>dll_isdu := sy_isdu y, dll_events := sy_events y, dll_ds := sy_ds y\<rparr>, sk_globals := sy_globals y\<rparr>"
    using assms(4) by (auto simp: dll_isdu_process_def bind_eq_Some_conv)
  have eff: "sys_wf y" "read_effect IOLINK_IDX_SYSTEM_COMMAND ?y y"
    using isdu_read_process [OF assms(1) rq(1), of plat] y rq(2) by simp_all
  have "handle_standard_commands plat ?y = read_event_code ?y"
    using rq by (simp add: handle_standard_commands_def is_read_def is_write_def Let_def)
  then obtain y1 where y1: "read_event_code ?y = Some y1" "y = finish y1"
    using y by (auto simp: iolink_isdu_process_executing [OF assms(1)])
  have "isdu_bindings (sy_isdu y1) = isdu_bindings (sy_isdu ?y)"
    using y1(1) by (auto simp: read_event_code_def bind_eq_Some_conv dest!: reply_bindings)
  then show "isdu_bindings (dll_isdu (sk_dll s1)) = isdu_bindings (dll_isdu (sk_dll s))"
    using y1(2) by (simp add: s1 finish_def isdu_bindings_def isdu_view_def)
  show "events_list (dll_events (sk_dll s1)) = tl (events_list (dll_events (sk_dll s)))"
    using eff(2) assms(3) by (simp add: s1 read_effect_def isdu_view_def)
  show "events_wf (dll_events (sk_dll s1))" "globals_wf (sk_globals s1)" using eff(1) by (simp_all add: s1 sys_wf_def)
qed

text \<open>The call that finds the request: every response has the event flag.\<close>

lemma poll_asked:
  assumes "operating k0" and "polling (sk_dll (g_stack k0)) evs k" and "carries (sk_dll (g_stack k0)) od m"
  obtains fs where "concat (map (frame_odata (sk_dll (g_stack k))) fs) = od"
    and "runs (call_with m k) (\<lambda>k1. \<exists>rs. all_served fs (set_world (m k) (g_stack k)) rs (g_stack k1) \<and>
       flagged (sk_dll (g_stack k0)) (evs \<noteq> []) (sent k1) rs)"
proof -
  let ?c = "sk_dll (g_stack k0)"
  have r: "ready ?c k" and ev: "iolink_events_pending (Ref (dll_events (sk_dll (g_stack k)))) \<longleftrightarrow> evs \<noteq> []"
    using assms(2) pending_iff by (auto simp: polling_def ready_def cyclic_def dll_wf_def Let_def)
  obtain fs where fs: "concat (map (frame_odata (sk_dll (g_stack k))) fs) = od"
    and served: "runs (call_with m k) (\<lambda>k1. \<exists>rs. all_served fs (set_world (m k) (g_stack k)) rs (g_stack k1))"
    by (rule asked_served [OF assms(1) r assms(3)])
  have "line_out (m k) = []" using assms(3) by (simp add: carries_def)
  then have "runs (call_with m k) (\<lambda>k1. \<exists>rs. all_served fs (set_world (m k) (g_stack k)) rs (g_stack k1) \<and> flagged ?c (evs \<noteq> []) (sent k1) rs)"
    using ev readyD(3) [OF r]
    by (intro runs_mono [OF served]) (fastforce simp: all_served_def Let_def line_state_def flagged_def sent_def)
  with fs show ?thesis using that by blast
qed

text \<open>The frames that fetch the answer, once the read has been executed in \<open>s\<close>.\<close>

lemma poll_completes:
  assumes a: "all_served fs s rs (g_stack k)" and od: "concat (map (frame_odata c) fs) = replicate 4 0"
    and ls: "link_setup (sk_dll s) = link_setup c" and ok: "response_ok (sk_dll s) = response_ok c" and out: "line_out (world s) = []"
    and ans: "answered (u16_be code) (dll_isdu (sk_dll s))" and s: "events_wf (dll_events (sk_dll s))" "globals_wf (sk_globals s)"
      "is_event_ctx (dll_isdu (sk_dll s)) \<noteq> NULL"
  shows "polling c (events_list (dll_events (sk_dll s))) k \<and> flagged c (events_list (dll_events (sk_dll s)) \<noteq> []) (sent k) rs \<and>
     decode_segments True 0 (concat (map (response_odata c) rs)) = Some (u16_be code)"
proof (intro conjI)
  have "od_stream (replicate (2 * length (u16_be code)) 0) (dll_isdu (sk_dll s)) =
      Some (concat (map (response_odata c) rs), dll_isdu (sk_dll (g_stack k)))"
    using a od same_setup(3,4) [OF ls] by (simp add: all_served_def Let_def)
  note fetched = answer_fetched [OF ans _ this]
  show "decode_segments True 0 (concat (map (response_odata c) rs)) = Some (u16_be code)"
    by (rule fetched(1)) (simp add: u16_be_def)
  show "polling c (events_list (dll_events (sk_dll s))) k"
    using a s ls ok fetched(2,3) same_setup(5) [of "sk_dll (g_stack k)" "sk_dll s"]
    by (auto simp: polling_def ready_def all_served_def service_env_def globals_wf_def isdu_bindings_def u16_be_def Let_def)
  show "flagged c (events_list (dll_events (sk_dll s)) \<noteq> []) (sent k) rs"
    using a ok out pending_iff [OF s(1)] by (simp add: flagged_def sent_def all_served_def line_state_def Let_def)
qed

text \<open>The call that executes the read: the answer is the oldest event's code, and the event is gone.\<close>

lemma poll_fetched:
  assumes "polling c (ev # evs) k" and "operating (mod_stack (set_world w) k)"
    and "concat (map (frame_odata (sk_dll (g_stack k))) fs) = encode_request 0 (ReadReq IOLINK_IDX_SYSTEM_COMMAND 0)"
    and a: "all_served fs (set_world w (g_stack k)) rs (g_stack k1)" and m: "carries c (replicate 4 0) m"
  shows "runs (call_with m k1) (\<lambda>k2. polling c evs k2 \<and> (\<exists>rs. flagged c (evs \<noteq> []) (sent k2) rs \<and>
     decode_segments True 0 (concat (map (response_odata c) rs)) = Some (u16_be (ev_code ev))))"
proof -
  let ?k = "mod_stack (set_world w) k" and ?k1 = "mod_stack (set_world (m k1)) k1"
  obtain fs2 where f2: "line_in (m k1) = concat fs2" "\<forall>f \<in> set fs2. good_frame c f" "concat (map (frame_odata c) fs2) = replicate 4 0"
    and w: "line_out (m k1) = []" "link_up (m k1)" "\<not> timed_out linux_platform (set_world (m k1) (g_stack k1))"
    using m unfolding carries_def by blast
  have p: "link_setup (sk_dll (g_stack k)) = link_setup c" "response_ok (sk_dll (g_stack k)) = response_ok c"
    "globals_wf (sk_globals (set_world w (g_stack k)))" "is_state (dll_isdu (sk_dll (g_stack k))) = ISDU_STATE_IDLE"
    "is_event_ctx (dll_isdu (sk_dll (g_stack k))) \<noteq> NULL" "events_list (dll_events (sk_dll (g_stack k))) = ev # evs"
    using assms(1) by (simp_all add: polling_def ready_def Let_def set_world_def)
  have spec: "read_spec (isdu_view (set_world w (g_stack k))) IOLINK_IDX_SYSTEM_COMMAND 0 = Some (u16_be (ev_code ev))"
    using p(5,6) by (simp add: read_spec_def pending_def isdu_view_def)
  have d: "operating ?k1" "executing (isdu_view (g_stack ?k1))"
     "holds_request (ReadReq IOLINK_IDX_SYSTEM_COMMAND 0) (dll_isdu (sk_dll (g_stack ?k1)))"
     "read_spec (isdu_view (g_stack ?k1)) IOLINK_IDX_SYSTEM_COMMAND 0 = Some (u16_be (ev_code ev))"
     "is_event_ctx (dll_isdu (sk_dll (g_stack ?k1))) \<noteq> NULL"
     "link_setup (sk_dll (g_stack ?k1)) = link_setup c" "response_ok (sk_dll (g_stack ?k1)) = response_ok c"
    using read_delivered [of ?k fs 0 IOLINK_IDX_SYSTEM_COMMAND 0 rs k1 "m k1"] assms(2,3) a p w spec
    by (simp_all add: isdu_bindings_def)
  obtain s1 where s1: "dll_isdu_process linux_platform (g_stack ?k1) = Some s1" "answered (u16_be (ev_code ev)) (dll_isdu (sk_dll s1))"
      "world s1 = world (g_stack ?k1)" "link_setup (sk_dll s1) = link_setup c" "response_ok (sk_dll s1) = response_ok c"
    and served: "runs (call_with m k1) (\<lambda>k2. \<exists>rs. all_served fs2 s1 rs (g_stack k2))"
    unfolding call_with_def using read_exchange [OF d(1-4), of fs2] f2 same_setup(1) [OF d(6)] d(6,7) by auto
  note step = event_read_step [OF d(2,3,5) s1(1)]
  have "dll_events (sk_dll (g_stack k1)) = dll_events (sk_dll (g_stack k))"
    using a by (simp add: all_served_def service_env_def Let_def)
  with step(1) p(6) have evs: "events_list (dll_events (sk_dll s1)) = evs" by simp
  have "is_event_ctx (dll_isdu (sk_dll s1)) \<noteq> NULL" using step(3) d(5) by (simp add: isdu_bindings_def)
  note completes = poll_completes [OF _ f2(3) s1(4,5) _ s1(2) step(2,4) this, unfolded evs]
  show ?thesis
    by (rule runs_mono [OF served]) (use w(1) s1(3) completes in auto)
qed

section \<open>Polling until the flag is gone\<close>

lemma poll_reports:
  assumes "operating k0" and "polling (sk_dll (g_stack k0)) evs k" and "list_all (event_poll (sk_dll (g_stack k0))) ms" and "length ms = length evs"
  shows "runs (poll_events ms k) (\<lambda>(outs, k'). reports (sk_dll (g_stack k0)) evs outs \<and> polling (sk_dll (g_stack k0)) [] k')"
  using assms(2-4)
proof (induction ms arbitrary: evs k)
  case Nil
  then show ?case by simp
next
  case (Cons m ms)
  let ?c = "sk_dll (g_stack k0)"
  obtain ask fetch where m: "m = (ask, fetch)" by fastforce
  obtain ev evs' where evs: "evs = ev # evs'" using Cons.prems(3) by (cases evs) auto
  have c: "carries ?c (encode_request 0 (ReadReq IOLINK_IDX_SYSTEM_COMMAND 0)) ask" "carries ?c (replicate 4 0) fetch"
    using Cons.prems(2) by (simp_all add: m event_poll_def)
  obtain fs where fs: "concat (map (frame_odata (sk_dll (g_stack k))) fs) = encode_request 0 (ReadReq IOLINK_IDX_SYSTEM_COMMAND 0)"
    and asked: "runs (call_with ask k) (\<lambda>k1. \<exists>rs. all_served fs (set_world (ask k) (g_stack k)) rs (g_stack k1) \<and>
       flagged ?c (evs \<noteq> []) (sent k1) rs)"
    by (rule poll_asked [OF assms(1) Cons.prems(1) c(1)])
  note fetched = poll_fetched [OF Cons.prems(1) [unfolded evs] ready_operating [OF assms(1) polling_ready [OF Cons.prems(1)] c(1)] fs _ c(2)]
  have rest: "runs (poll_events ms k2) (\<lambda>(outs, k'). reports ?c evs' outs \<and> polling ?c [] k')" if "polling ?c evs' k2" for k2
    using Cons.IH [OF that] Cons.prems(2,3) evs by simp
  have "runs (call_with fetch k1) (\<lambda>k2. runs (poll_events ms k2) (\<lambda>x. reports ?c evs ((sent k1, sent k2) # fst x) \<and> polling ?c [] (snd x)))"
    if "all_served fs (set_world (ask k) (g_stack k)) rs (g_stack k1)" "flagged ?c (evs \<noteq> []) (sent k1) rs" for rs k1
    using that(2) by (intro runs_mono [OF fetched [OF that(1)]]) (auto simp: evs intro!: runs_mono [OF rest])
  then show ?case
    unfolding m poll_events.simps runs_bind runs_case_prod
    by (intro runs_mono [OF asked]) (auto elim!: runs_mono simp: split_beta)
qed

text \<open>The application's triggers, in the order of its calls.\<close>

definition trigger_all :: "iolink_event list \<Rightarrow> host_world core \<Rightarrow> host_world core option" where
  "trigger_all es k = fold_opt (\<lambda>k e. core_exec linux_platform (EventTrigger (ev_code e) (ev_type e)) k) k es"

lemma trigger_all_events:
  "trigger_all es k = map_option (\<lambda>q. mod_stack (mod_dll (dll_events_update (\<lambda>_. q))) k) (fold_opt push_event (dll_events (sk_dll (g_stack k))) es)"
proof (induction es arbitrary: k)
  case Nil
  then show ?case by (simp add: trigger_all_def mod_stack_def mod_dll_def)
next
  case (Cons e es)
  then show ?case
    by (cases "push_event (dll_events (sk_dll (g_stack k))) e")
       (simp_all add: trigger_all_def mod_events_def iolink_get_events_ctx_def push_event_def mod_stack_def mod_dll_def)
qed

lemma trigger_polling:
  assumes "polling c evs k"
  shows "runs (trigger_all es k) (polling c (drop (length (evs @ es) - IOLINK_EVENT_QUEUE_SIZE) (evs @ es)))"
proof -
  have p: "cyclic (sk_dll (g_stack k))" "events_list (dll_events (sk_dll (g_stack k))) = evs" "events_wf (dll_events (sk_dll (g_stack k)))"
    using assms by (simp_all add: polling_def ready_def cyclic_def dll_wf_def Let_def)
  have "polling c evs' (mod_stack (mod_dll (dll_events_update (\<lambda>_. q))) k)" if "events_wf q" "events_list q = evs'" for q evs'
  proof -
    have "link_setup (dll_events_update (\<lambda>_. q) (sk_dll (g_stack k))) = link_setup (sk_dll (g_stack k))" by (simp add: link_setup_def)
    moreover from same_setup(5) [OF this] have "response_ok (dll_events_update (\<lambda>_. q) (sk_dll (g_stack k))) = response_ok (sk_dll (g_stack k))"
      by simp
    ultimately show ?thesis
      using assms that by (simp add: polling_def ready_def cyclic_def dll_wf_def Let_def)
  qed
  then show ?thesis
    unfolding trigger_all_events runs_map_option
    by (intro runs_mono [OF evq.push_all [OF p(3)]]) (use p(2) in auto)
qed

text \<open>
  C8: Events reach the master.  On a device in cyclic operation with an empty queue the
  application triggers any number of events; then the master reads index 2 once for each of the
  last \<open>IOLINK_EVENT_QUEUE_SIZE\<close> of them (4 as \<^verbatim>\<open>config.h\<close> has it), over frames that also exchange process data.  Each poll takes two calls of the main loop:
  all responses to the request carry the event flag, the responses that follow decode to the
  code of the oldest event still queued, and carry the flag exactly if more are left.  So the
  codes arrive in the order of the triggers, an overflow loses the oldest events only, and when the
  flag is gone the queue is empty and the device is ready for the next request.
\<close>

theorem session_events:
  fixes k :: "host_world core" and es :: "iolink_event list"
  defines "c \<equiv> sk_dll (g_stack k)" and "kept \<equiv> drop (length es - IOLINK_EVENT_QUEUE_SIZE) es"
  assumes "operating k" and "globals_wf (sk_globals (g_stack k))" and "is_state (dll_isdu c) = ISDU_STATE_IDLE"
    and "is_event_ctx (dll_isdu c) \<noteq> NULL" and "events_list (dll_events c) = []"
    and "list_all (event_poll c) ms" and "length ms = length kept"
  shows "runs (trigger_all es k \<bind> poll_events ms) (\<lambda>(outs, k'). reports c kept outs \<and>
     \<not> iolink_events_pending (Ref (iolink_get_events_ctx k')) \<and> cyclic (sk_dll (g_stack k')) \<and>
     is_state (dll_isdu (sk_dll (g_stack k'))) = ISDU_STATE_IDLE)"
proof -
  have start: "polling c [] k"
    using assms(3-7) by (simp add: polling_def ready_def operating_def c_def Let_def)
  have over: "\<not> iolink_events_pending (Ref (iolink_get_events_ctx k')) \<and> cyclic (sk_dll (g_stack k')) \<and>
     is_state (dll_isdu (sk_dll (g_stack k'))) = ISDU_STATE_IDLE" if "polling c [] k'" for k'
    using that pending_iff by (auto simp: polling_def ready_def cyclic_def dll_wf_def iolink_get_events_ctx_def Let_def)
  have "runs (poll_events ms k1) (\<lambda>(outs, k'). reports c kept outs \<and>
     \<not> iolink_events_pending (Ref (iolink_get_events_ctx k')) \<and> cyclic (sk_dll (g_stack k')) \<and>
     is_state (dll_isdu (sk_dll (g_stack k'))) = ISDU_STATE_IDLE)" if "polling c kept k1" for k1
    using over by (intro runs_mono [OF poll_reports [OF assms(3), folded c_def, OF that assms(8,9)]]) auto
  then show ?thesis
    using trigger_polling [OF start, of es] by (auto simp: kept_def elim!: runs_mono)
qed

text \<open>The example device with its event queue bound, two events, a warning first.\<close>

lemma session_events_witness:
  "let k = mod_stack (mod_dll (dll_isdu_update (is_event_ctx_update (\<lambda>_. Ref ())))) (demo_operating []);
       e1 = \<lparr>ev_code = 0x1801, ev_type = IOLINK_EVENT_TYPE_WARNING\<rparr>; e2 = \<lparr>ev_code = 0x4000, ev_type = IOLINK_EVENT_TYPE_ERROR\<rparr>;
       ask = (\<lambda>k. demo_reply_world k (map (\<lambda>b. cyclic_frame [0xAA] [b]) (encode_request 0 (ReadReq IOLINK_IDX_SYSTEM_COMMAND 0))));
       fetch = (\<lambda>k. demo_reply_world k (replicate 4 (cyclic_frame [0xAA] [0]))) in
   runs (trigger_all [e1, e2] k \<bind> poll_events [(ask, fetch), (ask, fetch)]) (\<lambda>(outs, k').
     reports (sk_dll (g_stack k)) [e1, e2] outs \<and> \<not> iolink_events_pending (Ref (iolink_get_events_ctx k')))"
proof -
  let ?k = "mod_stack (mod_dll (dll_isdu_update (is_event_ctx_update (\<lambda>_. Ref ())))) (demo_operating [])"
  let ?c = "sk_dll (g_stack ?k)" and ?d = "sk_dll (g_stack (demo_operating []))"
  let ?e1 = "\<lparr>ev_code = 0x1801, ev_type = IOLINK_EVENT_TYPE_WARNING\<rparr>" and ?e2 = "\<lparr>ev_code = 0x4000, ev_type = IOLINK_EVENT_TYPE_ERROR\<rparr>"
  let ?ask = "\<lambda>k. demo_reply_world k (map (\<lambda>b. cyclic_frame [0xAA] [b]) (encode_request 0 (ReadReq IOLINK_IDX_SYSTEM_COMMAND 0)))"
  let ?fetch = "\<lambda>k. demo_reply_world k (replicate 4 (cyclic_frame [0xAA] [0]))"
  have ls: "link_setup ?c = link_setup ?d" by (simp add: link_setup_def)
  have g: "good_frame ?c (cyclic_frame [x] [b])" "frame_odata ?c (cyclic_frame [x] [b]) = [b]" for x b
    using same_setup(1,3) [OF ls] by (simp_all add: cyclic_frame_good demo_operating_simps)
  have "carries ?c od (\<lambda>k. demo_reply_world k fs)" if "\<forall>f \<in> set fs. good_frame ?c f" "concat (map (frame_odata ?c) fs) = od" for od fs
    using that demo_reply_world_simps unfolding carries_def by blast
  then have poll: "event_poll ?c (?ask, ?fetch)"
    using g unfolding event_poll_def prod.case by (auto simp: comp_def concat_map_singleton map_replicate_const)
  have op: "operating ?k" "globals_wf (sk_globals (g_stack ?k))" "is_state (dll_isdu ?c) = ISDU_STATE_IDLE"
    "is_event_ctx (dll_isdu ?c) \<noteq> NULL"
    using demo_operating_simps [of "[]"]
    by (simp_all add: operating_def cyclic_def dll_wf_def isdu_wf_unfold timed_out_def iolink_time_get_ms_def world_def split_beta Let_def)
  have none: "events_list (dll_events ?c) = []"
    by (simp add: events_list_empty_iff demo_operating_def demo_stack_def zero_dll_ctx_def zero_events_ctx_def)
  from session_events [OF op none, of "[(?ask, ?fetch), (?ask, ?fetch)]" "[?e1, ?e2]"] poll show ?thesis
    unfolding Let_def by (auto elim!: runs_mono)
qed

end
