(* ===== verification/Main_Loop.thy ===== *)
theory Main_Loop
  imports Core
begin

text \<open>
  What a call of the main loop keeps.  The locale \<open>outside_kept\<close> collects what the clock and the
  PHY leave alone of the outside, and shows that after the ISDU service step nothing in a call of
  \<^verbatim>\<open>iolink_dll_process\<close> changes it, nor the binding of the ISDU engine to a Data Storage context.  On
  that rests what the Data Storage commands of the master do in the stack as it is put together:
  \<^verbatim>\<open>iolink_dll_init\<close> binds no context, and no call binds one later.
\<close>

section \<open>The Data Storage context of the engine\<close>

abbreviation ds_binding :: "'w iolink_dll_ctx \<Rightarrow> unit ptr" where
  "ds_binding c \<equiv> is_ds_ctx (dll_isdu c)"

lemma isdu_reply_binding: "isdu_reply bs c = Some c' \<Longrightarrow> is_ds_ctx c' = is_ds_ctx c"
  by (auto simp: isdu_reply_def isdu_store_def isdu_ready_def bind_eq_Some_conv)

lemma collect_byte_binding: "iolink_isdu_collect_byte c b = Some (r, c') \<Longrightarrow> is_ds_ctx c' = is_ds_ctx c"
proof -
  have data: "is_ds_ctx c' = is_ds_ctx c" if "isdu_collect_data ph c b = Some (r, c')" for ph c c' r
    using that
    by (cases "is_state c") (auto simp: isdu_collect_data_def isdu_handle_idle_def Let_def bind_eq_Some_conv
        dest: isdu_reply_binding split: if_splits)
  have control: "is_ds_ctx (case x of Inl y \<Rightarrow> snd y | Inr y \<Rightarrow> y) = is_ds_ctx c" if "isdu_collect_control c b = Some x" for x
    using that
    by (auto simp: isdu_collect_control_def isdu_handle_idle_def Let_def bind_eq_Some_conv dest: isdu_reply_binding split: if_splits)
  assume run: "iolink_isdu_collect_byte c b = Some (r, c')"
  show ?thesis
  proof (cases "is_state c = ISDU_STATE_IDLE \<or> is_state c = ISDU_STATE_SEGMENT_COLLECT \<or> is_state c = ISDU_STATE_RESPONSE_READY")
    case True
    with run obtain x where x: "isdu_collect_control c b = Some x"
      "(case x of Inl y \<Rightarrow> Some y | Inr c \<Rightarrow> isdu_collect_data True c b) = Some (r, c')"
      by (auto simp: iolink_isdu_collect_byte_def Let_def bind_eq_Some_conv)
    then show ?thesis using control [OF x(1)] data by (cases x) fastforce+
  next
    case False
    then show ?thesis using run data by (simp add: iolink_isdu_collect_byte_def Let_def)
  qed
qed

lemma response_byte_binding: "iolink_isdu_get_response_byte c = Some (r, c') \<Longrightarrow> is_ds_ctx c' = is_ds_ctx c"
  by (auto simp: iolink_isdu_get_response_byte_def Let_def bind_eq_Some_conv split: if_splits)

lemma od_exchange_binding: "od_exchange b c = Some (r, c') \<Longrightarrow> is_ds_ctx c' = is_ds_ctx c"
  by (fastforce simp: od_exchange_def bind_eq_Some_conv dest: collect_byte_binding response_byte_binding)

lemma od_loop_binding: "od_loop n od c = Some (out, c') \<Longrightarrow> is_ds_ctx c' = is_ds_ctx c"
  unfolding od_loop_def
proof (induction n arbitrary: out c')
  case (Suc n)
  then show ?case by (fastforce simp: bind_eq_Some_conv dest: od_exchange_binding)
qed simp

section \<open>What clock and PHY leave alone\<close>

locale outside_kept =
  fixes plat :: "'w platform"
    and phy :: "'w iolink_phy_api"
    and h :: "'w \<Rightarrow> 'x"
  assumes time_us_kept: "h (snd (time_get_us plat w)) = h w"
    and time_ms_kept: "h (snd (time_get_ms plat w)) = h w"
    and baud_kept: "phy_set_baudrate phy = Ref f1 \<Longrightarrow> h (f1 r w) = h w"
    and mode_kept: "phy_set_mode phy = Ref f2 \<Longrightarrow> h (f2 m w) = h w"
    and send_kept: "phy_send phy = Ref f3 \<Longrightarrow> h (snd (f3 d w)) = h w"
    and recv_kept: "phy_recv_byte phy = Ref f4 \<Longrightarrow> h (snd (snd (f4 b w))) = h w"
    and wakeup_kept: "phy_detect_wakeup phy = Ref f5 \<Longrightarrow> h (snd (f5 w)) = h w"
    and voltage_kept: "phy_get_voltage_mv phy = Ref f6 \<Longrightarrow> h (snd (f6 w)) = h w"
    and short_kept: "phy_is_short_circuit phy = Ref f7 \<Longrightarrow> h (snd (f7 w)) = h w"
begin

text \<open>Steps that keep the bindings and \<open>h\<close>.\<close>

definition "same s s' \<longleftrightarrow> (dll_phy (sk_dll s) = Ref phy \<longrightarrow>
  dll_phy (sk_dll s') = Ref phy \<and> ds_binding (sk_dll s') = ds_binding (sk_dll s) \<and> h (world s') = h (world s))"

definition "kept s m \<longleftrightarrow> (\<forall>s'. m = Some s' \<longrightarrow> same s s')"

lemma same_refl [simp]: "same s s"
  by (simp add: same_def)

lemma same_trans: "same s s1 \<Longrightarrow> same s1 s2 \<Longrightarrow> same s s2"
  by (simp add: same_def)

lemma kept_simps [simp]: "kept s None" "kept s (Some s') \<longleftrightarrow> same s s'"
  by (simp_all add: kept_def)

lemma kept_from: "same s s1 \<Longrightarrow> kept s1 m \<Longrightarrow> kept s m"
  unfolding kept_def by (blast intro: same_trans)

lemma kept_bind:
  assumes "kept s m" and "\<And>s1. kept s1 (f s1)"
  shows "kept s (m \<bind> f)"
  using assms(1) kept_from [OF _ assms(2)] by (cases m) simp_all

lemma kept_pure: "(\<And>x. kept s (f x)) \<Longrightarrow> kept s (m \<bind> f)"
  by (cases m) simp_all

lemma same_mod [simp]: "(\<And>c. dll_phy (f c) = dll_phy c \<and> ds_binding (f c) = ds_binding c) \<Longrightarrow> same s (mod_dll f s)"
  by (simp add: same_def)

lemma kept_mod: "kept (mod_dll f s) m \<Longrightarrow> (\<And>c. dll_phy (f c) = dll_phy c \<and> ds_binding (f c) = ds_binding c) \<Longrightarrow> kept s m"
  by (rule kept_from [OF same_mod])

lemma kept_trigger: "kept s (dll_trigger code ty s)"
  by (cases "iolink_event_trigger (dll_events (sk_dll s)) code ty") (simp_all add: dll_trigger_def)

lemma time_step:
  "iolink_time_get_us plat s = (t, s1) \<Longrightarrow> same s s1" "iolink_time_get_ms plat s = (u, s2) \<Longrightarrow> same s s2"
  using time_us_kept [of "world s"] time_ms_kept [of "world s"]
  by (auto simp: same_def iolink_time_get_us_def iolink_time_get_ms_def split: prod.splits)

lemma kept_us:
  assumes "\<And>t s1. kept s1 (f t s1)"
  shows "kept s (case iolink_time_get_us plat s of (t, s1) \<Rightarrow> f t s1)"
  using kept_from [OF time_step(1) assms] by (simp split: prod.split)

lemma kept_ms:
  assumes "\<And>t s1. kept s1 (f t s1)"
  shows "kept s (case iolink_time_get_ms plat s of (t, s1) \<Rightarrow> f t s1)"
  using kept_from [OF time_step(2) assms] by (simp split: prod.split)

lemma kept_baudrate: "kept s (iolink_dll_set_baudrate r s)"
  by (auto simp: kept_def same_def iolink_dll_set_baudrate_def the_phy_def baud_kept Let_def split: ptr.splits)

lemma kept_mode: "kept s (iolink_dll_set_sio_mode s)" "kept s (iolink_dll_set_sdci_mode s)"
  by (auto simp: kept_def same_def iolink_dll_set_sio_mode_def iolink_dll_set_sdci_mode_def dll_set_mode_def the_phy_def mode_kept
      Let_def split: ptr.splits)

lemma kept_send: "kept s (dll_send d s)"
  by (auto simp: kept_def same_def dll_send_def the_phy_def send_kept split: ptr.splits)

lemmas kept_intros = kept_bind [OF kept_trigger] kept_bind [OF kept_mode(1)] kept_bind [OF kept_mode(2)] kept_bind [OF kept_baudrate]
  kept_trigger kept_mode kept_baudrate kept_send kept_us kept_ms

lemma kept_fallback: "kept s (dll_enter_fallback s)"
  unfolding dll_enter_fallback_def Let_def
  by (rule kept_mod [where f = "\<lambda>c. c\<lparr>dll_fallback_count := dll_fallback_count c + 1, dll_total_retries := dll_total_retries c + 1\<rparr>"])
     (auto intro!: kept_intros kept_mod [OF kept_trigger])

lemma kept_type0: "kept s (dll_handle_operate_type0 mc s)"
proof -
  have "kept s (dll_send d (mod_dll (\<lambda>c. c\<lparr>dll_isdu := isdu\<rparr>) s))"
    if "od_exchange mc (dll_isdu (sk_dll s)) = Some (r, isdu)" for r isdu d
    using od_exchange_binding [OF that] by (intro kept_from [OF _ kept_send]) (simp add: same_def)
  then show ?thesis
    by (cases "od_exchange mc (dll_isdu (sk_dll s))") (auto simp: dll_handle_operate_type0_def Let_def intro!: kept_pure)
qed

lemma kept_after_send: "kept s (dll_after_send plat s)"
proof -
  have "kept s1 (if b then dll_trigger code ty (mod_dll f (mod_dll (\<lambda>c. c\<lparr>dll_response_time_us := x c\<rparr>) s1))
      else Some (mod_dll (\<lambda>c. c\<lparr>dll_response_time_us := x c\<rparr>) s1))"
    if "\<And>c. dll_phy (f c) = dll_phy c \<and> ds_binding (f c) = ds_binding c" for b code ty f x s1
    by (rule kept_mod [where f = "\<lambda>c. c\<lparr>dll_response_time_us := x c\<rparr>"]) (simp_all add: kept_mod [OF kept_trigger that])
  then show ?thesis
    unfolding dll_after_send_def Let_def
    by (intro kept_mod [where f = "\<lambda>c. c\<lparr>dll_fallback_count := 0\<rparr>" and s = s] kept_us) simp_all
qed

lemma kept_transmit: "kept s (dll_transmit plat resp s)"
proof (cases "dll_phy (sk_dll s) = Ref phy")
  case True
  then have "kept s (case phy_send phy of NULL \<Rightarrow> Some s | Ref f \<Rightarrow> dll_after_send plat (set_world (snd (f resp (world s))) s))"
    using send_kept by (auto intro!: kept_from [OF _ kept_after_send] simp: same_def split: ptr.split)
  from kept_bind [OF this, of "\<lambda>s. case iolink_time_get_us plat s of (t, s) \<Rightarrow> Some (mod_dll (\<lambda>c. c\<lparr>dll_last_response_us := t\<rparr>) s)"] True
  show ?thesis by (simp add: dll_transmit_def the_phy_def kept_us)
qed (simp add: kept_def same_def)

lemma kept_receive: "dll_receive_frame c = Some (od, c') \<Longrightarrow> dll_phy c' = dll_phy c \<and> ds_binding c' = ds_binding c"
  by (auto simp: dll_receive_frame_def Let_def bind_eq_Some_conv dest: od_loop_binding split: if_splits)

lemma kept_type1_2: "kept s (dll_handle_operate_type1_2 plat s)"
proof -
  have "kept s (dll_build_response od c \<bind> (\<lambda>resp. dll_transmit plat resp (s\<lparr>sk_dll := c\<rparr>)))"
    if "dll_receive_frame (sk_dll s) = Some (od, c)" for od c
    using kept_receive [OF that] by (intro kept_pure kept_from [OF _ kept_transmit]) (simp add: same_def)
  then show ?thesis
    by (cases "dll_receive_frame (sk_dll s)") (auto simp: dll_handle_operate_type1_2_def)
qed

lemma kept_dispatch: "kept s (dll_dispatch plat s)"
proof -
  have pre: "same s (dll_handle_preoperate mc s)" for mc s by (simp add: dll_handle_preoperate_def)
  have reject: "kept s (dll_reject s)" for s unfolding dll_reject_def by (rule kept_mod [OF kept_fallback]) simp
  have "kept s (dll_dispatch_preoperate mc s)" "kept s (dll_dispatch_estab_com plat mc s)" "kept s (dll_dispatch_operate plat mc s)" for mc s
    unfolding dll_dispatch_preoperate_def dll_dispatch_estab_com_def dll_dispatch_operate_def
    by (auto simp: pre intro: kept_type0 kept_type1_2 reject kept_mod [OF kept_type1_2])
  then have "kept s (arr_get (dll_frame_buf (sk_dll s)) 0 \<bind> (\<lambda>mc.
     if dll_state (sk_dll s) = IOLINK_DLL_STATE_PREOPERATE then dll_dispatch_preoperate mc s
     else if dll_state (sk_dll s) = IOLINK_DLL_STATE_ESTAB_COM then dll_dispatch_estab_com plat mc s
     else if dll_state (sk_dll s) = IOLINK_DLL_STATE_OPERATE then dll_dispatch_operate plat mc s
     else Some s))" for s
    by (intro kept_pure) simp
  moreover have "same s (dll_first_frame s)" by (simp add: dll_first_frame_def)
  ultimately show ?thesis
    unfolding dll_dispatch_def Let_def by (blast intro: kept_from)
qed

lemma kept_cycle_timing: "kept s (dll_cycle_timing plat s)"
  unfolding dll_cycle_timing_def Let_def
  by (intro kept_us kept_bind) (simp_all add: kept_mod [OF kept_trigger])

lemma kept_frame_complete: "kept s (dll_frame_complete plat s)"
proof -
  have bad: "kept s (dll_bad_crc s)" for s unfolding dll_bad_crc_def by (rule kept_mod [OF kept_fallback]) simp
  show ?thesis
    unfolding dll_frame_complete_def
    by (intro kept_bind [OF kept_cycle_timing] kept_pure kept_bind) (simp_all add: kept_dispatch bad)
qed

lemma kept_byte_violation: "kept s (dll_byte_violation s)"
  unfolding dll_byte_violation_def by (intro kept_bind) (simp_all add: kept_mod [OF kept_trigger])

lemma kept_rx_byte: "kept s (dll_rx_byte plat b s)"
proof -
  have timing: "kept s (dll_rx_timing t s)" for t s
    unfolding dll_rx_timing_def by (intro kept_bind) (simp_all add: kept_byte_violation)
  have store: "dll_phy c' = dll_phy c \<and> ds_binding c' = ds_binding c" if "dll_store_byte t b c = Some c'" for t c c'
    using that by (auto simp: dll_store_byte_def bind_eq_Some_conv split: if_splits)
  have "kept s (dll_store_byte t b (sk_dll s) \<bind> (\<lambda>c. if P c then dll_frame_complete plat (s\<lparr>sk_dll := c\<rparr>) else Some (s\<lparr>sk_dll := c\<rparr>)))"
    for t P s
    using store [of t "sk_dll s"]
    by (cases "dll_store_byte t b (sk_dll s)") (auto simp: same_def intro!: kept_from [OF _ kept_frame_complete])
  then show ?thesis
    unfolding dll_rx_byte_def Let_def
    by (intro kept_us kept_ms kept_bind kept_mod [OF timing]) simp_all
qed

lemma kept_rx_loop: "kept s (dll_rx_loop plat b s)"
proof -
  have "p = plat \<longrightarrow> same s s'" if "dll_rx_loop p b s = Some s'" for p s'
  proof (rule dll_rx_loop.raw_induct [where P = "\<lambda>p b s s'. p = plat \<longrightarrow> same s s'", OF _ that])
    fix loop :: "'w platform \<Rightarrow> u8 \<Rightarrow> 'w stack \<Rightarrow> 'w stack option" and p b s s'
    assume ih: "\<And>p b s y. loop p b s = Some y \<Longrightarrow> p = plat \<longrightarrow> same s y"
      and run: "Option.bind (the_phy s) (\<lambda>phy. case phy_recv_byte phy of NULL \<Rightarrow> Some s | Ref recv \<Rightarrow>
           (case recv b (world s) of (n, byte, w) \<Rightarrow>
              if n > 0 then Option.bind (dll_rx_byte p byte (set_world w s)) (loop p byte) else Some (set_world w s))) = Some s'"
    have same_w: "same s (set_world w s)" if "phy_recv_byte phy = Ref recv" "recv b (world s) = (n, b', w)" for recv n b' w
      using recv_kept [OF that(1), of b "world s"] that(2) by (simp add: same_def)
    have more: "same s s'" if "dll_rx_byte p b' (set_world w s) \<bind> loop p b' = Some s'" "p = plat" "same s (set_world w s)" for w b'
      using kept_bind [OF kept_rx_byte [of "set_world w s" b'], of "loop p b'"] ih that
      by (auto simp: kept_def intro: same_trans)
    show "p = plat \<longrightarrow> same s s'"
    proof (cases "dll_phy (sk_dll s) = Ref phy")
      case True
      with run same_w more show ?thesis
        by (auto simp: the_phy_def split: ptr.splits prod.splits if_splits)
    qed (simp add: same_def)
  qed
  then show ?thesis by (simp add: kept_def)
qed

lemma drain_loop_kept:
  assumes "phy_recv_byte phy = Ref recv" and "drain_rx_loop recv b saw w = Some r"
  shows "h (snd r) = h w"
proof -
  have "f = recv \<longrightarrow> h (snd r) = h w" if "drain_rx_loop f b saw w = Some r" for f
  proof (rule drain_rx_loop.raw_induct [where P = "\<lambda>f b saw w r. f = recv \<longrightarrow> h (snd r) = h w", OF _ that])
    fix loop :: "(u8 \<Rightarrow> 'w \<Rightarrow> int \<times> u8 \<times> 'w) \<Rightarrow> u8 \<Rightarrow> bool \<Rightarrow> 'w \<Rightarrow> (bool \<times> 'w) option" and f b saw w r
    assume ih: "\<And>f b saw w y. loop f b saw w = Some y \<Longrightarrow> f = recv \<longrightarrow> h (snd y) = h w"
      and run: "(case f b w of (n, byte, w) \<Rightarrow> if 0 < n then loop f byte True w else Some (saw, w)) = Some r"
    obtain n b' w' where f: "f b w = (n, b', w')" by (cases "f b w") auto
    with run ih [of f b' True w' r] recv_kept [OF assms(1), of b w] show "f = recv \<longrightarrow> h (snd r) = h w"
      by (cases "0 < n") auto
  qed
  with assms(2) show ?thesis by blast
qed

lemma kept_t_pd: "kept s (dll_t_pd_phase s)"
proof -
  have "same s s1" if "dll_drain_rx s = Some (saw, s1)" for saw s1
    using that drain_loop_kept by (fastforce simp: dll_drain_rx_def same_def split: ptr.splits)
  then have "kept s (if saw then dll_trigger code ty (mod_dll f s1) else Some s1)"
    if "dll_drain_rx s = Some (saw, s1)" "\<And>c. dll_phy (f c) = dll_phy c \<and> ds_binding (f c) = ds_binding c" for saw s1 code ty f
    using that by (cases saw) (simp_all add: kept_from [OF _ kept_mod [OF kept_trigger]])
  then show ?thesis
    by (cases "dll_drain_rx s") (auto simp: dll_t_pd_phase_def split: prod.split simp del: kept_simps(2))
qed

lemma kept_sio: "kept s (dll_sio_phase plat s)"
proof (cases "dll_phy (sk_dll s) = Ref phy \<and> dll_frame_index (sk_dll s) = 0 \<and> phy_detect_wakeup phy \<noteq> NULL")
  case True
  then obtain f where f: "phy_detect_wakeup phy = Ref f" by (cases "phy_detect_wakeup phy") auto
  obtain r w where w: "f (world s) = (r, w)" by fastforce
  have "same s (set_world w s)" using wakeup_kept [OF f, of "world s"] w True by (simp add: same_def)
  moreover have "kept (set_world w s) (case iolink_time_get_us plat (mod_dll (\<lambda>c. c\<lparr>dll_wakeup_seen := True,
      dll_state := IOLINK_DLL_STATE_AWAITING_COMM\<rparr>) (set_world w s)) of
      (t, s) \<Rightarrow> iolink_dll_set_sdci_mode (mod_dll (\<lambda>c. c\<lparr>dll_wakeup_deadline_us := t + IOLINK_T_DWU_US\<rparr>) s))"
    by (rule kept_mod [OF kept_us]) (auto intro!: kept_mod [OF kept_mode(2)])
  ultimately show ?thesis
    using True f w by (auto simp: dll_sio_phase_def the_phy_def Let_def intro: kept_from)
next
  case False
  then show ?thesis
    by (auto simp: dll_sio_phase_def the_phy_def kept_def same_def split: ptr.splits)
qed

lemma kept_communicate: "kept s (dll_communicate plat s)"
proof -
  have timeout: "kept s (dll_byte_timeout plat s)" for s
    by (simp add: dll_byte_timeout_def kept_us kept_bind [OF kept_byte_violation] kept_fallback)
  have "same s s1" if "dll_wakeup_wait plat s = (wait, s1)" for s wait s1
    using that by (auto simp: dll_wakeup_wait_def Let_def dest: time_step(1) split: prod.splits if_splits)
  then have "kept s (case dll_wakeup_wait plat s of (wait, s) \<Rightarrow> if wait then Some s else dll_rx_loop plat 0 s)" for s
    by (cases "dll_wakeup_wait plat s") (auto intro: kept_from [OF _ kept_rx_loop])
  then show ?thesis
    unfolding dll_communicate_def by (rule kept_bind [OF timeout])
qed

lemma kept_inactivity: "kept s (dll_inactivity plat s)"
proof -
  have "kept s ((if sio then iolink_dll_set_baudrate r (mod_dll f s) \<bind> iolink_dll_set_sio_mode else Some (mod_dll f s)) \<bind>
      (\<lambda>s. Some (mod_dll g s)))" if "\<And>c. dll_phy (f c) = dll_phy c \<and> ds_binding (f c) = ds_binding c" "\<And>c. dll_phy (g c) = dll_phy c \<and> ds_binding (g c) = ds_binding c" for sio r f g s
    using that by (intro kept_bind kept_mod [of f s]) (simp_all add: kept_bind [OF kept_baudrate kept_mode(1)])
  then show ?thesis
    unfolding dll_inactivity_def Let_def by (intro kept_ms) simp
qed

lemma kept_poll: "kept s (dll_poll_diagnostics s)"
proof (cases "dll_phy (sk_dll s) = Ref phy")
  case True
  have "kept s (dll_poll_voltage phy s)" "kept s (dll_poll_short phy s)" for s
    using voltage_kept [of _ "world s"] short_kept [of _ "world s"]
    by (auto simp: dll_poll_voltage_def dll_poll_short_def same_def split: ptr.splits prod.splits
        intro!: kept_from [OF _ kept_trigger])
  with True show ?thesis by (simp add: dll_poll_diagnostics_def kept_bind)
qed (simp add: kept_def same_def)

text \<open>After its service step a call of the process function keeps \<open>h\<close> and the binding.\<close>

lemma process_kept:
  assumes "dll_phy (sk_dll s) = Ref phy" and "dll_isdu_process plat s = Some s1" and "dll_phy (sk_dll s1) = Ref phy"
    and "iolink_dll_process plat s = Some s'"
  shows "h (world s') = h (world s1) \<and> ds_binding (sk_dll s') = ds_binding (sk_dll s1)"
proof -
  have active: "same s (snd (dll_t_pd_active plat s))" for s
    by (auto simp: dll_t_pd_active_def dest: time_step(1) split: prod.split)
  have "kept s (case dll_t_pd_active plat s of (active, s) \<Rightarrow>
          if active then dll_t_pd_phase s
          else if dll_phy_mode (sk_dll s) = IOLINK_PHY_MODE_SIO then dll_sio_phase plat s
          else dll_communicate plat s)" for s
    using active [of s] by (cases "dll_t_pd_active plat s") (auto intro: kept_from simp: kept_t_pd kept_sio kept_communicate)
  then have "kept s1 (dll_poll_diagnostics s1 \<bind> (\<lambda>s. dll_inactivity plat s \<bind> (\<lambda>s. case dll_t_pd_active plat s of (active, s) \<Rightarrow>
          if active then dll_t_pd_phase s
          else if dll_phy_mode (sk_dll s) = IOLINK_PHY_MODE_SIO then dll_sio_phase plat s
          else dll_communicate plat s)))"
    by (intro kept_bind [OF kept_poll] kept_bind [OF kept_inactivity])
  with assms show ?thesis
    by (simp add: iolink_dll_process_def kept_def same_def)
qed

end


section \<open>The service step and the calls of the application\<close>

text \<open>No handler of a request changes the binding.\<close>

definition binding_kept :: "'w isdu_sys \<Rightarrow> 'w isdu_sys option \<Rightarrow> bool" where
  "binding_kept s m \<longleftrightarrow> (\<forall>s'. m = Some s' \<longrightarrow> is_ds_ctx (sy_isdu s') = is_ds_ctx (sy_isdu s))"

lemma binding_kept_simps [simp]:
  "binding_kept s None" "binding_kept s (Some s') \<longleftrightarrow> is_ds_ctx (sy_isdu s') = is_ds_ctx (sy_isdu s)"
  by (simp_all add: binding_kept_def)

lemma binding_kept_bind: "(\<And>x. m = Some x \<Longrightarrow> binding_kept s (f x)) \<Longrightarrow> binding_kept s (m \<bind> f)"
  by (cases m) simp_all

lemma binding_kept_from:
  "binding_kept s1 m \<Longrightarrow> is_ds_ctx (sy_isdu s1) = is_ds_ctx (sy_isdu s) \<Longrightarrow> binding_kept s m"
  by (simp add: binding_kept_def)

lemma replies_binding:
  assumes "is_ds_ctx (sy_isdu s0) = is_ds_ctx (sy_isdu s)"
  shows "binding_kept s0 (on_isdu (isdu_reply bs) s)" "binding_kept s0 (on_isdu (isdu_reply_seq0 bs) s)"
    "binding_kept s0 (on_isdu (isdu_error e) s)" "binding_kept s0 (on_isdu (isdu_store bs) s)"
    "binding_kept s0 (on_isdu (reply_string str) s)"
    "(\<And>c. is_ds_ctx (g c) = is_ds_ctx c) \<Longrightarrow> binding_kept s0 (on_isdu (\<lambda>c. Some (g c)) s)"
  using assms
  by (auto simp: binding_kept_def on_isdu_def isdu_reply_seq0_def isdu_error_def isdu_store_def reply_string_def isdu_ready_def
      Let_def bind_eq_Some_conv dest!: isdu_reply_binding split: ptr.split_asm)

lemma handlers_binding:
  "binding_kept s (handle_tag plat i b s)" "binding_kept s (device_status s)" "binding_kept s (mandatory_detailed_status s)"
  "binding_kept s (ds_command f err s)" "binding_kept s (handle_access_locks s)" "binding_kept s (read_event_code s)"
  "binding_kept s (handle_detailed_device_status s)" "binding_kept s (handle_error_stats s)"
  unfolding handle_tag_def handle_tag_write_def handle_tag_read_def device_status_def mandatory_detailed_status_def
    ds_command_def handle_access_locks_def get_access_locks_def read_event_code_def handle_detailed_device_status_def
    handle_error_stats_def Let_def
  by (auto simp: isdu_ready_def split: prod.splits intro!: binding_kept_bind replies_binding)

lemma system_command_binding: "binding_kept s (handle_system_command plat cmd s)"
proof -
  have "binding_kept s (on_isdu (\<lambda>c. isdu_reply [] (g c)) s)" if "\<And>c. is_ds_ctx (g c) = is_ds_ctx c" for g
    using that by (auto simp: binding_kept_def on_isdu_def dest!: isdu_reply_binding)
  moreover have "binding_kept s (case get_access_locks s of (locks, s) \<Rightarrow> ds_command (f locks) err s)" for f err
    by (auto simp: get_access_locks_def split: prod.split intro: binding_kept_from [OF handlers_binding(4)])
  ultimately show ?thesis
    unfolding handle_system_command_def
    by (auto intro!: binding_kept_bind replies_binding handlers_binding(4))
qed

lemma mandatory_binding: "binding_kept s (handle_mandatory_indices plat s)"
  unfolding handle_mandatory_indices_def Let_def
  by (auto split: prod.split option.split intro: replies_binding binding_kept_from [OF handlers_binding(1)]
      binding_kept_from [OF handlers_binding(2)] binding_kept_from [OF handlers_binding(3)])

lemma isdu_process_binding:
  assumes "iolink_isdu_process plat s = Some s'"
  shows "is_ds_ctx (sy_isdu s') = is_ds_ctx (sy_isdu s)"
proof -
  have "binding_kept s (handle_standard_commands plat s)"
    using handlers_binding(8) [of s]
    by (auto simp: handle_standard_commands_def Let_def isdu_ready_def binding_kept_def [of s "Some s1" for s1]
        intro!: binding_kept_bind replies_binding system_command_binding mandatory_binding handlers_binding
        simp: binding_kept_def [of s "handle_error_stats s"])
  with assms show ?thesis
    by (auto simp: iolink_isdu_process_def Let_def bind_eq_Some_conv binding_kept_def split: if_splits)
qed

text \<open>With nothing of the outside in view, the locale holds of every platform and PHY.\<close>

interpretation any_phy: outside_kept plat phy "\<lambda>_. ()" for plat phy
  by unfold_locales simp_all

lemma process_binding:
  assumes "iolink_dll_process plat s = Some s'" and "dll_phy (sk_dll s) = Ref phy"
  shows "ds_binding (sk_dll s') = ds_binding (sk_dll s)"
proof -
  obtain s1 where s1: "dll_isdu_process plat s = Some s1"
    using assms by (auto simp: iolink_dll_process_def bind_eq_Some_conv)
  then have "dll_phy (sk_dll s1) = Ref phy" "ds_binding (sk_dll s1) = ds_binding (sk_dll s)"
    using assms(2) by (auto simp: dll_isdu_process_def isdu_view_def bind_eq_Some_conv dest!: isdu_process_binding)
  then show ?thesis
    using any_phy.process_kept [OF assms(2) s1 _ assms(1)] by simp
qed

lemma init_binding:
  assumes "iolink_init plat p config k = Some (r, k')" and "ds_binding (sk_dll (g_stack k)) = NULL"
  shows "ds_binding (sk_dll (g_stack k')) = NULL"
proof -
  have t_pd: "dll_isdu (sk_dll (apply_t_pd plat s)) = dll_isdu (sk_dll s)" for s
    using apply_t_pd_simps(1) [of plat s] by auto
  have store: "g_stack (core_store_config config k) = g_stack k" by (simp add: core_store_config_def split: ptr.split)
  show ?thesis
    using assms
    by (auto simp: iolink_init_def core_phy_init_def iolink_dll_init_eq Let_def bind_eq_Some_conv t_pd apply_lengths_def apply_config_def
        booted_ctx_simps store split: ptr.splits prod.splits if_splits)
qed

lemma exec_binding:
  assumes "core_exec plat c k = Some k'" and "dll_phy (sk_dll (g_stack k)) = Ref phy" and "ds_binding (sk_dll (g_stack k)) = NULL"
  shows "ds_binding (sk_dll (g_stack k')) = NULL"
proof (cases "c = Process \<or> (\<exists>p config. c = Init p config)")
  case True
  then show ?thesis
    using assms process_binding [of plat "g_stack k"] init_binding [of plat] by (auto simp: iolink_process_def)
next
  case False
  then show ?thesis
    using assms(1,3)
    by (cases c) (auto simp: mod_events_def mod_ds_def mod_globals_def iolink_set_timing_enforcement_def iolink_set_t_ren_limit_us_def
        iolink_dll_set_timing_enforcement_def iolink_dll_set_t_ren_limit_us_def iolink_pd_input_update_def
        bind_eq_Some_conv split: ptr.splits if_splits)
qed

text \<open>From a started stack no sequence of calls binds a Data Storage context.\<close>

context link_env
begin

lemma reaches_unbound:
  assumes "core_reaches plat (call_ok plat phy) k k'" and "live phy (\<lambda>_. True) (g_stack k)" and "ds_binding (sk_dll (g_stack k)) = NULL"
  shows "live phy (\<lambda>_. True) (g_stack k') \<and> ds_binding (sk_dll (g_stack k')) = NULL"
  using assms
proof (induction rule: core_reaches.induct)
  case (step k k1 c k2)
  then show ?case
    using exec_safe [of k1 c] exec_binding [OF step.hyps(3)] by (auto simp: live_def)
qed simp

end

section \<open>The Data Storage commands of the master\<close>

definition ds_commands :: "u8 list" where
  "ds_commands = [IOLINK_CMD_PARAM_DOWNLOAD_START, IOLINK_CMD_PARAM_DOWNLOAD_END, IOLINK_CMD_PARAM_UPLOAD_START,
     IOLINK_CMD_PARAM_UPLOAD_END, IOLINK_CMD_PARAM_UPLOAD, IOLINK_CMD_PARAM_DOWNLOAD, IOLINK_CMD_PARAM_BREAK]"

text \<open>A written system command waits for execution.\<close>

definition command_pending :: "u8 \<Rightarrow> iolink_isdu_ctx \<Rightarrow> bool" where
  "command_pending cmd c \<longleftrightarrow> is_state c = ISDU_STATE_SERVICE_EXECUTE \<and> is_write c \<and>
     hdr_index (is_header c) = IOLINK_IDX_SYSTEM_COMMAND \<and> 0 < is_buffer_idx c \<and> is_buffer c ! 0 = cmd"

lemma unbound_command:
  assumes "live phy J s" and "ds_binding (sk_dll s) = NULL" and "command_pending cmd (dll_isdu (sk_dll s))" and "cmd \<in> set ds_commands"
  shows "runs (dll_isdu_process plat s) (\<lambda>s'. answered [] (dll_isdu (sk_dll s')) \<and> dll_ds (sk_dll s') = dll_ds (sk_dll s) \<and>
     sk_globals s' = sk_globals s)"
proof -
  let ?y = "isdu_view s"
  have ex: "executing ?y"
    using assms(1,3) by (simp add: executing_def sys_wf_def isdu_view_def live_def stack_wf_def dll_wf_def command_pending_def)
  have "runs (iolink_isdu_process plat ?y) (\<lambda>y. answered [] (sy_isdu y) \<and> sy_ds y = sy_ds ?y \<and> sy_globals y = sy_globals ?y)"
    using assms(2-4) sys_wfD(1) [OF executing_sys_wf [OF ex]]
    by (subst system_command_process [OF ex])
       (auto simp: command_pending_def isdu_view_def ds_commands_def handle_system_command_def ds_command_def runs_on_isdu finish_answered
          intro!: runs_mono [OF isdu_reply_prepared])
  then show ?thesis
    by (auto simp: dll_isdu_process_def isdu_view_def intro!: runs_bind elim!: runs_mono)
qed



end
