(* ===== verification/Persistence.thy ===== *)
theory Persistence
  imports Session_Write Main_Loop
begin

text \<open>
  What the stack does to the non-volatile memory.  With its file for the part of the outside that
  \<open>outside_kept\<close> is about, only write requests and the application reach the memory.  Then a
  restart: which stored tags come back, and a tag written over the line.
\<close>

section \<open>The non-volatile memory in the main loop\<close>

text \<open>The file of the host port, and how calls on it go.\<close>

definition nvm_part :: "'a linux_world_scheme \<Rightarrow> bytes option \<times> stdio" where
  "nvm_part w = (lw_nvm_file w, lw_stdio w)"

lemma clock_keeps_nvm: "nvm_part (snd (clock_gettime w)) = nvm_part w"
  by (simp add: nvm_part_def clock_gettime_def split: list.split)

interpretation host_nvm: outside_kept linux_platform iolink_phy_virtual_get nvm_part
proof
  show "nvm_part (snd (time_get_us linux_platform w)) = nvm_part w" "nvm_part (snd (time_get_ms linux_platform w)) = nvm_part w" for w :: host_world
    using clock_keeps_nvm [of w]
    by (auto simp: linux_platform_def linux_time_get_us_def linux_time_get_ms_def split: prod.splits)
qed (auto simp: iolink_phy_virtual_get_def nvm_part_def virtual_set_baudrate_def virtual_set_mode_def virtual_send_def
    os_write_call_def Let_def virtual_recv_byte_def os_read1_def virtual_detect_wakeup_def split: list.splits prod.splits)

lemma read_step_world:
  assumes "live p J s" and "is_state (dll_isdu (sk_dll s)) = ISDU_STATE_SERVICE_EXECUTE \<longrightarrow> is_read (dll_isdu (sk_dll s))"
  shows "runs (dll_isdu_process plat s) (\<lambda>s1. world s1 = world s \<and> dll_phy (sk_dll s1) = dll_phy (sk_dll s))"
proof (cases "is_state (dll_isdu (sk_dll s)) = ISDU_STATE_SERVICE_EXECUTE")
  case True
  then have ex: "executing (isdu_view s)"
    using assms(1) by (simp add: executing_def sys_wf_def isdu_view_def live_def stack_wf_def dll_wf_def)
  have "runs (iolink_isdu_process plat (isdu_view s)) (\<lambda>y. gl_world (sy_globals y) = world s)"
    by (rule runs_mono [OF isdu_read_process [OF ex]])
       (use True assms(2) in \<open>auto simp: isdu_view_def read_effect_def installed_def world_def\<close>)
  then show ?thesis
    by (auto simp: dll_isdu_process_def world_def intro!: runs_bind elim!: runs_mono)
next
  case False
  then show ?thesis by (simp add: isdu_process_idle)
qed

lemma params_init_keeps_world:
  fixes g :: "host_world globals"
  assumes "iolink_params_init linux_platform g = Some g'"
  shows "gl_world g' = gl_world g"
proof -
  obtain r b w where rd: "nvm_read linux_platform 0 (params_bytes (g_nvm_shadow g)) (gl_world g) = (r, b, w)"
    by (metis prod_cases3)
  moreover from rd have "w = gl_world g"
    by (auto simp: linux_platform_def linux_nvm_read_def Let_def split: if_splits option.splits prod.splits)
  ultimately show ?thesis
    using assms by (auto simp: iolink_params_init_def Let_def bind_eq_Some_conv split: if_splits prod.splits)
qed

lemma init_keeps_nvm:
  fixes k :: "host_world core"
  assumes "iolink_init linux_platform p config k = Some (r, k')" and "p = NULL \<or> p = Ref iolink_phy_virtual_get"
  shows "lw_nvm_file (world (g_stack k')) = lw_nvm_file (world (g_stack k))"
proof (cases p)
  case (Ref q)
  let ?f = "\<lambda>s :: host_world stack. lw_nvm_file (world s)"
  obtain err k1 where k1: "core_phy_init iolink_phy_virtual_get (core_store_config config k) = (err, k1)" by fastforce
  then have w1: "?f (g_stack k1) = ?f (g_stack k)"
    by (auto simp: core_phy_init_def iolink_phy_virtual_get_def virtual_init_def core_store_config_def Let_def
        split: ptr.splits prod.splits if_splits)
  have t_pd: "lw_nvm_file (gl_world (sk_globals (apply_t_pd linux_platform s))) = lw_nvm_file (gl_world (sk_globals s))"
    for s :: "host_world stack"
    using host_nvm.time_us_kept [of "world s"]
    by (auto simp: apply_t_pd_def iolink_time_get_us_def nvm_part_def world_def [symmetric] split: prod.splits)
  have phy: "phy_set_mode iolink_phy_virtual_get = Ref f1 \<Longrightarrow> lw_nvm_file (f1 m w) = lw_nvm_file w"
    "phy_set_baudrate iolink_phy_virtual_get = Ref f2 \<Longrightarrow> lw_nvm_file (f2 b w) = lw_nvm_file w" for f1 f2 m b w
    using host_nvm.mode_kept [of f1 m w] host_nvm.baud_kept [of f2 b w] by (simp_all add: nvm_part_def)
  show ?thesis
    using assms Ref w1 k1
    by (auto simp: iolink_init_def iolink_dll_init_eq bind_eq_Some_conv Let_def t_pd world_def phy dest!: params_init_keeps_world
        split: if_splits ptr.splits)
qed (use assms in \<open>simp add: iolink_init_def\<close>)

lemma process_keeps_nvm:
  fixes k :: "host_world core"
  assumes "live iolink_phy_virtual_get (\<lambda>_. True) (g_stack k)" and "dll_isdu_process linux_platform (g_stack k) = Some s1"
    and "dll_phy (sk_dll s1) = dll_phy (sk_dll (g_stack k))"
  shows "runs (iolink_process linux_platform k) (\<lambda>k'. nvm_part (world (g_stack k')) = nvm_part (world s1))"
proof -
  have phy: "dll_phy (sk_dll (g_stack k)) = Ref iolink_phy_virtual_get" using assms(1) by (simp add: live_def)
  have "runs (iolink_process linux_platform k) (\<lambda>_. True)"
    using virtual_link.exec_safe [OF assms(1), of Process] by (auto elim: runs_mono)
  then show ?thesis
    using host_nvm.process_kept [OF phy assms(2)] assms(3) phy by (auto simp: iolink_process_def elim!: runsE)
qed

text \<open>
  The calls of the application that may write the memory, or change the outside as they like, and
  the request that may: the engine is about to execute one that is not a read.
\<close>

fun may_write_nvm :: "'w core_call \<Rightarrow> 'w core \<Rightarrow> bool" where
  "may_write_nvm Process k \<longleftrightarrow> (let i = dll_isdu (sk_dll (g_stack k)) in is_state i = ISDU_STATE_SERVICE_EXECUTE \<and> \<not> is_read i)"
| "may_write_nvm (ParamsSet i sub data len persist) k \<longleftrightarrow> True"
| "may_write_nvm FactoryReset k \<longleftrightarrow> True"
| "may_write_nvm (Outside w) k \<longleftrightarrow> True"
| "may_write_nvm _ k \<longleftrightarrow> False"

lemma call_keeps_nvm:
  assumes "core_exec linux_platform c k = Some k'" and "c \<noteq> Process"
    and "call_ok linux_platform iolink_phy_virtual_get c k" and "\<not> may_write_nvm c k"
  shows "lw_nvm_file (world (g_stack k')) = lw_nvm_file (world (g_stack k))"
  using assms init_keeps_nvm [of _ _ k] params_init_keeps_world [of "sk_globals (g_stack k)"]
  by (cases c) (auto simp: init_ok_def mod_events_def mod_ds_def mod_globals_def mod_info_def iolink_set_timing_enforcement_def
      iolink_set_t_ren_limit_us_def iolink_pd_input_update_def iolink_params_get_def copy_out_def world_def Let_def bind_eq_Some_conv
      split: ptr.splits if_splits prod.splits)

text \<open>
  C17: Only writes reach the non-volatile memory.  On the Linux port, a call of the library in a
  running stack leaves the parameter file as it is, unless it is a parameter write or a factory
  reset by the application, or a call of the main loop that finds an ISDU request other than a
  read waiting: no frame, event, fallback or Data Storage activity touches it.
\<close>

theorem nvm_only_written_by_writes:
  assumes "live iolink_phy_virtual_get (\<lambda>_. True) (g_stack k)" and "call_ok linux_platform iolink_phy_virtual_get c k" and "\<not> may_write_nvm c k"
  shows "runs (core_exec linux_platform c k) (\<lambda>k'. lw_nvm_file (world (g_stack k')) = lw_nvm_file (world (g_stack k)))"
proof (cases "c = Process")
  case True
  then obtain s1 where s1: "dll_isdu_process linux_platform (g_stack k) = Some s1" "world s1 = world (g_stack k)"
      "dll_phy (sk_dll s1) = dll_phy (sk_dll (g_stack k))"
    using read_step_world [OF assms(1)] assms(3) by (auto simp: Let_def elim!: runsE)
  show ?thesis
    using True s1(2) by (auto simp: nvm_part_def intro!: runs_mono [OF process_keeps_nvm [OF assms(1) s1(1,3)]])
next
  case False
  have "runs (core_exec linux_platform c k) (\<lambda>_. True)"
    using virtual_link.exec_safe [OF assms(1,2)] by (auto elim: runs_mono)
  then obtain k' where "core_exec linux_platform c k = Some k'" by (auto elim: runsE)
  moreover from this have "lw_nvm_file (world (g_stack k')) = lw_nvm_file (world (g_stack k))"
    using False assms(2,3) by (rule call_keeps_nvm)
  ultimately show ?thesis by simp
qed

lemma demo_operating_live: "live iolink_phy_virtual_get (\<lambda>_. True) (g_stack (demo_operating fs))"
  using demo_operating_simps(1,6) [of fs] by (simp add: live_def stack_wf_def operating_def cyclic_def Let_def)

lemma nvm_only_written_by_writes_witness:
  "runs (core_exec linux_platform Process (demo_operating [cyclic_frame [0xAA] [0]]))
     (\<lambda>k'. lw_nvm_file (world (g_stack k')) = lw_nvm_file demo_world)"
  using nvm_only_written_by_writes [OF demo_operating_live, of Process "[cyclic_frame [0xAA] [0]]"]
    demo_operating_simps(2) [of "[cyclic_frame [0xAA] [0]]"]
  by (simp add: demo_operating_def Let_def)

section \<open>A restart\<close>

text \<open>
  The state after a restart: as loaded, or with the built-in device record selected by the
  application (\<^verbatim>\<open>iolink_device_info_init(NULL)\<close>) before it initialises the stack.
\<close>

definition core_selected :: "'w \<Rightarrow> 'w core" where
  "core_selected w = mod_stack (\<lambda>s. s\<lparr>sk_globals := restarted w\<rparr>) (core_static w)"

lemma core_selected_simps:
  "sk_globals (g_stack (core_selected w)) = restarted w" "world (g_stack (core_selected w)) = w"
  by (simp_all add: core_selected_def world_def restarted_wf)

lemma init_tag_shown:
  assumes "globals_wf (sk_globals (g_stack k))" and "phy_starts p (world (g_stack k))"
    and "runs (iolink_params_init plat ((sk_globals (g_stack k))\<lparr>gl_world := boot_world p (world (g_stack k))\<rparr>))
      (\<lambda>g. tag_shown i g = v)"
  shows "runs (iolink_init plat (Ref p) (Ref cfg) k) (\<lambda>(r, k'). r = 0 \<and> tag_shown i (sk_globals (g_stack k')) = v)"
proof -
  let ?w = "case phy_init p of NULL \<Rightarrow> world (g_stack k) | Ref f \<Rightarrow> snd (f (world (g_stack k)))"
  obtain k1 where k1: "core_phy_init p (core_store_config (Ref cfg) k) = (0, k1)" "world (g_stack k1) = ?w"
    using core_phy_init_ok [OF assms(2,1)] by blast
  have glob: "sk_globals (g_stack k1) = (sk_globals (g_stack k))\<lparr>gl_world := ?w\<rparr>"
    using k1(1) assms(2)
    by (auto simp: core_phy_init_def core_store_config_def phy_starts_def set_world_def world_def split: ptr.splits prod.splits)
  have init: "iolink_dll_init (Ref p) (g_stack k1) = Some \<lparr>sk_dll = booted_ctx p,
      sk_globals = (sk_globals (g_stack k))\<lparr>gl_world := boot_world p (world (g_stack k))\<rparr>\<rparr>"
    unfolding iolink_dll_init_eq k1(2) glob by (simp add: boot_world_def Let_def)
  have "tag_shown i (sk_globals (mod_dll apply_lengths (apply_t_pd plat (mod_dll f \<lparr>sk_dll = c, sk_globals = g\<rparr>)))) = tag_shown i g" for f c g
    by (rule tag_shown_env) (simp_all add: apply_t_pd_def iolink_time_get_us_def set_world_def split: prod.split)
  then show ?thesis
    unfolding iolink_init_def ptr.case k1(1) prod.case
    by (auto simp: init Let_def intro!: runs_mono [OF assms(3)])
qed

text \<open>A stored record is taken over whole only when the built-in device record is selected.\<close>

lemma params_init_unselected:
  assumes "g_device_info (gl_info g) = InfoNull" and "shadow_wf sh" and "nv_magic sh = PARAMS_NVM_MAGIC"
    and "nvm_read plat 0 (params_bytes (g_nvm_shadow g)) (gl_world g) = (0, params_bytes sh, w')"
  shows "iolink_params_init plat g = Some (g\<lparr>g_nvm_shadow := sh, gl_world := w'\<rparr>)"
  using assms
  by (simp add: iolink_params_init_def params_bytes_roundtrip Let_def iolink_device_info_set_application_tag_def
      strlen_Some shadow_wf_def tag_wf_def)

lemma tag_shown_shadow:
  assumes "shadow_wf sh" and "tag_value i g = shadow_tag i sh" and "i = 0x0018 \<longrightarrow> has_app_tag g"
  shows "tag_shown i g = Some (shadow_tag i sh)"
proof -
  have "length (shadow_tag i sh) \<le> 33"
    using assms(1) length_cstr_of_le [of "nv_application_tag sh"] length_cstr_of_le [of "nv_function_tag sh"]
      length_cstr_of_le [of "nv_location_tag sh"] by (auto simp: shadow_tag_def shadow_wf_def tag_wf_def)
  then show ?thesis using assms(2,3) by (simp add: tag_shown_def clip_response_def)
qed

lemma view_globals: "sy_globals (isdu_view s) = sk_globals s"
  by (simp add: isdu_view_def)

lemma selected_restart:
  assumes "phy_starts p w" and "shadow_wf sh" and "nv_magic sh = PARAMS_NVM_MAGIC" and "tag_index i"
    and "nvm_read plat 0 (params_bytes zero_params_nvm) (boot_world p w) = (0, params_bytes sh, w')"
  shows "runs (iolink_init plat (Ref p) (Ref cfg) (core_selected w)) (\<lambda>(r, k). r = 0 \<and>
      read_spec (isdu_view (g_stack k)) i sub = Some (shadow_tag i sh))"
proof -
  let ?g = "(restarted w)\<lparr>gl_world := boot_world p w\<rparr>"
  have g: "globals_wf ?g" "g_device_info (gl_info ?g) = InfoDefault" "g_nvm_shadow ?g = zero_params_nvm"
    using restarted_wf [of w] by (simp_all, simp add: restarted_def globals_static_def)
  show ?thesis
    unfolding tag_read_spec [OF assms(4)] view_globals
    using assms(1,5) g(3) tag_shown_shadow [OF assms(2)]
    by (intro init_tag_shown)
       (auto simp: core_selected_simps restarted_wf intro!: runs_mono [OF params_init_stored [OF g(1,2) assms(2,3)]])
qed

lemma stored_read:
  assumes "lw_nvm_file w = Some (params_bytes sh)" and "lw_stdio w = stdio_ok" and "shadow_wf sh" and "phy_starts iolink_phy_virtual_get w"
  shows "\<exists>w'. nvm_read linux_platform 0 (params_bytes zero_params_nvm) (boot_world iolink_phy_virtual_get w) = (0, params_bytes sh, w')"
proof -
  have "shadow_wf zero_params_nvm" using globals_wf_static by (simp add: globals_wf_def globals_static_def)
  then have len: "length (params_bytes zero_params_nvm) = 104" "length (params_bytes sh) = 104"
    using assms(3) by (simp_all add: length_params_bytes)
  have "nvm_part (boot_world iolink_phy_virtual_get w) = nvm_part w"
    by (auto simp: nvm_part_def boot_world_def iolink_phy_virtual_get_def virtual_init_def virtual_set_mode_def virtual_set_baudrate_def Let_def)
  then show ?thesis
    using assms(1,2) len by (auto simp: nvm_part_def linux_platform_def linux_nvm_read_def iolink_buf_is_valid_def Let_def)
qed

text \<open>
  C39: Which tags a restart brings back.  The memory holds a valid record when the stack is
  initialised.  If the application selected the built-in device record before
  (\<^verbatim>\<open>iolink_device_info_init(NULL)\<close>), reads of all three tag indices show the stored tags.  If it
  only calls \<^verbatim>\<open>iolink_init\<close>, as the examples do, the device record is still unset when the stored
  record is taken over, so the stored application tag is dropped silently and the device shows
  \<^verbatim>\<open>DefaultTag\<close>, while the function and location tags are the stored ones.
\<close>

theorem restart_tags:
  assumes "phy_starts p w" and "shadow_wf sh" and "nv_magic sh = PARAMS_NVM_MAGIC" and "tag_index i"
    and "nvm_read plat 0 (params_bytes zero_params_nvm) (boot_world p w) = (0, params_bytes sh, w')"
  shows "runs (iolink_init plat (Ref p) (Ref cfg) (core_selected w)) (\<lambda>(r, k). r = 0 \<and>
      read_spec (isdu_view (g_stack k)) i sub = Some (shadow_tag i sh)) \<and>
    runs (iolink_init plat (Ref p) (Ref cfg) (core_static w)) (\<lambda>(r, k). r = 0 \<and>
      read_spec (isdu_view (g_stack k)) i sub = Some (if i = 0x0018 then cstr_of (c_literal ''DefaultTag'') else shadow_tag i sh))"
proof (rule conjI [OF selected_restart [OF assms]])
  let ?s = "(globals_static w)\<lparr>g_nvm_shadow := sh, gl_world := w'\<rparr>"
  have null: "g_device_info (gl_info (globals_static w)) = InfoNull" "g_nvm_shadow (globals_static w) = zero_params_nvm"
    by (simp_all add: globals_static_def device_info_static_def)
  have app: "tag_shown 0x0018 ?s = Some (cstr_of (c_literal ''DefaultTag''))"
    by (simp add: tag_shown_def has_app_tag_def tag_value_def globals_static_def device_info_static_def current_info_def
        default_info_def str_array_def clip_response_def c_literal_def cstr_of_def)
  have other: "i \<noteq> 0x0018 \<Longrightarrow> tag_shown i ?s = Some (shadow_tag i sh)"
    using assms(4) by (intro tag_shown_shadow [OF assms(2)]) (auto simp: tag_value_def shadow_tag_def tag_index_def)
  show "runs (iolink_init plat (Ref p) (Ref cfg) (core_static w)) (\<lambda>(r, k). r = 0 \<and>
      read_spec (isdu_view (g_stack k)) i sub = Some (if i = 0x0018 then cstr_of (c_literal ''DefaultTag'') else shadow_tag i sh))"
    unfolding tag_read_spec [OF assms(4)] view_globals
    using assms(1,5) core_static_wf [of w] null app other
      params_init_unselected [of "(globals_static w)\<lparr>gl_world := boot_world p w\<rparr>" sh plat w'] assms(2,3)
    by (intro init_tag_shown) (auto simp: core_static_def)
qed

lemma restart_tags_witness:
  "let sh = zero_params_nvm\<lparr>nv_magic := PARAMS_NVM_MAGIC, nv_application_tag := 0x41 # replicate 32 0\<rparr>;
       w = demo_world\<lparr>lw_nvm_file := Some (params_bytes sh), lw_stdio := stdio_ok\<rparr> in
   runs (iolink_init linux_platform (Ref iolink_phy_virtual_get) (Ref demo_config) (core_selected w)) (\<lambda>(r, k). r = 0 \<and>
      read_spec (isdu_view (g_stack k)) 0x0018 0 = Some [0x41]) \<and>
   runs (iolink_init linux_platform (Ref iolink_phy_virtual_get) (Ref demo_config) (core_static w)) (\<lambda>(r, k). r = 0 \<and>
      read_spec (isdu_view (g_stack k)) 0x0018 0 = Some (cstr_of (c_literal ''DefaultTag'')))"
proof -
  let ?sh = "zero_params_nvm\<lparr>nv_magic := PARAMS_NVM_MAGIC, nv_application_tag := 0x41 # replicate 32 0\<rparr>"
  let ?w = "demo_world\<lparr>lw_nvm_file := Some (params_bytes ?sh), lw_stdio := stdio_ok\<rparr>"
  have sh: "shadow_wf ?sh" by (simp add: shadow_wf_def tag_wf_def zero_params_nvm_def)
  have starts: "phy_starts iolink_phy_virtual_get ?w"
    by (simp add: phy_starts_def iolink_phy_virtual_get_def virtual_init_def demo_world_def)
  have tag: "shadow_tag 0x0018 ?sh = [0x41]" by (simp add: shadow_tag_def cstr_of_def)
  obtain w' where w': "nvm_read linux_platform 0 (params_bytes zero_params_nvm) (boot_world iolink_phy_virtual_get ?w) = (0, params_bytes ?sh, w')"
    using stored_read [of ?w ?sh] sh starts by auto
  have "tag_index 0x0018" "nv_magic ?sh = PARAMS_NVM_MAGIC" by (simp_all add: tag_index_def)
  from restart_tags [OF starts sh this(2,1) w', of demo_config 0] tag show ?thesis
    by (simp add: Let_def)
qed

section \<open>A write over the wire and a power cycle\<close>

lemma tag_write_stores:
  assumes "executing s" and "is_write (sy_isdu s)" and "hdr_index (is_header (sy_isdu s)) = index"
    and "tag_write_ok index (is_buffer_idx (sy_isdu s)) (sy_globals (installed s))"
  shows "runs (iolink_isdu_process plat s) (\<lambda>s'. \<exists>sh. shadow_wf sh \<and> nv_magic sh = nv_magic (g_nvm_shadow (sy_globals s)) \<and>
     gl_world (sy_globals s') = snd (nvm_write plat 0 (params_bytes sh) (gl_world (sy_globals s))) \<and>
     shadow_tag index sh = cstr_of (take (min 32 (is_buffer_idx (sy_isdu s))) (is_buffer (sy_isdu s))))"
proof -
  have "tag_index index" using assms(4) by (simp add: tag_write_ok_def)
  note h = tag_write_handler [OF assms(2,3) this]
  have "sys_wf (installed s)" using executing_sys_wf [OF executing_installed [OF assms(1)]] .
  note wf = sys_wfD [OF this]
  have set: "runs (iolink_params_set plat index 0 (Ref (is_buffer (sy_isdu s))) (is_buffer_idx (sy_isdu s)) True (sy_globals (installed s)))
     (\<lambda>(r, g). r = 0 \<and> (\<exists>sh. shadow_wf sh \<and> nv_magic sh = nv_magic (g_nvm_shadow (sy_globals s)) \<and>
       gl_world g = snd (nvm_write plat 0 (params_bytes sh) (gl_world (sy_globals s))) \<and>
       shadow_tag index sh = cstr_of (take (min 32 (is_buffer_idx (sy_isdu s))) (is_buffer (sy_isdu s)))))"
    using wf by (intro runs_mono [OF params_set_stores [OF _ assms(4)]]) (auto simp: installed_def)
  have same: "sy_isdu (installed s) = sy_isdu s" by (simp add: installed_def)
  show ?thesis
    unfolding iolink_isdu_process_executing [OF assms(1)] h runs_map_option handle_tag_write_def Let_def runs_bind same
    by (rule runs_mono [OF set])
       (use wf(1) same in \<open>auto simp: runs_on_isdu intro!: runs_mono [OF isdu_reply_prepared] runs_mono [OF isdu_reply_seq0_prepared]\<close>)
qed

lemma write_step_stores:
  assumes "executing (isdu_view s)" and "holds_request (WriteReq i sub d) (dll_isdu (sk_dll s))"
    and "tag_write_ok i (length d) (sy_globals (installed (isdu_view s)))"
  shows "runs (dll_isdu_process plat s) (\<lambda>s1. dll_phy (sk_dll s1) = dll_phy (sk_dll s) \<and>
     (\<exists>sh. shadow_wf sh \<and> nv_magic sh = nv_magic (g_nvm_shadow (sk_globals s)) \<and> shadow_tag i sh = cstr_of (take 32 d) \<and>
       world s1 = snd (nvm_write plat 0 (params_bytes sh) (world s))))"
proof -
  let ?y = "isdu_view s"
  have w: "is_write (sy_isdu ?y)" "hdr_index (is_header (sy_isdu ?y)) = i" "is_buffer_idx (sy_isdu ?y) = length d"
    "take (length d) (is_buffer (sy_isdu ?y)) = d"
    using assms(2) by (auto simp: isdu_view_def is_write_def)
  then have "take (min 32 (length d)) (is_buffer (sy_isdu ?y)) = take 32 d" by (metis min.commute take_take)
  with tag_write_stores [OF assms(1) w(1,2), of plat] assms(3) w(3) show ?thesis
    by (auto simp: dll_isdu_process_def world_def view_globals elim!: runs_mono)
qed

text \<open>The call after the frames of the request leaves the record of the new tag in a blank memory.\<close>

lemma write_stored:
  assumes "operating k" and "globals_wf (sk_globals (g_stack k))" and "is_state (dll_isdu (sk_dll (g_stack k))) = ISDU_STATE_IDLE"
    and "concat (map (frame_odata (sk_dll (g_stack k))) fs) = encode_request seq (WriteReq i sub d)"
    and "1 \<le> length d" and "length d \<le> 255" and "tag_write_ok i (length d) (sy_globals (installed (isdu_view (g_stack k))))"
    and "nv_magic (g_nvm_shadow (sk_globals (g_stack k))) = PARAMS_NVM_MAGIC" and "linux_nvm_blank w"
    and a: "all_served fs (g_stack k) rs (g_stack k1)"
  shows "runs (iolink_process linux_platform (mod_stack (set_world w) k1)) (\<lambda>k2. \<exists>sh. shadow_wf sh \<and> nv_magic sh = PARAMS_NVM_MAGIC \<and>
     shadow_tag i sh = cstr_of (take 32 d) \<and> nvm_part (world (g_stack k2)) = (Some (params_bytes sh), stdio_ok))"
proof -
  let ?s = "set_world w (g_stack k1)"
  note r = write_delivered [OF assms(1-7) a, of w]
  have sh: "nv_magic (g_nvm_shadow (sk_globals ?s)) = PARAMS_NVM_MAGIC" and cyc: "cyclic (sk_dll ?s)"
    using a assms(8) by (simp_all add: all_served_def service_env_def set_world_def Let_def)
  from write_step_stores [of ?s i sub d linux_platform] r sh obtain s1 sh1 where
    s1: "dll_isdu_process linux_platform ?s = Some s1" "dll_phy (sk_dll s1) = dll_phy (sk_dll ?s)"
      "world s1 = snd (nvm_write linux_platform 0 (params_bytes sh1) w)"
    and sh1: "shadow_wf sh1" "nv_magic sh1 = PARAMS_NVM_MAGIC" "shadow_tag i sh1 = cstr_of (take 32 d)"
    by (auto elim!: runsE)
  have stored: "nvm_part (world s1) = (Some (params_bytes sh1), stdio_ok)"
    unfolding s1(3) using assms(9)
    by (auto simp: nvm_part_def linux_platform_def linux_nvm_write_def linux_nvm_blank_def iolink_buf_is_valid_def Let_def)
  have "live iolink_phy_virtual_get (\<lambda>_. True) (g_stack (mod_stack (set_world w) k1))"
    using cyc r by (simp add: live_def stack_wf_def cyclic_def executing_def sys_wf_def isdu_view_def)
  then have "runs (iolink_process linux_platform (mod_stack (set_world w) k1)) (\<lambda>k2. nvm_part (world (g_stack k2)) = nvm_part (world s1))"
    by (rule process_keeps_nvm) (use s1(1,2) in simp_all)
  then show ?thesis by (rule runs_mono) (use stored sh1 in auto)
qed

text \<open>
  C7: A tag written by the master survives a power cycle.  A device in cyclic operation whose
  memory is still blank receives frames that carry a write to a tag index; the next call of the
  main loop executes it, whatever arrives on the line meanwhile.  If the power then goes away
  and comes back with the parameter file as that call left it, an application that selects the
  built-in device record and initialises the stack has a device that answers a read of that
  index with the bytes the master wrote, cut at 32 bytes and at the first NUL.
\<close>

theorem session_write_survives:
  fixes k :: "host_world core"
  defines "c \<equiv> sk_dll (g_stack k)"
  assumes "operating k" and "globals_wf (sk_globals (g_stack k))" and "is_state (dll_isdu c) = ISDU_STATE_IDLE"
    and "line_in (world (g_stack k)) = concat fs" and "\<forall>f \<in> set fs. good_frame c f"
    and "concat (map (frame_odata c) fs) = encode_request seq (WriteReq i sub d)"
    and "1 \<le> length d" and "length d \<le> 255" and "tag_write_ok i (length d) (sy_globals (installed (isdu_view (g_stack k))))"
    and "nv_magic (g_nvm_shadow (sk_globals (g_stack k))) = PARAMS_NVM_MAGIC" and "linux_nvm_blank (world (g_stack k))"
  shows "runs (iolink_process linux_platform k) (\<lambda>k1. \<forall>w. nvm_part w = nvm_part (world (g_stack k1)) \<longrightarrow>
     runs (iolink_process linux_platform (mod_stack (set_world w) k1)) (\<lambda>k2. \<forall>w' cfg sub'.
       nvm_part w' = nvm_part (world (g_stack k2)) \<and> phy_starts iolink_phy_virtual_get w' \<longrightarrow>
       runs (iolink_init linux_platform (Ref iolink_phy_virtual_get) (Ref cfg) (core_selected w')) (\<lambda>(r, k3). r = 0 \<and>
         read_spec (isdu_view (g_stack k3)) i sub' = Some (cstr_of (take 32 d)))))"
proof -
  have live: "live iolink_phy_virtual_get (\<lambda>_. True) (g_stack k)"
    using assms(2,3) by (simp add: live_def stack_wf_def operating_def cyclic_def Let_def)
  have served: "runs (iolink_process linux_platform k) (\<lambda>k'. \<exists>rs. all_served fs (g_stack k) rs (g_stack k'))"
    by (rule session_cycles) (use assms(2,4-6) in \<open>simp_all add: c_def\<close>)
  have same: "runs (iolink_process linux_platform k) (\<lambda>k'. nvm_part (world (g_stack k')) = nvm_part (world (g_stack k)))"
    by (rule process_keeps_nvm [OF live isdu_process_idle]) (use assms(4) in \<open>simp_all add: c_def\<close>)
  have blank: "nvm_part w = nvm_part (world (g_stack k)) \<Longrightarrow> linux_nvm_blank w" for w
    using assms(12) by (simp add: linux_nvm_blank_def nvm_part_def)
  note stored = write_stored [OF assms(2,3) assms(4) [unfolded c_def] assms(7) [unfolded c_def] assms(8-11) blank]
  have restart: "runs (iolink_init linux_platform (Ref iolink_phy_virtual_get) (Ref cfg) (core_selected w')) (\<lambda>(r, k3). r = 0 \<and>
         read_spec (isdu_view (g_stack k3)) i sub' = Some (cstr_of (take 32 d)))"
    if "shadow_wf sh" "nv_magic sh = PARAMS_NVM_MAGIC" "shadow_tag i sh = cstr_of (take 32 d)"
      "nvm_part w' = (Some (params_bytes sh), stdio_ok)" "phy_starts iolink_phy_virtual_get w'" for sh w' cfg sub'
    using selected_restart [OF that(5,1,2), of i] stored_read [OF _ _ that(1,5)] that(3,4) assms(10)
    by (auto simp: nvm_part_def tag_write_ok_def)
  show ?thesis
  proof (rule runs_mono [OF runs_conj [OF served same]], intro allI impI)
    fix k1 :: "host_world core" and w :: host_world
    assume "(\<exists>rs. all_served fs (g_stack k) rs (g_stack k1)) \<and> nvm_part (world (g_stack k1)) = nvm_part (world (g_stack k))"
      and "nvm_part w = nvm_part (world (g_stack k1))"
    then show "runs (iolink_process linux_platform (mod_stack (set_world w) k1)) (\<lambda>k2. \<forall>w' cfg sub'.
       nvm_part w' = nvm_part (world (g_stack k2)) \<and> phy_starts iolink_phy_virtual_get w' \<longrightarrow>
       runs (iolink_init linux_platform (Ref iolink_phy_virtual_get) (Ref cfg) (core_selected w')) (\<lambda>(r, k3). r = 0 \<and>
         read_spec (isdu_view (g_stack k3)) i sub' = Some (cstr_of (take 32 d))))"
      using restart by (auto intro!: runs_mono [OF stored])
  qed
qed

text \<open>The example device, its memory blank, asked to store the location tag.\<close>

lemma session_write_survives_witness:
  "let fs = map (\<lambda>b. cyclic_frame [0xAA] [b]) (encode_request 0 (WriteReq 0x1A 0 [0x41, 0x42]));
       k = mod_stack (\<lambda>s. s\<lparr>sk_globals := (sk_globals s)\<lparr>g_nvm_shadow := zero_params_nvm\<lparr>nv_magic := PARAMS_NVM_MAGIC\<rparr>\<rparr>\<rparr>) (demo_operating fs) in
   runs (iolink_process linux_platform k) (\<lambda>k1.
     runs (iolink_process linux_platform (mod_stack (set_world (world (g_stack k1))) k1)) (\<lambda>k2.
       phy_starts iolink_phy_virtual_get (demo_world\<lparr>lw_nvm_file := lw_nvm_file (world (g_stack k2)), lw_stdio := lw_stdio (world (g_stack k2))\<rparr>) \<and>
       runs (iolink_init linux_platform (Ref iolink_phy_virtual_get) (Ref demo_config) (core_selected
           (demo_world\<lparr>lw_nvm_file := lw_nvm_file (world (g_stack k2)), lw_stdio := lw_stdio (world (g_stack k2))\<rparr>)))
         (\<lambda>(r, k3). r = 0 \<and> read_spec (isdu_view (g_stack k3)) 0x1A 0 = Some (cstr_of (take 32 [0x41, 0x42])))))"
proof -
  let ?fs = "map (\<lambda>b. cyclic_frame [0xAA] [b]) (encode_request 0 (WriteReq 0x1A 0 [0x41, 0x42]))"
  let ?k = "mod_stack (\<lambda>s. s\<lparr>sk_globals := (sk_globals s)\<lparr>g_nvm_shadow := zero_params_nvm\<lparr>nv_magic := PARAMS_NVM_MAGIC\<rparr>\<rparr>\<rparr>) (demo_operating ?fs)"
  let ?c = "sk_dll (g_stack ?k)"
  have world: "world (s\<lparr>sk_globals := (sk_globals s)\<lparr>g_nvm_shadow := x\<rparr>\<rparr>) = world s" for s :: "host_world stack" and x
    by (simp add: world_def)
  have op: "operating ?k" "is_state (dll_isdu ?c) = ISDU_STATE_IDLE" "line_in (world (g_stack ?k)) = concat ?fs"
    using demo_operating_simps [of ?fs]
    by (simp_all add: operating_def world timed_out_def iolink_time_get_ms_def Let_def split_beta)
  have gw: "globals_wf (sk_globals (g_stack ?k))"
    using demo_operating_simps(6) [of ?fs] by (simp add: globals_wf_def shadow_wf_def tag_wf_def zero_params_nvm_def)
  let ?d = "sk_dll (g_stack (demo_operating ?fs))"
  have g: "good_frame ?d (cyclic_frame [x] [b])" "frame_odata ?d (cyclic_frame [x] [b]) = [b]" for x b
    by (simp_all add: cyclic_frame_good demo_operating_simps)
  have req: "concat (map (frame_odata ?c) ?fs) = encode_request 0 (WriteReq 0x1A 0 [0x41, 0x42])" by (simp add: comp_def g)
  have ok: "tag_write_ok 0x1A (length [0x41 :: u8, 0x42]) (sy_globals (installed (isdu_view (g_stack ?k))))"
    by (simp add: tag_write_ok_def tag_index_def)
  have blank: "linux_nvm_blank (world (g_stack ?k))"
    by (simp add: world demo_operating_def linux_nvm_blank_def demo_world_def)
  have starts: "phy_starts iolink_phy_virtual_get (demo_world\<lparr>lw_nvm_file := f, lw_stdio := b\<rparr>)" for f b
    by (simp add: phy_starts_def iolink_phy_virtual_get_def virtual_init_def demo_world_def)
  show ?thesis
    unfolding Let_def
    by (rule runs_mono [OF session_write_survives [OF op(1) gw op(2,3) _ req _ _ ok _ blank]])
       (use g starts in \<open>auto simp: nvm_part_def elim!: runs_mono\<close>)
qed

end
