(* ===== verification/Spec2Isabelle.thy ===== *)
theory Spec2Isabelle
  imports Applications Critical_Sections Acyclic Session_Events Persistence
begin

text \<open>
  A model of \<^emph>\<open>iolinki\<close>, an IO-Link device stack in C, and the theorems that make it correct.

  \<^bold>\<open>The program.\<close>  The application calls \<^verbatim>\<open>iolink_init\<close> once and \<^verbatim>\<open>iolink_process\<close> in a loop
  (\<^verbatim>\<open>src/iolink_core.c\<close>).  Each round runs the data link layer (\<^verbatim>\<open>src/dll.c\<close>): it executes a
  pending ISDU service, polls the PHY's diagnostics, watches for inactivity, and, once a wake-up has
  been seen, assembles frames from received bytes, checks them (\<^verbatim>\<open>src/crc.c\<close>), moves the IO-Link
  state machine and answers.  On-request bytes of the frames go through the ISDU engine
  (\<^verbatim>\<open>src/isdu.c\<close>), whose services reach the parameter manager (\<^verbatim>\<open>src/params.c\<close>), the device
  record (\<^verbatim>\<open>src/device_info.c\<close>), the event queue (\<^verbatim>\<open>src/events.c\<close>) and Data Storage
  (\<^verbatim>\<open>src/data_storage.c\<close>).  The PHY (\<^verbatim>\<open>include/iolinki/phy.h\<close>) and the platform's clock and
  non-volatile memory (\<^verbatim>\<open>src/platform*\<close>) are the outside world.

  \<^bold>\<open>How it is modelled.\<close>  Each C struct is a record with the fields of the source (prefixed by
  the module), each enumeration a datatype, integers are words of their width, \<^verbatim>\<open>size_t\<close> is
  \<open>nat\<close>.  A function maps the state it reaches to its result and the state at its return, in the
  option monad: \<open>None\<close> is undefined behaviour (an access outside an array, an unterminated string, a
  NULL dereference) or a loop that does not end, so \<open>runs m P\<close> is total correctness.  A function that
  begins with a NULL check on its context has its body under the API name; the check is in the \<open>_p\<close>
  variant.  Everything outside the stack is one value of type \<open>'w\<close>, threaded through the calls;
  the PHY and the platform are records of functions on it.  In this model a call is one step;
  \<open>Critical_Sections\<close> splits the calls that other threads or interrupts may interleave with.

  \<^item> \<open>Iol_Prelude\<close>: word types, pointers, \<open>runs\<close>, arrays with bounds, \<^verbatim>\<open>memcpy\<close>, \<^verbatim>\<open>strlen\<close>, loops,
    and \<^verbatim>\<open>include/iolinki/utils.h\<close>.
  \<^item> \<open>Protocol\<close>: the constants of \<^verbatim>\<open>protocol.h\<close>, \<^verbatim>\<open>config.h\<close> and \<^verbatim>\<open>events.h\<close>.
  \<^item> \<open>Crc\<close>: \<^verbatim>\<open>crc.c\<close>; the shift register equals polynomial long division over GF(2), and which errors
    it detects.
  \<^item> \<open>Events\<close>: \<^verbatim>\<open>events.c\<close>; the ring buffer implements the locale \<open>drop_oldest_queue\<close>.
  \<^item> \<open>Data_Storage\<close>: \<^verbatim>\<open>data_storage.c\<close>; Fletcher-16 in closed form, the engine as a step relation.
  \<^item> \<open>Platform\<close>: the ports; the locale \<open>nvm_store\<close> is what the parameter manager relies on.
  \<^item> \<open>Phy\<close>: the PHY record, the generic and the virtual driver; the locale \<open>link_env\<close> is what the
    receive loops need to end.
  \<^item> \<open>Device_Info\<close>, \<open>Params\<close>: \<^verbatim>\<open>device_info.c\<close> and \<^verbatim>\<open>params.c\<close>; set and get, restart, factory
    reset.
  \<^item> \<open>Isdu\<close>: the transport half of \<^verbatim>\<open>isdu.c\<close>, with the master's segment encoder as its inverse.
  \<^item> \<open>Isdu_Services\<close>: the service half; \<open>Isdu_Refinement\<close>: its invariant, its refinement of the
    abstract \<open>read_spec\<close>, and transport and services together end to end.
  \<^item> \<open>Dll\<close>: \<^verbatim>\<open>dll.c\<close>; \<open>Dll_Safety\<close>: memory safety and termination of \<^verbatim>\<open>iolink_dll_process\<close>, for
    every control invariant at once (locale \<open>link_inv\<close>, with its instances as sublocales);
    \<open>Dll_Behaviour\<close>: refinement of the abstract state machine \<open>next_state\<close>, the cyclic exchange, the
    fallback and inactivity rules, the end of the receive loops.
  \<^item> \<open>Core\<close>: \<^verbatim>\<open>iolink_core.c\<close>; initialisation, any sequence of calls of the public API, further
    initialisations included (\<open>core_call\<close>, \<open>core_exec\<close>, \<open>core_reaches\<close>), and the properties of the stack
    as a whole.
  \<^item> \<open>Main_Loop\<close>: what a call of the main loop leaves alone, as the locale \<open>outside_kept\<close>; the Data
    Storage commands of the master in the stack as it is put together.
  \<^item> \<open>Line_Reception\<close>, \<open>Cycles\<close>: the virtual line cut into frames, a backlog of frames served one
    by one, the on-request bytes of consecutive frames as one stream; \<open>Session\<close>: the device over
    several calls of the main loop, from power-on to OPERATE, and an ISDU read carried by cyclic
    frames, decoded by the master and compared with \<open>read_spec\<close>.
  \<^item> \<open>Master\<close>: the master as a function of the device state, and a read as one round of two calls.
  \<^item> \<open>Noise\<close>: a line with damaged frames between the good ones; \<open>Session_Write\<close>: a tag written by
    cyclic frames and read back over the frames that follow; \<open>Acyclic\<close>: an ISDU read over the two-byte frames
    before the cyclic phase.
  \<^item> \<open>Session_Events\<close>: events from the application's trigger to the master, with the event flag of
    the responses.
  \<^item> \<open>Persistence\<close>: the locale \<open>outside_kept\<close> interpreted for the parameter file; which stored tags a
    restart brings back; a tag written over the line and read after a power cycle.
  \<^item> \<open>Interleaving\<close>: threads of single accesses and critical sections as a step relation; the locale
    \<open>sectioned_calls\<close> is the contract under which every interleaving of calls has the effect of a
    sequential order.  \<open>Critical_Sections\<close>: the event and process data calls as accesses, the
    interpretation \<open>api\<close> of that locale, and what happens without it: with empty sections the event
    queue breaks, and a response read outside of any section mixes old and new process data.
  \<^item> \<open>Applications\<close>: the programs under \<^verbatim>\<open>examples/\<close>; the echo loop of the host demo, the
    bare-metal super-loop and the start of the others.

  \<^bold>\<open>Loops.\<close>  Counting loops are \<open>for_loop\<close> with the source's bound.  The two receive loops of
  \<^verbatim>\<open>dll.c\<close> may run as long as the PHY delivers bytes; they are partial functions, and they are proved
  to end in every environment with a finite backlog (\<open>link_env\<close>), which the virtual driver and the
  generic template satisfy.  The super-loop of the bare-metal example is a partial function too and
  proved to end; the endless loops of the other examples are run for any list of rounds.  There is
  no fuel.

  \<^bold>\<open>Assumptions.\<close>  \<open>config_ok\<close>: the configured process data lengths fit the 32-byte buffers (the
  code does not check it).  \<open>nvm_sane\<close>: a stored record with the magic number has terminated tags
  (the code trusts it).  \<open>call_ok\<close>: a buffer is as long as the length passed with it, the strings of a
  device record are terminated, and a call that reads the stored record or initialises the stack
  again meets the conditions of the first start.

  System calls may fail or do less than asked: the record \<open>stdio\<close> says how the calls on the parameter
  file go, \<open>os_write\<close> how writes to the line go.  A read of the line gives the next byte or none,
  since the driver takes an error for an empty line.  \<open>link_up\<close>, a premise of the sessions: the port is
  open and writes go through.  \<^verbatim>\<open>fclose\<close>, whose result the code ignores, is taken to succeed.

  The theorems of \<open>Session\<close>, \<open>Master\<close>, \<open>Session_Write\<close>, \<open>Session_Events\<close> and \<open>Acyclic\<close> assume frames with good checksums on
  served channels, no power-on delay and the default of no timing enforcement; \<open>Noise\<close> allows bad
  checksums below the fallback threshold.  What delays and timing checks do is in \<open>Dll_Behaviour\<close>,
  step by step.  \<open>Critical_Sections\<close> takes every access to a member or to one array element as
  indivisible.

  \<^bold>\<open>Not modelled.\<close>  Console output; the stack task of the FreeRTOS example, which does not compile;
  the unit tests and the Python virtual master.  Of \<^verbatim>\<open>iolink_process\<close> only the part that reads the
  process data for a response is split into accesses; the rest of the call is one step.
\<close>

end
